(* ===== verification/Prelude.thy ===== *)
theory Prelude
  imports Main "HOL-Library.Word" "HOL-Library.Multiset"
begin

text \<open>
  Shared vocabulary of the development: names for the machine types, signed 64-bit
  wrap-around and saturation as the program's atomics and casts have them, the
  collections of rules the component theories fill, and the generic list and word
  lemmas that more than one component uses.
\<close>

unbundle bit_operations_syntax

section \<open>Machine types\<close>

text \<open>
  Bytes, ports and hashes are words.  An \<open>i64\<close> is an \<open>int\<close> that is kept in range by
  the operations below, each of which writes out what the code's operation does on
  overflow.  A \<open>usize\<close> length is a \<open>nat\<close>.
\<close>

type_synonym byte = "8 word"
type_synonym u16 = "16 word"
type_synonym u64 = "64 word"
type_synonym i64 = int

abbreviation i64_min :: int where "i64_min \<equiv> - 9223372036854775808"
abbreviation i64_max :: int where "i64_max \<equiv> 9223372036854775807"

definition in_i64 :: "int \<Rightarrow> bool" where
  "in_i64 x \<longleftrightarrow> i64_min \<le> x \<and> x \<le> i64_max"

text \<open>Two's complement wrap-around: \<open>fetch_add\<close>, \<open>fetch_sub\<close>, and \<open>-\<close> in a release build.\<close>

definition wrap_i64 :: "int \<Rightarrow> i64" where
  "wrap_i64 x = (x + 9223372036854775808) mod 18446744073709551616 - 9223372036854775808"

text \<open>\<open>saturating_add\<close>.\<close>

definition sat_i64 :: "int \<Rightarrow> i64" where
  "sat_i64 x = max i64_min (min i64_max x)"

lemma wrap_i64_id [simp]: "in_i64 x \<Longrightarrow> wrap_i64 x = x"
  by (simp add: in_i64_def wrap_i64_def)

lemma wrap_i64_in [simp]: "in_i64 (wrap_i64 x)"
proof -
  have "0 \<le> (x + 9223372036854775808) mod (18446744073709551616::int)"
    and "(x + 9223372036854775808) mod (18446744073709551616::int) < 18446744073709551616"
    by simp_all
  then show ?thesis unfolding in_i64_def wrap_i64_def by linarith
qed

lemma wrap_i64_add [simp]: "wrap_i64 (wrap_i64 x + y) = wrap_i64 (x + y)"
proof -
  let ?M = "18446744073709551616 :: int" and ?h = "9223372036854775808 :: int"
  have "wrap_i64 x + y + ?h = (x + ?h) mod ?M + y"
    unfolding wrap_i64_def by linarith
  then have "(wrap_i64 x + y + ?h) mod ?M = ((x + ?h) mod ?M + y) mod ?M"
    by (rule arg_cong)
  also have "\<dots> = (x + y + ?h) mod ?M"
    by (simp only: mod_add_left_eq) (simp add: ac_simps)
  finally show ?thesis
    unfolding wrap_i64_def [of "wrap_i64 x + y"] wrap_i64_def [of "x + y"] by (rule arg_cong)
qed

lemma wrap_i64_diff [simp]: "wrap_i64 (wrap_i64 x - y) = wrap_i64 (x - y)"
  using wrap_i64_add [of x "- y"] by simp

lemma sat_i64_in [simp]: "in_i64 (sat_i64 x)"
  by (simp add: in_i64_def sat_i64_def)

lemma sat_i64_id [simp]: "in_i64 x \<Longrightarrow> sat_i64 x = x"
  by (simp add: in_i64_def sat_i64_def)

section \<open>Collections of rules\<close>

text \<open>
  \<open>io_simps\<close>: how the monad operations and the primitive effects compute;
  \<open>wp_rules\<close>: what the events of a run satisfy; \<open>post_rules\<close>: how a postcondition on the
  appended events is pushed through a run that returns.
\<close>

named_theorems io_simps "computation rules of the effect monad"
named_theorems wp_rules "rules for the events a run appends"
named_theorems post_rules "rules for the postcondition of a run that returns"

lemma wrap_i64_pred: "in_i64 x \<Longrightarrow> wrap_i64 (x - 1) = (if x = i64_min then i64_max else x - 1)"
proof (cases "x = i64_min")
  case False
  assume "in_i64 x"
  with False have "in_i64 (x - 1)" by (simp add: in_i64_def)
  with False show ?thesis by simp
qed (simp add: wrap_i64_def)

section \<open>Floors\<close>

lemma max_0_diff_diff: "0 \<le> e \<Longrightarrow> max 0 (max 0 (b - d) - e) = max 0 (b - (d + e))" for b d e :: int
  by linarith

section \<open>Lists\<close>

lemma find_SomeD: "find P xs = Some x \<Longrightarrow> x \<in> set xs \<and> P x"
  by (auto simp: find_Some_iff)

lemma drop_1_length [simp]: "length (drop (Suc 0) xs) < Suc (length xs)"
  by simp

text \<open>\<open>Iterator::collect\<close> into a \<open>Result\<close>: the first error, or all the values.\<close>

fun collect :: "('e + 'a) list \<Rightarrow> 'e + 'a list" where
  "collect [] = Inr []"
| "collect (Inl e # rs) = Inl e"
| "collect (Inr x # rs) = (case collect rs of Inl e \<Rightarrow> Inl e | Inr xs \<Rightarrow> Inr (x # xs))"

lemma collect_map_Inr [simp]: "collect (map (\<lambda>x. Inr (f x)) xs) = Inr (map f xs)"
  by (induction xs) auto

section \<open>Words\<close>

lemma unat_of_nat_byte [simp]: "n < 256 \<Longrightarrow> unat (of_nat n :: byte) = n"
  by (simp add: unat_of_nat)

lemma unat_byte_less [simp]: "unat (b :: byte) < 256"
proof -
  have "unat b < 2 ^ LENGTH(8)" by (rule unsigned_less)
  then show ?thesis by simp
qed

lemma unat_u16_less [simp]: "unat (p :: u16) < 65536"
proof -
  have "unat p < 2 ^ LENGTH(16)" by (rule unsigned_less)
  then show ?thesis by simp
qed

lemma of_nat_unat_byte [simp]: "of_nat (unat b) = (b :: byte)"
  by simp

end
