(* ===== verification/Rust_String.thy ===== *)
theory Rust_String
  imports Prelude
begin

text \<open>
  What the program uses of Rust's standard \<open>str\<close>: a \<open>String\<close> is its UTF-8 encoding, one
  \<open>char\<close> of HOL per byte, so that \<open>len\<close>, slicing and \<open>as_bytes\<close> are byte-wise as in
  the source.  The theory defines UTF-8 validation with the replacement rule of
  \<open>from_utf8_lossy\<close>, \<open>split\<close>, \<open>lines\<close>, \<open>trim\<close>, \<open>split_whitespace\<close>, ASCII case, decimal
  output and \<open>parse::<u16>\<close>, with the round trips the protocol theories rest on.
\<close>

section \<open>Bytes and strings\<close>

definition byte_of_char :: "char \<Rightarrow> byte" where
  "byte_of_char c = of_nat (of_char c)"

definition char_of_byte :: "byte \<Rightarrow> char" where
  "char_of_byte b = char_of (unat b)"

lemma char_of_byte_of_char [simp]: "char_of_byte (byte_of_char c) = c"
  by (simp add: char_of_byte_def byte_of_char_def unat_of_nat)

lemma byte_of_char_of_byte [simp]: "byte_of_char (char_of_byte b) = b"
proof -
  have "unat b mod 256 = unat b" by simp
  then show ?thesis by (simp add: char_of_byte_def byte_of_char_def del: unat_byte_less)
qed

definition as_bytes :: "string \<Rightarrow> byte list" where
  "as_bytes s = map byte_of_char s"

definition str_of_bytes :: "byte list \<Rightarrow> string" where
  "str_of_bytes bs = map char_of_byte bs"

lemma length_as_bytes [simp]: "length (as_bytes s) = length s"
  by (simp add: as_bytes_def)

lemma length_str_of_bytes [simp]: "length (str_of_bytes bs) = length bs"
  by (simp add: str_of_bytes_def)

lemma as_bytes_Nil [simp]: "as_bytes [] = []"
  by (simp add: as_bytes_def)

lemma as_bytes_append [simp]: "as_bytes (s @ t) = as_bytes s @ as_bytes t"
  by (simp add: as_bytes_def)

lemma str_of_bytes_append [simp]: "str_of_bytes (s @ t) = str_of_bytes s @ str_of_bytes t"
  by (simp add: str_of_bytes_def)

lemma str_of_bytes_as_bytes [simp]: "str_of_bytes (as_bytes s) = s"
  by (simp add: str_of_bytes_def as_bytes_def comp_def)

lemma as_bytes_str_of_bytes [simp]: "as_bytes (str_of_bytes bs) = bs"
  by (simp add: str_of_bytes_def as_bytes_def comp_def)

lemma as_bytes_inject [simp]: "as_bytes s = as_bytes t \<longleftrightarrow> s = t"
  by (metis str_of_bytes_as_bytes)

lemma take_as_bytes: "take n (as_bytes s) = as_bytes (take n s)"
  by (simp add: as_bytes_def take_map)

section \<open>UTF-8\<close>

text \<open>
  One step of the scanner behind \<open>from_utf8\<close> and \<open>from_utf8_lossy\<close>: whether the bytes
  start with a well-formed scalar value, and how many bytes it, or the maximal
  ill-formed prefix that one replacement character stands for, takes.
\<close>

definition safe_get :: "byte list \<Rightarrow> nat \<Rightarrow> byte" where
  "safe_get bs i = (if i < length bs then bs ! i else 0)"

definition is_cont :: "byte \<Rightarrow> bool" where
  "is_cont b \<longleftrightarrow> 0x80 \<le> b \<and> b \<le> 0xBF"

definition second_ok3 :: "byte \<Rightarrow> byte \<Rightarrow> bool" where
  "second_ok3 b n =
     (if b = 0xE0 then 0xA0 \<le> n \<and> n \<le> 0xBF
      else if b = 0xED then 0x80 \<le> n \<and> n \<le> 0x9F
      else is_cont n)"

definition second_ok4 :: "byte \<Rightarrow> byte \<Rightarrow> bool" where
  "second_ok4 b n =
     (if b = 0xF0 then 0x90 \<le> n \<and> n \<le> 0xBF
      else if b = 0xF4 then 0x80 \<le> n \<and> n \<le> 0x8F
      else is_cont n)"

definition utf8_next :: "byte list \<Rightarrow> bool \<times> nat" where
  "utf8_next bs =
     (let b = safe_get bs 0; n1 = safe_get bs 1; n2 = safe_get bs 2; n3 = safe_get bs 3 in
      if b < 0x80 then (True, 1)
      else if 0xC2 \<le> b \<and> b \<le> 0xDF then
        (if is_cont n1 then (True, 2) else (False, 1))
      else if 0xE0 \<le> b \<and> b \<le> 0xEF then
        (if \<not> second_ok3 b n1 then (False, 1)
         else if \<not> is_cont n2 then (False, 2)
         else (True, 3))
      else if 0xF0 \<le> b \<and> b \<le> 0xF4 then
        (if \<not> second_ok4 b n1 then (False, 1)
         else if \<not> is_cont n2 then (False, 2)
         else if \<not> is_cont n3 then (False, 3)
         else (True, 4))
      else (False, 1))"

lemma utf8_next_pos [simp]: "0 < snd (utf8_next bs)"
  by (simp add: utf8_next_def Let_def)

text \<open>\<open>String::from_utf8\<close> and \<open>String::from_utf8_lossy\<close> (U+FFFD is \<open>EF BF BD\<close>).\<close>

definition replacement :: "byte list" where
  "replacement = [0xEF, 0xBF, 0xBD]"

function lossy_bytes :: "byte list \<Rightarrow> byte list" where
  "lossy_bytes bs =
     (if bs = [] then []
      else let r = utf8_next bs
           in (if fst r then take (snd r) bs else replacement) @ lossy_bytes (drop (snd r) bs))"
  by pat_completeness auto
termination
  by (relation "measure length") (auto simp: Let_def)

function utf8_valid :: "byte list \<Rightarrow> bool" where
  "utf8_valid bs =
     (if bs = [] then True
      else let r = utf8_next bs in fst r \<and> utf8_valid (drop (snd r) bs))"
  by pat_completeness auto
termination
  by (relation "measure length") (auto simp: Let_def)

declare lossy_bytes.simps [simp del] utf8_valid.simps [simp del]

definition from_utf8_lossy :: "byte list \<Rightarrow> string" where
  "from_utf8_lossy bs = str_of_bytes (lossy_bytes bs)"

definition from_utf8 :: "byte list \<Rightarrow> string option" where
  "from_utf8 bs = (if utf8_valid bs then Some (str_of_bytes bs) else None)"

lemma lossy_bytes_Nil [simp]: "lossy_bytes [] = []"
  by (simp add: lossy_bytes.simps)

lemma utf8_valid_Nil [simp]: "utf8_valid []"
  by (simp add: utf8_valid.simps)

lemma from_utf8_lossy_Nil [simp]: "from_utf8_lossy [] = []"
  by (simp add: from_utf8_lossy_def str_of_bytes_def)

lemma lossy_bytes_valid: "utf8_valid bs \<Longrightarrow> lossy_bytes bs = bs"
proof (induction bs rule: lossy_bytes.induct)
  case (1 bs)
  show ?case
  proof (cases "bs = []")
    case False
    with "1.prems" have v: "fst (utf8_next bs)" "utf8_valid (drop (snd (utf8_next bs)) bs)"
      by (simp_all add: utf8_valid.simps [of bs] Let_def)
    from "1.IH" [OF False refl v(2)]
    have "lossy_bytes (drop (snd (utf8_next bs)) bs) = drop (snd (utf8_next bs)) bs" .
    with False v(1) show ?thesis by (simp add: lossy_bytes.simps [of bs] Let_def)
  qed simp
qed

text \<open>A Rust string is always valid UTF-8; every ASCII text is.\<close>

abbreviation valid_str :: "string \<Rightarrow> bool" where
  "valid_str s \<equiv> utf8_valid (as_bytes s)"

definition ascii_bytes :: "byte list \<Rightarrow> bool" where
  "ascii_bytes bs \<longleftrightarrow> (\<forall>b \<in> set bs. b < 0x80)"

lemma utf8_valid_Cons_ascii: "b < 0x80 \<Longrightarrow> utf8_valid (b # bs) = utf8_valid bs"
  by (subst utf8_valid.simps) (simp add: utf8_next_def safe_get_def Let_def)

lemma utf8_valid_ascii: "ascii_bytes bs \<Longrightarrow> utf8_valid bs"
  by (induction bs) (simp_all add: ascii_bytes_def utf8_valid_Cons_ascii)

lemma from_utf8_lossy_as_bytes: "valid_str s \<Longrightarrow> from_utf8_lossy (as_bytes s) = s"
  by (simp add: from_utf8_lossy_def lossy_bytes_valid)

section \<open>Splitting and joining\<close>

text \<open>\<open>str::split\<close> with a character predicate: always at least one piece.\<close>

fun split_by :: "('a \<Rightarrow> bool) \<Rightarrow> 'a list \<Rightarrow> 'a list list" where
  "split_by p [] = [[]]"
| "split_by p (c # cs) =
     (if p c then [] # split_by p cs
      else (case split_by p cs of [] \<Rightarrow> [[c]] | q # qs \<Rightarrow> (c # q) # qs))"

definition split_char :: "char \<Rightarrow> string \<Rightarrow> string list" where
  "split_char c s = split_by (\<lambda>x. x = c) s"

fun join :: "string \<Rightarrow> string list \<Rightarrow> string" where
  "join sep [] = []"
| "join sep [x] = x"
| "join sep (x # y # ys) = x @ sep @ join sep (y # ys)"

lemma split_by_not_Nil [simp]: "split_by p xs \<noteq> []"
  by (cases xs) (auto split: list.splits)

lemma split_char_not_Nil [simp]: "split_char c s \<noteq> []"
  by (simp add: split_char_def)

lemma split_by_no_sep: "\<forall>x \<in> set xs. \<not> p x \<Longrightarrow> split_by p xs = [xs]"
  by (induction xs) auto

lemma split_by_append_sep:
  "\<forall>x \<in> set xs. \<not> p x \<Longrightarrow> p c \<Longrightarrow> split_by p (xs @ c # ys) = xs # split_by p ys"
  by (induction xs) auto

lemma split_char_no_sep: "c \<notin> set s \<Longrightarrow> split_char c s = [s]"
  by (auto simp: split_char_def intro: split_by_no_sep)

lemma split_char_sep: "c \<notin> set s \<Longrightarrow> split_char c (s @ c # t) = s # split_char c t"
  unfolding split_char_def by (rule split_by_append_sep) auto

text \<open>The two directions in which \<open>split\<close> and \<open>join\<close> undo each other.\<close>

lemma join_Cons: "ys \<noteq> [] \<Longrightarrow> join sep (x # ys) = x @ sep @ join sep ys"
  by (cases ys) auto

lemma join_split: "join [c] (split_char c s) = s"
proof (induction s)
  case Nil
  show ?case by (simp add: split_char_def)
next
  case (Cons x s)
  obtain q qs where q: "split_char c s = q # qs" by (cases "split_char c s") auto
  show ?case
  proof (cases "x = c")
    case True
    then have "split_char c (x # s) = [] # split_char c s" by (simp add: split_char_def)
    then show ?thesis using Cons True by (simp add: join_Cons)
  next
    case False
    then have "split_char c (x # s) = (x # q) # qs" using q by (simp add: split_char_def)
    then show ?thesis using Cons q by (cases qs) auto
  qed
qed

lemma split_join:
  "ps \<noteq> [] \<Longrightarrow> \<forall>p \<in> set ps. c \<notin> set p \<Longrightarrow> split_char c (join [c] ps) = ps"
proof (induction ps)
  case (Cons p ps)
  show ?case
  proof (cases ps)
    case Nil
    with Cons.prems show ?thesis by (simp add: split_char_no_sep)
  next
    case (Cons q qs)
    with Cons.IH Cons.prems show ?thesis by (simp add: split_char_sep)
  qed
qed simp

lemma split_char_parts: "p \<in> set (split_char c s) \<Longrightarrow> c \<notin> set p"
proof (induction s arbitrary: p)
  case Nil
  then show ?case by (simp add: split_char_def)
next
  case (Cons x s)
  then show ?case by (auto simp: split_char_def split: if_splits list.splits)
qed

text \<open>\<open>str::rsplit_once\<close> (and the two-piece \<open>rsplitn\<close>): at the last occurrence.\<close>

definition rsplit_once :: "char \<Rightarrow> string \<Rightarrow> (string \<times> string) option" where
  "rsplit_once c s =
     (case rev (split_char c s) of
        [] \<Rightarrow> None
      | [_] \<Rightarrow> None
      | l # ps \<Rightarrow> Some (join [c] (rev ps), l))"

lemma rsplit_once_None [simp]: "c \<notin> set s \<Longrightarrow> rsplit_once c s = None"
  by (simp add: rsplit_once_def split_char_no_sep)

lemma join_parts: "p \<in> set ps \<Longrightarrow> set p \<subseteq> set (join sep ps)"
proof (induction ps)
  case (Cons q ps)
  then show ?case by (cases "ps = []") (auto simp: join_Cons)
qed simp

lemma split_char_subset: "p \<in> set (split_char c s) \<Longrightarrow> set p \<subseteq> set s"
  using join_parts [of p "split_char c s" "[c]"] by (simp add: join_split)

lemma split_char_append_last:
  "c \<notin> set t \<Longrightarrow> split_char c (s @ c # t) = split_char c s @ [t]"
proof (induction s)
  case Nil
  then have "split_by (\<lambda>x. x = c) t = [t]" by (intro split_by_no_sep) auto
  then show ?case by (simp add: split_char_def)
next
  case (Cons x s)
  obtain q qs where q: "split_by (\<lambda>x. x = c) s = q # qs"
    by (cases "split_by (\<lambda>x. x = c) s") auto
  with Cons show ?case by (auto simp: split_char_def)
qed

lemma rsplit_once_last: "c \<notin> set t \<Longrightarrow> rsplit_once c (s @ c # t) = Some (s, t)"
proof -
  assume t: "c \<notin> set t"
  obtain q qs where q: "rev (split_char c s) = q # qs"
    by (cases "rev (split_char c s)") auto
  then have "join [c] (rev qs @ [q]) = s"
    using join_split [of c s] by (metis rev.simps(2) rev_rev_ident)
  with t q show ?thesis
    by (simp add: rsplit_once_def split_char_append_last)
qed

text \<open>\<open>splitn(3, c)\<close>, as the three-piece pattern the request line is taken apart with.\<close>

definition split_once :: "char \<Rightarrow> string \<Rightarrow> (string \<times> string) option" where
  "split_once c s =
     (case split_char c s of
        [] \<Rightarrow> None
      | [_] \<Rightarrow> None
      | p # ps \<Rightarrow> Some (p, join [c] ps))"

lemma split_once_sep: "c \<notin> set s \<Longrightarrow> split_once c (s @ c # t) = Some (s, t)"
proof -
  assume "c \<notin> set s"
  then have sp: "split_char c (s @ c # t) = s # split_char c t" by (rule split_char_sep)
  obtain q qs where "split_char c t = q # qs" by (cases "split_char c t") auto
  then show ?thesis using sp join_split [of c t] by (simp add: split_once_def)
qed

lemma split_once_None [simp]: "c \<notin> set s \<Longrightarrow> split_once c s = None"
  by (simp add: split_once_def split_char_no_sep)

definition split3 :: "char \<Rightarrow> string \<Rightarrow> (string \<times> string \<times> string) option" where
  "split3 c s =
     (case split_once c s of
        None \<Rightarrow> None
      | Some (a, r) \<Rightarrow> (case split_once c r of None \<Rightarrow> None | Some (b, d) \<Rightarrow> Some (a, b, d)))"

section \<open>Lines\<close>

text \<open>
  \<open>str::lines\<close>: pieces end at a line feed, a carriage return right before it is dropped,
  and a final piece without a line feed counts only when it is not empty (its own
  carriage return stays).
\<close>

abbreviation LF :: char where "LF \<equiv> CHR 0x0A"
abbreviation CR :: char where "CR \<equiv> CHR 0x0D"
abbreviation CRLF :: string where "CRLF \<equiv> [CR, LF]"

definition strip_cr :: "string \<Rightarrow> string" where
  "strip_cr s = (if s \<noteq> [] \<and> last s = CR then butlast s else s)"

definition lines :: "string \<Rightarrow> string list" where
  "lines s =
     (let ps = split_char LF s
      in map strip_cr (butlast ps) @ (if last ps = [] then [] else [last ps]))"

lemma lines_Nil [simp]: "lines [] = []"
  by (simp add: lines_def split_char_def)

lemma lines_eq_Nil [simp]: "lines s = [] \<longleftrightarrow> s = []"
proof
  assume "lines s = []"
  then have e: "butlast (split_char LF s) = []" "last (split_char LF s) = []"
    by (auto simp: lines_def Let_def split: if_splits)
  obtain q qs where q: "split_char LF s = q # qs" by (cases "split_char LF s") auto
  with e have "split_char LF s = [[]]" by (auto split: if_splits)
  then show "s = []" using join_split [of LF s] by simp
qed simp

lemma lines_Cons_CRLF: "LF \<notin> set l \<Longrightarrow> lines (l @ CRLF @ r) = l # lines r"
proof -
  assume "LF \<notin> set l"
  then have "LF \<notin> set (l @ [CR])" by simp
  from split_char_sep [OF this, of r]
  have sp: "split_char LF (l @ CRLF @ r) = (l @ [CR]) # split_char LF r" by simp
  then show ?thesis by (simp add: lines_def Let_def strip_cr_def)
qed

text \<open>A block of lines, each ended by CRLF: how requests are written on the wire.\<close>

definition crlf_lines :: "string list \<Rightarrow> string" where
  "crlf_lines ls = concat (map (\<lambda>l. l @ CRLF) ls)"

lemma crlf_lines_simps [simp]:
  "crlf_lines [] = []"
  "crlf_lines (l # ls) = l @ CRLF @ crlf_lines ls"
  "crlf_lines (ls @ ms) = crlf_lines ls @ crlf_lines ms"
  by (simp_all add: crlf_lines_def)

section \<open>Prefixes, substrings, case\<close>

definition starts_with :: "string \<Rightarrow> string \<Rightarrow> bool" where
  "starts_with p s \<longleftrightarrow> take (length p) s = p"

definition strip_prefix :: "string \<Rightarrow> string \<Rightarrow> string option" where
  "strip_prefix p s = (if starts_with p s then Some (drop (length p) s) else None)"

fun contains :: "string \<Rightarrow> string \<Rightarrow> bool" where
  "contains p [] \<longleftrightarrow> p = []"
| "contains p (c # s) \<longleftrightarrow> starts_with p (c # s) \<or> contains p s"

lemma starts_with_append [simp]: "starts_with p (p @ s)"
  by (simp add: starts_with_def)

lemma strip_prefix_append [simp]: "strip_prefix p (p @ s) = Some s"
  by (simp add: strip_prefix_def)

definition to_ascii_lower :: "char \<Rightarrow> char" where
  "to_ascii_lower c =
     (let n = of_char c :: nat in if 65 \<le> n \<and> n \<le> 90 then char_of (n + 32) else c)"

definition to_ascii_lowercase :: "string \<Rightarrow> string" where
  "to_ascii_lowercase s = map to_ascii_lower s"

definition eq_ignore_ascii_case :: "string \<Rightarrow> string \<Rightarrow> bool" where
  "eq_ignore_ascii_case a b \<longleftrightarrow> to_ascii_lowercase a = to_ascii_lowercase b"

text \<open>
  \<open>l.to_lowercase().starts_with(p)\<close> for the two lower-case ASCII prefixes of the source,
  \<open>host: \<close> and \<open>proxy-authorization: basic \<close>.  The only characters beyond ASCII whose
  lower case begins with an ASCII letter are U+212A (\<open>k\<close>) and U+0130 (\<open>i\<close> and a
  combining dot); neither can take part in a match of these prefixes, so the test is the
  ASCII one and a match covers \<open>length p\<close> bytes of the original line.
\<close>

definition lower_starts_with :: "string \<Rightarrow> string \<Rightarrow> bool" where
  "lower_starts_with p l \<longleftrightarrow> starts_with p (to_ascii_lowercase l)"

lemma eq_ignore_ascii_case_refl [simp]: "eq_ignore_ascii_case s s"
  by (simp add: eq_ignore_ascii_case_def)

section \<open>White space\<close>

text \<open>
  The scalar values of a string, each as its UTF-8 bytes, and the characters with the
  Unicode property \<open>White_Space\<close> that \<open>trim\<close> and \<open>split_whitespace\<close> act on.
\<close>

function chars_of :: "string \<Rightarrow> string list" where
  "chars_of s =
     (if s = [] then []
      else let n = snd (utf8_next (as_bytes (take 4 s))) in take n s # chars_of (drop n s))"
  by pat_completeness auto
termination
  by (relation "measure length") (auto simp: Let_def)

declare chars_of.simps [simp del]

definition whitespace_chars :: "nat list list" where
  "whitespace_chars =
     [[9], [10], [11], [12], [13], [32], [194, 133], [194, 160], [225, 154, 128]]
     @ map (\<lambda>k. [226, 128, k]) [128..<139]
     @ [[226, 128, 168], [226, 128, 169], [226, 128, 175], [226, 129, 159], [227, 128, 128]]"

definition is_whitespace :: "string \<Rightarrow> bool" where
  "is_whitespace c \<longleftrightarrow> map of_char c \<in> set whitespace_chars"

definition trim :: "string \<Rightarrow> string" where
  "trim s = concat (rev (dropWhile is_whitespace (rev (dropWhile is_whitespace (chars_of s)))))"

definition split_whitespace :: "string \<Rightarrow> string list" where
  "split_whitespace s = filter (\<lambda>p. p \<noteq> []) (map concat (split_by is_whitespace (chars_of s)))"

text \<open>On ASCII text without white space both are the identity.\<close>

definition ascii_char :: "char \<Rightarrow> bool" where
  "ascii_char c \<longleftrightarrow> (of_char c :: nat) < 128"

definition graphic :: "string \<Rightarrow> bool" where
  "graphic s \<longleftrightarrow> (\<forall>c \<in> set s. ascii_char c \<and> 32 < (of_char c :: nat))"

lemma byte_of_char_ascii: "ascii_char c \<Longrightarrow> byte_of_char c < 0x80"
proof -
  assume "ascii_char c"
  then have "(of_char c :: nat) < 128" by (simp add: ascii_char_def)
  then have "unat (byte_of_char c) < 128" by (simp add: byte_of_char_def)
  then show ?thesis by (simp add: word_less_nat_alt)
qed

lemma ascii_as_bytes: "\<forall>c \<in> set s. ascii_char c \<Longrightarrow> ascii_bytes (as_bytes s)"
  by (auto simp: ascii_bytes_def as_bytes_def byte_of_char_ascii)

lemma chars_of_Nil [simp]: "chars_of [] = []"
  by (simp add: chars_of.simps)

lemma chars_of_Cons_ascii: "ascii_char c \<Longrightarrow> chars_of (c # s) = [c] # chars_of s"
proof -
  assume "ascii_char c"
  then have "byte_of_char c < 0x80" by (rule byte_of_char_ascii)
  then have "utf8_next (as_bytes (take 4 (c # s))) = (True, 1)"
    by (simp add: utf8_next_def safe_get_def as_bytes_def Let_def)
  then show ?thesis by (subst chars_of.simps) simp
qed

lemma chars_of_ascii: "\<forall>c \<in> set s. ascii_char c \<Longrightarrow> chars_of s = map (\<lambda>c. [c]) s"
  by (induction s) (simp_all add: chars_of_Cons_ascii)

lemma not_whitespace_graphic: "ascii_char c \<Longrightarrow> 32 < (of_char c :: nat) \<Longrightarrow> \<not> is_whitespace [c]"
  by (auto simp: is_whitespace_def whitespace_chars_def)

lemma concat_singletons [simp]: "concat (map (\<lambda>c. [c]) s) = s"
  by (induction s) auto

lemma chars_of_graphic: "graphic s \<Longrightarrow> chars_of s = map (\<lambda>c. [c]) s"
  by (rule chars_of_ascii) (simp add: graphic_def)

lemma graphic_not_ws: "graphic s \<Longrightarrow> \<forall>x \<in> set (map (\<lambda>c. [c]) s). \<not> is_whitespace x"
  by (auto simp: graphic_def not_whitespace_graphic)

lemma dropWhile_none: "\<forall>x \<in> set xs. \<not> P x \<Longrightarrow> dropWhile P xs = xs"
  by (cases xs) auto

lemma trim_graphic: "graphic s \<Longrightarrow> trim s = s"
  using graphic_not_ws [of s]
  by (simp add: trim_def chars_of_graphic dropWhile_none)

lemma is_whitespace_space: "is_whitespace '' ''"
  by (simp add: is_whitespace_def whitespace_chars_def)

lemma ascii_char_space [simp]: "ascii_char CHR '' ''"
  by (simp add: ascii_char_def)

lemma chars_of_append_ascii:
  "\<forall>c \<in> set s. ascii_char c \<Longrightarrow> chars_of (s @ t) = map (\<lambda>c. [c]) s @ chars_of t"
  by (induction s) (simp_all add: chars_of_Cons_ascii)

lemma split_whitespace_word:
  "graphic s \<Longrightarrow> s \<noteq> [] \<Longrightarrow>
    split_whitespace (s @ CHR '' '' # t) = s # split_whitespace t"
proof -
  assume g: "graphic s" and ne: "s \<noteq> []"
  then have "chars_of (s @ CHR '' '' # t) = map (\<lambda>c. [c]) s @ '' '' # chars_of t"
    by (subst chars_of_append_ascii) (auto simp: graphic_def chars_of_Cons_ascii)
  moreover have "split_by is_whitespace (map (\<lambda>c. [c]) s @ '' '' # chars_of t)
      = map (\<lambda>c. [c]) s # split_by is_whitespace (chars_of t)"
    by (rule split_by_append_sep) (use graphic_not_ws [OF g] is_whitespace_space in auto)
  ultimately show ?thesis using ne by (simp add: split_whitespace_def)
qed

section \<open>Numbers as text\<close>

definition digit_char :: "nat \<Rightarrow> char" where
  "digit_char n = char_of (48 + n)"

fun dec :: "nat \<Rightarrow> string" where
  "dec n = (if n < 10 then [digit_char n] else dec (n div 10) @ [digit_char (n mod 10)])"

declare dec.simps [simp del]

definition dec_int :: "int \<Rightarrow> string" where
  "dec_int i = (if i < 0 then CHR ''-'' # dec (nat (- i)) else dec (nat i))"

definition hex_digit :: "nat \<Rightarrow> char" where
  "hex_digit n = (if n < 10 then char_of (48 + n) else char_of (87 + n))"

fun hex :: "nat \<Rightarrow> string" where
  "hex n = (if n < 16 then [hex_digit n] else hex (n div 16) @ [hex_digit (n mod 16)])"

declare hex.simps [simp del]

definition is_digit :: "char \<Rightarrow> bool" where
  "is_digit c \<longleftrightarrow> 48 \<le> (of_char c :: nat) \<and> (of_char c :: nat) \<le> 57"

definition digits_val :: "string \<Rightarrow> nat" where
  "digits_val s = foldl (\<lambda>n c. 10 * n + (of_char c - 48)) 0 s"

text \<open>\<open>str::parse::<u16>\<close>: an optional plus sign, one digit or more, at most 65535.\<close>

definition parse_u16 :: "string \<Rightarrow> u16 option" where
  "parse_u16 s =
     (let ds = (case s of [] \<Rightarrow> [] | c # r \<Rightarrow> if c = CHR ''+'' then r else s) in
      if ds = [] \<or> \<not> list_all is_digit ds then None
      else if digits_val ds < 65536 then Some (of_nat (digits_val ds)) else None)"

lemma of_char_digit [simp]: "n < 10 \<Longrightarrow> (of_char (digit_char n) :: nat) = 48 + n"
  by (simp add: digit_char_def)

lemma is_digit_digit [simp]: "n < 10 \<Longrightarrow> is_digit (digit_char n)"
  by (simp add: is_digit_def)

lemma dec_not_Nil [simp]: "dec n \<noteq> []"
  by (subst dec.simps) simp

lemma dec_digits: "list_all is_digit (dec n)"
proof (induction n rule: dec.induct)
  case (1 n)
  then show ?case by (subst dec.simps) simp
qed

lemma digits_val_dec: "digits_val (dec n) = n"
proof (induction n rule: dec.induct)
  case (1 n)
  then show ?case by (subst dec.simps) (simp add: digits_val_def)
qed

lemma is_digit_plus [simp]: "\<not> is_digit CHR ''+''"
  by (simp add: is_digit_def)

lemma parse_u16_dec: "parse_u16 (dec (unat p)) = Some p"
proof -
  obtain c r where c: "dec (unat p) = c # r" by (cases "dec (unat p)") auto
  then have "is_digit c" using dec_digits [of "unat p"] by simp
  then have "c \<noteq> CHR ''+''" by auto
  with c show ?thesis
    using dec_digits [of "unat p"] digits_val_dec [of "unat p"]
    by (simp add: parse_u16_def Let_def)
qed

lemma is_digit_bounds: "is_digit c \<Longrightarrow> ascii_char c \<and> 32 < (of_char c :: nat)"
  by (simp add: is_digit_def ascii_char_def)

lemma graphic_dec [simp]: "graphic (dec n)"
  using dec_digits [of n] by (auto simp: graphic_def list_all_iff dest: is_digit_bounds)

lemma digit_not_in_dec: "\<not> is_digit c \<Longrightarrow> c \<notin> set (dec n)"
  using dec_digits [of n] by (auto simp: list_all_iff)

lemma colon_not_in_dec [simp]: "CHR '':'' \<notin> set (dec n)"
  by (rule digit_not_in_dec) (simp add: is_digit_def)

text \<open>\<open>u16::to_be_bytes\<close> and \<open>u16::from_be_bytes\<close>.\<close>

definition to_be_bytes :: "u16 \<Rightarrow> byte list" where
  "to_be_bytes p = [ucast (drop_bit 8 p), ucast p]"

definition from_be_bytes :: "byte \<Rightarrow> byte \<Rightarrow> u16" where
  "from_be_bytes a b = push_bit 8 (ucast a) OR ucast b"

lemma length_to_be_bytes [simp]: "length (to_be_bytes p) = 2"
  by (simp add: to_be_bytes_def)

lemma from_be_bytes_to_be_bytes:
  "from_be_bytes (to_be_bytes p ! 0) (to_be_bytes p ! 1) = p"
  by (rule bit_word_eqI)
    (auto simp: from_be_bytes_def to_be_bytes_def bit_or_iff bit_push_bit_iff bit_ucast_iff
       bit_drop_bit_eq not_less)

end
