(* ===== verification/Float64.thy ===== *)
theory Float64
  imports Rust_String
begin

text \<open>
  The part of IEEE 754 binary64 the program uses, executable on integers: conversion from
  \<open>i64\<close>, multiplication with round-to-nearest-even, division by 1024, \<open>f64::round\<close>
  (half away from zero), comparison, \<open>min\<close>, the saturating cast \<open>as i64\<close> and the
  \<open>{:.2}\<close> format.  A finite value is \<open>Finite m e\<close>, standing for \<open>m * 2 ^ e\<close>; several
  pairs may stand for one value, and every operation depends on the value only.  The sign
  of zero is not kept (no operation of the program observes it).
\<close>

datatype f64 = NaN | Infinite bool | Finite int int

function bit_len :: "int \<Rightarrow> nat" where
  "bit_len n = (if n \<le> 0 then 0 else Suc (bit_len (n div 2)))"
  by pat_completeness auto
termination
  by (relation "measure nat") auto

declare bit_len.simps [simp del]

text \<open>\<open>m / 2 ^ k\<close> to the nearest integer, ties to even.\<close>

definition rne :: "int \<Rightarrow> nat \<Rightarrow> int" where
  "rne m k =
     (let d = 2 ^ k; q = m div d; r = m mod d in
      if d < 2 * r \<or> (2 * r = d \<and> odd q) then q + 1 else q)"

definition finite_or_inf :: "int \<Rightarrow> int \<Rightarrow> f64" where
  "finite_or_inf m e =
     (if m = 0 then Finite 0 0
      else if 1024 < int (bit_len \<bar>m\<bar>) + e then Infinite (m < 0) else Finite m e)"

text \<open>The binary64 value nearest to \<open>m * 2 ^ e\<close>: 53 significant bits, exponent from -1074.\<close>

definition f64_nearest :: "int \<Rightarrow> int \<Rightarrow> f64" where
  "f64_nearest m e =
     (let a = \<bar>m\<bar>; k = max (int (bit_len a) - 53) (- 1074 - e) in
      if k \<le> 0 then finite_or_inf m e
      else finite_or_inf (sgn m * rne a (nat k)) (e + k))"

definition f64_of_int :: "int \<Rightarrow> f64" where
  "f64_of_int n = f64_nearest n 0"

fun f64_mul :: "f64 \<Rightarrow> f64 \<Rightarrow> f64" where
  "f64_mul NaN _ = NaN"
| "f64_mul _ NaN = NaN"
| "f64_mul (Infinite s) (Infinite t) = Infinite (s \<noteq> t)"
| "f64_mul (Infinite s) (Finite m e) = (if m = 0 then NaN else Infinite (s \<noteq> (m < 0)))"
| "f64_mul (Finite m e) (Infinite s) = (if m = 0 then NaN else Infinite (s \<noteq> (m < 0)))"
| "f64_mul (Finite m e) (Finite n f) = f64_nearest (m * n) (e + f)"

fun f64_div_1024 :: "f64 \<Rightarrow> f64" where
  "f64_div_1024 (Finite m e) = f64_nearest m (e - 10)"
| "f64_div_1024 x = x"

fun f64_round :: "f64 \<Rightarrow> f64" where
  "f64_round (Finite m e) =
     (if 0 \<le> e then Finite m e
      else let a = \<bar>m\<bar>; d = 2 ^ nat (- e)
           in Finite (sgn m * ((2 * a + d) div (2 * d))) 0)"
| "f64_round x = x"

fun f64_is_finite :: "f64 \<Rightarrow> bool" where
  "f64_is_finite (Finite _ _) = True"
| "f64_is_finite _ = False"

text \<open>\<open>m * 2 ^ e < n * 2 ^ f\<close>, compared at the smaller exponent.\<close>

fun f64_less :: "f64 \<Rightarrow> f64 \<Rightarrow> bool" where
  "f64_less NaN _ = False"
| "f64_less _ NaN = False"
| "f64_less (Infinite s) (Infinite t) = (s \<and> \<not> t)"
| "f64_less (Infinite s) (Finite _ _) = s"
| "f64_less (Finite _ _) (Infinite t) = (\<not> t)"
| "f64_less (Finite m e) (Finite n f) =
     (let b = min e f in m * 2 ^ nat (e - b) < n * 2 ^ nat (f - b))"

definition f64_min :: "f64 \<Rightarrow> f64 \<Rightarrow> f64" where
  "f64_min x y = (if x = NaN then y else if y = NaN then x else if f64_less y x then y else x)"

fun f64_to_i64 :: "f64 \<Rightarrow> i64" where
  "f64_to_i64 NaN = 0"
| "f64_to_i64 (Infinite s) = (if s then i64_min else i64_max)"
| "f64_to_i64 (Finite m e) =
     sat_i64 (if 0 \<le> e then m * 2 ^ nat e else sgn m * (\<bar>m\<bar> div 2 ^ nat (- e)))"

text \<open>The literals 0.0, 1.0 and 1024.0.\<close>

definition f64_zero :: f64 where "f64_zero = Finite 0 0"
definition f64_one :: f64 where "f64_one = Finite 1 0"
definition f64_1024 :: f64 where "f64_1024 = Finite 1 10"

text \<open>\<open>{:.2}\<close>: the exact value to two decimals, ties to even.\<close>

definition two_digits :: "nat \<Rightarrow> string" where
  "two_digits n = [digit_char (n div 10), digit_char (n mod 10)]"

fun f64_fmt2 :: "f64 \<Rightarrow> string" where
  "f64_fmt2 NaN = ''NaN''"
| "f64_fmt2 (Infinite s) = (if s then ''-inf'' else ''inf'')"
| "f64_fmt2 (Finite m e) =
     (let a = \<bar>m\<bar> * 100;
          h = nat (if 0 \<le> e then a * 2 ^ nat e else rne a (nat (- e)))
      in (if m < 0 then ''-'' else []) @ dec (h div 100) @ ''.'' @ two_digits (h mod 100))"

section \<open>Small integers are exact\<close>

lemma bit_len_0 [simp]: "bit_len 0 = 0"
  by (simp add: bit_len.simps)

lemma bit_len_le: "n < 2 ^ k \<Longrightarrow> bit_len n \<le> k"
proof (induction k arbitrary: n)
  case 0
  then show ?case by (simp add: bit_len.simps)
next
  case (Suc k)
  show ?case
  proof (cases "n \<le> 0")
    case False
    from Suc.prems have "n div 2 < 2 ^ k" by simp
    then have "bit_len (n div 2) \<le> k" by (rule Suc.IH)
    with False show ?thesis by (simp add: bit_len.simps [of n])
  qed (simp add: bit_len.simps)
qed

lemma f64_nearest_exact:
  assumes "\<bar>m\<bar> < 2 ^ 53" and "m \<noteq> 0" and "- 1074 \<le> e" and "e \<le> 971"
  shows "f64_nearest m e = Finite m e"
proof -
  have "bit_len \<bar>m\<bar> \<le> 53" using assms(1) by (rule bit_len_le)
  with assms show ?thesis by (simp add: f64_nearest_def finite_or_inf_def Let_def)
qed

lemma f64_nearest_0 [simp]: "f64_nearest 0 e = Finite 0 0"
  by (simp add: f64_nearest_def finite_or_inf_def Let_def)

lemma f64_of_int_exact: "\<bar>n\<bar> < 2 ^ 53 \<Longrightarrow> f64_of_int n = Finite n 0"
  by (cases "n = 0") (simp_all add: f64_of_int_def f64_nearest_exact)

lemma f64_mul_one: "\<bar>n\<bar> < 2 ^ 53 \<Longrightarrow> f64_mul (f64_of_int n) f64_one = Finite n 0"
  by (cases "n = 0") (simp_all add: f64_of_int_exact f64_one_def f64_nearest_exact)

lemma f64_to_i64_in [simp]: "in_i64 (f64_to_i64 x)"
  by (cases x) (simp_all add: in_i64_def [of i64_min] in_i64_def [of i64_max] in_i64_def [of 0])

lemma f64_to_i64_nonneg: "f64_less f64_zero x \<Longrightarrow> 0 \<le> f64_to_i64 x"
proof (cases x)
  case (Finite m e)
  assume "f64_less f64_zero x"
  with Finite have "0 < m * 2 ^ nat (e - min 0 e)" by (simp add: f64_zero_def Let_def)
  then have "0 < m" by (simp add: zero_less_mult_iff)
  then have "0 \<le> m * 2 ^ nat e" and "0 \<le> sgn m * (\<bar>m\<bar> div 2 ^ nat (- e))"
    by (simp_all add: div_int_pos_iff)
  with Finite show ?thesis by (auto simp: sat_i64_def)
qed (simp_all add: f64_zero_def)

end
