(* ===== verification/Config.thy ===== *)
theory Config
  imports Float64
begin

text \<open>
  The configuration types of \<open>src/config.rs\<close> and the protocol enum of
  \<open>src/protocol.rs\<close>.  The TOML parser, the file system and the base64 engine are not
  part of the repository: they are arguments of the functions that call them.
\<close>

section \<open>Protocols\<close>

datatype protocol = Http | Https | Socks4 | Socks5

fun protocol_as_str :: "protocol \<Rightarrow> string" where
  "protocol_as_str Http = ''http''"
| "protocol_as_str Https = ''https''"
| "protocol_as_str Socks4 = ''socks4''"
| "protocol_as_str Socks5 = ''socks5''"

text \<open>\<open>fmt::Display\<close> writes \<open>as_str\<close>; \<open>fmt::Debug\<close> (derived) writes the variant's name.\<close>

definition protocol_display :: "protocol \<Rightarrow> string" where
  "protocol_display p = protocol_as_str p"

fun protocol_debug :: "protocol \<Rightarrow> string" where
  "protocol_debug Http = ''Http''"
| "protocol_debug Https = ''Https''"
| "protocol_debug Socks4 = ''Socks4''"
| "protocol_debug Socks5 = ''Socks5''"

section \<open>Configuration records\<close>

datatype chain_mode = Strict | Random

definition chain_mode_default :: chain_mode where
  "chain_mode_default = Strict"

record tags =
  tag_country :: "string option"
  tag_state :: "string option"
  tag_city :: "string option"
  tag_isp :: "string option"
  tag_kind :: "string option"

definition tags_default :: tags where
  "tags_default = \<lparr>tag_country = None, tag_state = None, tag_city = None,
     tag_isp = None, tag_kind = None\<rparr>"

record proxy_config =
  px_label :: "string option"
  px_type :: protocol
  px_address :: string
  px_port :: "u16 option"
  px_username :: "string option"
  px_password :: "string option"
  px_tags :: tags
  px_cost_per_byte :: f64
  px_username_prefixes :: "(string \<rightharpoonup> string) option"

definition default_cost_per_byte :: f64 where
  "default_cost_per_byte = f64_one"

record chain_config =
  ch_id :: string
  ch_proxies :: "string list"
  ch_mode :: chain_mode
  ch_count :: "nat option"

record router_config =
  rc_listen :: string
  rc_chain :: "string option"
  rc_log :: "bool option"
  rc_verbose :: "bool option"
  rc_debug :: "bool option"
  rc_auth :: "bool option"
  rc_metrics_listen :: "string option"
  rc_upstream_refresh_secs :: "nat option"

record user_config =
  uc_username :: string
  uc_password :: string
  uc_bandwidth_limit :: "i64 option"
  uc_allowed_ips :: "string list"
  uc_default_selection :: "string option"

record database_config =
  db_host :: string
  db_port :: u16
  db_user :: "string option"
  db_password :: "string option"
  db_name :: string

record config =
  cf_router :: router_config
  cf_proxy :: "proxy_config list"
  cf_chain :: "chain_config list option"
  cf_database :: "database_config option"
  cf_user :: "user_config list"

section \<open>Operations\<close>

text \<open>\<open>ProxyConfig::get_upstream_addr\<close>.\<close>

definition get_upstream_addr :: "proxy_config \<Rightarrow> string" where
  "get_upstream_addr p =
     (case px_port p of
        Some port \<Rightarrow> px_address p @ '':'' @ dec (unat port)
      | None \<Rightarrow> px_address p)"

text \<open>\<open>Config::load\<close>, over the file system and the TOML parser.\<close>

datatype config_error = Config_Io string | Config_Parse string

definition config_load ::
  "(string \<Rightarrow> string + string) \<Rightarrow> (string \<Rightarrow> string + config) \<Rightarrow> string \<Rightarrow> config_error + config"
where
  "config_load read_to_string toml_from_str path =
     (case read_to_string path of
        Inl e \<Rightarrow> Inl (Config_Io e)
      | Inr text \<Rightarrow>
          (case toml_from_str text of
             Inl e \<Rightarrow> Inl (Config_Parse e)
           | Inr c \<Rightarrow> Inr c))"

text \<open>
  \<open>encode_auth\<close>, over the base64 engine's \<open>encode\<close>.  The engine's two directions are
  carried together; \<open>base64_ok\<close> is its documented contract.
\<close>

record base64 =
  b64_encode :: "byte list \<Rightarrow> string"
  b64_decode :: "string \<Rightarrow> byte list option"

definition base64_ok :: "base64 \<Rightarrow> bool" where
  "base64_ok b \<longleftrightarrow> (\<forall>bs. b64_decode b (b64_encode b bs) = Some bs
     \<and> graphic (b64_encode b bs))"

definition encode_auth :: "base64 \<Rightarrow> string \<Rightarrow> string \<Rightarrow> string" where
  "encode_auth b username password = b64_encode b (as_bytes (username @ '':'' @ password))"

lemma protocol_as_str_inj [simp]: "protocol_as_str p = protocol_as_str q \<longleftrightarrow> p = q"
  by (cases p; cases q) simp_all

end
