(* ===== verification/Auth_Backend.thy ===== *)
theory Auth_Backend
  imports Config
begin

text \<open>
  \<open>src/auth.rs\<close>: accounts, the \<open>AuthBackend\<close> trait as a locale, the in-memory
  \<open>StaticAuthBackend\<close> and the SQL of \<open>PostgresAuthBackend\<close> over a record of tables.
  Arithmetic on balances is that of a release build (\<open>-\<close> wraps); in SQL a \<open>BIGINT\<close>
  result out of range is an error.
\<close>

section \<open>Accounts and metering\<close>

record account =
  acc_id :: i64
  acc_limit :: "i64 option"
  acc_default_selection :: "string option"

datatype auth_error = Backend string

definition auth_error_display :: "auth_error \<Rightarrow> string" where
  "auth_error_display e = (case e of Backend m \<Rightarrow> ''auth backend error: '' @ m)"

definition to_i64 :: "nat \<Rightarrow> i64" where
  "to_i64 value = (if int value \<le> i64_max then int value else i64_max)"

text \<open>
  The debit both backends compute: bytes in and out added with saturation, times the
  cost as \<open>f64\<close>, rounded, and taken only when finite and positive.
\<close>

definition usage_debit :: "nat \<Rightarrow> nat \<Rightarrow> f64 \<Rightarrow> i64" where
  "usage_debit bytes_in bytes_out cost_per_byte =
     (let bytes = sat_i64 (to_i64 bytes_in + to_i64 bytes_out);
          debit = f64_round (f64_mul (f64_of_int bytes) cost_per_byte)
      in if f64_is_finite debit \<and> f64_less f64_zero debit
         then f64_to_i64 (f64_min debit (f64_of_int i64_max)) else 0)"

lemma f64_of_i64_max: "f64_of_int i64_max = Finite 9007199254740992 10"
  by (simp add: f64_of_int_def f64_nearest_def bit_len.simps rne_def finite_or_inf_def)

lemma usage_debit_range: "0 \<le> usage_debit i b c \<and> usage_debit i b c \<le> i64_max"
proof (cases "f64_is_finite (f64_round (f64_mul (f64_of_int (sat_i64 (to_i64 i + to_i64 b))) c))
    \<and> f64_less f64_zero (f64_round (f64_mul (f64_of_int (sat_i64 (to_i64 i + to_i64 b))) c))")
  case True
  let ?d = "f64_round (f64_mul (f64_of_int (sat_i64 (to_i64 i + to_i64 b))) c)"
  have "f64_less f64_zero (f64_min ?d (f64_of_int i64_max))"
    using True by (auto simp: f64_min_def f64_of_i64_max f64_zero_def)
  then have "0 \<le> f64_to_i64 (f64_min ?d (f64_of_int i64_max))" by (rule f64_to_i64_nonneg)
  moreover have "f64_to_i64 (f64_min ?d (f64_of_int i64_max)) \<le> i64_max"
    using f64_to_i64_in [of "f64_min ?d (f64_of_int i64_max)"] by (simp add: in_i64_def)
  ultimately show ?thesis using True by (simp add: usage_debit_def Let_def)
next
  case False
  then show ?thesis by (auto simp: usage_debit_def Let_def)
qed

lemma usage_debit_nonneg [simp]: "0 \<le> usage_debit i b c"
  and usage_debit_max [simp]: "usage_debit i b c \<le> i64_max"
  using usage_debit_range [of i b c] by simp_all

text \<open>At the default cost the debit is the byte count, as long as it is below \<open>2^53\<close>.\<close>

lemma usage_debit_one:
  assumes "i + b < 2 ^ 53"
  shows "usage_debit i b default_cost_per_byte = int (i + b)"
proof -
  define n where "n = int (i + b)"
  have n: "0 \<le> n" "n < 2 ^ 53" using assms unfolding n_def by (simp_all del: of_nat_add)
  have s: "sat_i64 (to_i64 i + to_i64 b) = n"
    using assms by (simp add: to_i64_def sat_i64_def n_def)
  have in_n: "in_i64 n" using n by (simp add: in_i64_def)
  have d: "f64_round (f64_mul (f64_of_int n) f64_one) = Finite n 0"
    using n by (simp add: f64_mul_one)
  have "f64_min (Finite n 0) (f64_of_int i64_max) = Finite n 0"
    using n by (simp add: f64_min_def f64_of_i64_max)
  then have "usage_debit i b default_cost_per_byte = (if 0 < n then f64_to_i64 (Finite n 0) else 0)"
    by (simp add: usage_debit_def s d default_cost_per_byte_def f64_zero_def)
  also have "\<dots> = n" using n in_n by simp
  finally show ?thesis by (simp add: n_def)
qed

section \<open>The trait as an interface\<close>

type_synonym 's reporter = "'s \<Rightarrow> i64 \<Rightarrow> nat \<Rightarrow> nat \<Rightarrow> f64 \<Rightarrow> (auth_error + i64 option) \<times> 's"

text \<open>A client's history of reports: each is an id, bytes in, bytes out and a cost.\<close>

fun run_reports :: "'s reporter \<Rightarrow> (i64 \<times> nat \<times> nat \<times> f64) list \<Rightarrow> 's \<Rightarrow> 's" where
  "run_reports report [] s = s"
| "run_reports report ((i, bin, bout, c) # rs) s = run_reports report rs (snd (report s i bin bout c))"

text \<open>Those of them that the backend does not answer with an error.\<close>

fun accepted_reports ::
  "'s reporter \<Rightarrow> (i64 \<times> nat \<times> nat \<times> f64) list \<Rightarrow> 's \<Rightarrow> (i64 \<times> nat \<times> nat \<times> f64) list"
where
  "accepted_reports report [] s = []"
| "accepted_reports report ((i, bin, bout, c) # rs) s =
     (case report s i bin bout c of
        (Inl _, s') \<Rightarrow> accepted_reports report rs s'
      | (Inr _, s') \<Rightarrow> (i, bin, bout, c) # accepted_reports report rs s')"

definition spent :: "i64 \<Rightarrow> (i64 \<times> nat \<times> nat \<times> f64) list \<Rightarrow> int" where
  "spent i rs = (\<Sum>(j, bin, bout, c) \<leftarrow> rs. if j = i then usage_debit bin bout c else 0)"

lemma spent_simps [simp]:
  "spent i [] = 0"
  "spent i ((j, bin, bout, c) # rs) = (if j = i then usage_debit bin bout c else 0) + spent i rs"
  by (simp_all add: spent_def)

lemma spent_nonneg [simp]: "0 \<le> spent i rs"
  by (induction rs) auto

text \<open>
  \<open>balance s id\<close> is the limit the backend holds for an account: \<open>None\<close> for an unknown
  id, \<open>Some None\<close> for an unlimited account.  The laws say what the three operations
  promise on it while the backend's invariant holds: \<open>metering\<close> those of \<open>report_usage\<close>, which
  is all a relay relies on, \<open>auth_backend\<close> those of the whole trait.
\<close>

locale metering =
  fixes report_usage :: "'s \<Rightarrow> i64 \<Rightarrow> nat \<Rightarrow> nat \<Rightarrow> f64 \<Rightarrow> (auth_error + i64 option) \<times> 's"
    and balance :: "'s \<Rightarrow> i64 \<Rightarrow> i64 option option"
    and invar :: "'s \<Rightarrow> bool"
  assumes report_limited:
      "invar s \<Longrightarrow> in_i64 i \<Longrightarrow> report_usage s i bin bout c = (Inr r, s') \<Longrightarrow>
         balance s i = Some (Some b) \<Longrightarrow>
         r = Some (max 0 (b - usage_debit bin bout c))
         \<and> balance s' i = Some (Some (max 0 (b - usage_debit bin bout c)))"
    and report_unlimited:
      "invar s \<Longrightarrow> in_i64 i \<Longrightarrow> report_usage s i bin bout c = (Inr r, s') \<Longrightarrow>
         balance s i = Some None \<or> balance s i = None \<Longrightarrow>
         r = None \<and> balance s' i = balance s i"
    and report_other:
      "invar s \<Longrightarrow> in_i64 i \<Longrightarrow> in_i64 j \<Longrightarrow> report_usage s i bin bout c = (Inr r, s') \<Longrightarrow> j \<noteq> i \<Longrightarrow>
         balance s' j = balance s j"
    and report_error:
      "invar s \<Longrightarrow> report_usage s i bin bout c = (Inl e, s') \<Longrightarrow> invar s' \<and> balance s' = balance s"
    and report_invar:
      "invar s \<Longrightarrow> report_usage s i bin bout c = (Inr r, s') \<Longrightarrow> invar s'"
begin

lemma report_step_invar: "invar s \<Longrightarrow> invar (snd (report_usage s i bin bout c))"
  by (cases "report_usage s i bin bout c"; cases "fst (report_usage s i bin bout c)")
    (auto dest: report_error report_invar)

lemma run_reports_invar: "invar s \<Longrightarrow> invar (run_reports report_usage rs s)"
  by (induction rs arbitrary: s) (auto simp: report_step_invar)

text \<open>Each report leaves an unlimited account unlimited and never raises a balance.\<close>

lemma report_step_balance:
  assumes "invar s" and "in_i64 i" and "in_i64 j"
  shows "balance (snd (report_usage s i bin bout c)) j =
    (case fst (report_usage s i bin bout c) of
       Inl _ \<Rightarrow> balance s j
     | Inr _ \<Rightarrow> (if j = i
                then map_option (map_option (\<lambda>b. max 0 (b - usage_debit bin bout c))) (balance s i)
                else balance s j))"
proof (cases "report_usage s i bin bout c")
  case (Pair res s')
  show ?thesis
  proof (cases res)
    case (Inl e)
    with Pair show ?thesis using report_error [OF assms(1), of i bin bout c e s'] by simp
  next
    case (Inr r)
    note rep = Pair [unfolded Inr]
    show ?thesis
    proof (cases "balance s i")
      case None
      then show ?thesis
        using rep report_unlimited [OF assms(1,2) rep] report_other [OF assms rep] by simp
    next
      case (Some lim)
      then show ?thesis
        using rep report_unlimited [OF assms(1,2) rep] report_limited [OF assms(1,2) rep]
          report_other [OF assms rep]
        by (cases lim) simp_all
    qed
  qed
qed

text \<open>
  With every id an \<open>i64\<close>, a limited account ends at its start less everything spent in accepted
  reports, floored at zero, whatever the order, whatever other accounts did in between and
  whichever reports failed.
\<close>

lemma run_reports_balance:
  "invar s \<Longrightarrow> \<forall>r \<in> set rs. in_i64 (fst r) \<Longrightarrow> in_i64 i \<Longrightarrow> balance s i = Some (Some b) \<Longrightarrow> 0 \<le> b \<Longrightarrow>
    balance (run_reports report_usage rs s) i =
      Some (Some (max 0 (b - spent i (accepted_reports report_usage rs s))))"
proof (induction rs arbitrary: s b)
  case (Cons x rs)
  obtain j bin bout c where x: "x = (j, bin, bout, c)" by (cases x)
  obtain res s' where rep: "report_usage s j bin bout c = (res, s')"
    by (cases "report_usage s j bin bout c")
  have inv: "invar s'" using report_step_invar [OF Cons.prems(1), of j bin bout c] rep by simp
  have bal: "balance s' i = Some (Some (case res of
      Inl _ \<Rightarrow> b | Inr _ \<Rightarrow> if i = j then max 0 (b - usage_debit bin bout c) else b))"
    using report_step_balance [OF Cons.prems(1) _ Cons.prems(3), of j bin bout c] Cons.prems
    by (auto simp: x rep split: sum.split)
  have "0 \<le> (case res of Inl _ \<Rightarrow> b | Inr _ \<Rightarrow> if i = j then max 0 (b - usage_debit bin bout c) else b)"
    using Cons.prems(5) by (simp split: sum.split)
  from Cons.IH [OF inv _ Cons.prems(3) bal this] Cons.prems(2) show ?case
    by (auto simp: x rep max_0_diff_diff split: sum.split)
qed simp

end

locale auth_backend = metering report_usage balance invar
  for report_usage :: "'s \<Rightarrow> i64 \<Rightarrow> nat \<Rightarrow> nat \<Rightarrow> f64 \<Rightarrow> (auth_error + i64 option) \<times> 's"
    and balance :: "'s \<Rightarrow> i64 \<Rightarrow> i64 option option"
    and invar :: "'s \<Rightarrow> bool" +
  fixes authenticate :: "'s \<Rightarrow> string \<Rightarrow> string \<Rightarrow> auth_error + account option"
    and authenticate_by_ip :: "'s \<Rightarrow> 'ip \<Rightarrow> auth_error + account option"
  assumes auth_balance:
      "invar s \<Longrightarrow> authenticate s u p = Inr (Some a) \<Longrightarrow> balance s (acc_id a) = Some (acc_limit a)"
    and ip_balance:
      "invar s \<Longrightarrow> authenticate_by_ip s ip = Inr (Some a) \<Longrightarrow>
         balance s (acc_id a) = Some (acc_limit a)"
begin

text \<open>
  The limit an account has when it logs in is what its reports are taken from: after them a
  new login of the same account sees the limit less everything spent in accepted reports.
\<close>

lemma login_reports_login:
  assumes "invar s" and "authenticate s u p = Inr (Some a)" and "acc_limit a = Some b" and "0 \<le> b"
    and "in_i64 (acc_id a)" and "\<forall>r \<in> set rs. in_i64 (fst r)"
    and "authenticate (run_reports report_usage rs s) u' p' = Inr (Some a')" and "acc_id a' = acc_id a"
  shows "acc_limit a' = Some (max 0 (b - spent (acc_id a) (accepted_reports report_usage rs s)))"
proof -
  have "balance s (acc_id a) = Some (Some b)" using auth_balance [OF assms(1,2)] assms(3) by simp
  from run_reports_balance [OF assms(1,6,5) this assms(4)]
    auth_balance [OF run_reports_invar [OF assms(1)] assms(7)] assms(8)
  show ?thesis by simp
qed

end

end
