(* ===== verification/Net_Io.thy ===== *)
theory Net_Io
  imports Auth_Backend
begin

text \<open>
  The effects of a connection handler.  The sockets (\<open>tokio\<close>), the account backend behind
  its trait object and the other connections are the environment: a handler performs an
  operation and the environment's script answers it.  A run is a function from the script
  to a result and the trace of what was done, so a theorem that holds for every script
  holds for every behaviour of the peers.  \<open>await m k\<close> is \<open>m.await?\<close> followed by \<open>k\<close>;
  a fault is an error that \<open>?\<close> passes on, a panic, or an operation that never completes.
\<close>

section \<open>Errors\<close>

datatype proxy_error =
    Io string
  | AuthFailed
  | BandwidthExceeded
  | Protocol string
  | Timeout
  | UnsupportedProtocol
  | NoMatchingUpstream

definition proxy_error_display :: "proxy_error \<Rightarrow> string" where
  "proxy_error_display e =
     (case e of
        Io m \<Rightarrow> ''IO error: '' @ m
      | AuthFailed \<Rightarrow> ''Authentication failed''
      | BandwidthExceeded \<Rightarrow> ''Not enough bandwidth''
      | Protocol m \<Rightarrow> ''Protocol error: '' @ m
      | Timeout \<Rightarrow> ''Timeout error''
      | UnsupportedProtocol \<Rightarrow> ''Unsupported protocol''
      | NoMatchingUpstream \<Rightarrow> ''No upstream matches the requested location/ISP selection'')"

datatype fault = Fail proxy_error | Panic string | Blocked

section \<open>Operations, answers, events\<close>

datatype sock = Client | Upstream

datatype op =
    Connect string
  | SetNodelay
  | WriteAll sock "byte list"
  | Flush sock
  | ReadSome sock nat
  | ReadExact sock nat
  | TimedRead sock nat
  | TimedReadExact sock nat
  | Authenticate string string
  | AuthenticateByIp string

text \<open>The two copy loops of the relay; their answers carry the direction they are for.\<close>

datatype direction = ToUpstream | ToClient

datatype resp =
    R_Done
  | R_IoErr string
  | R_Bytes "byte list"
  | R_Elapsed
  | R_Account "account option"
  | R_AuthErr auth_error
  | R_Remaining "i64 option"
  | R_Wrote nat
  | R_Relay direction resp

text \<open>
  What the operations' documentation promises of an answer: a read returns at most the
  buffer's length, \<open>read_exact\<close> exactly that, only timed operations elapse.
\<close>

definition bytes_answer :: "(nat \<Rightarrow> bool) \<Rightarrow> bool \<Rightarrow> resp \<Rightarrow> bool" where
  "bytes_answer len_ok timed r =
     (case r of
        R_Bytes bs \<Rightarrow> len_ok (length bs)
      | R_IoErr e \<Rightarrow> True
      | R_Elapsed \<Rightarrow> timed
      | _ \<Rightarrow> False)"

definition unit_answer :: "resp \<Rightarrow> bool" where
  "unit_answer r = (case r of R_Done \<Rightarrow> True | R_IoErr e \<Rightarrow> True | _ \<Rightarrow> False)"

definition account_answer :: "resp \<Rightarrow> bool" where
  "account_answer r = (case r of R_Account a \<Rightarrow> True | R_AuthErr e \<Rightarrow> True | _ \<Rightarrow> False)"

primrec conforms :: "op \<Rightarrow> resp \<Rightarrow> bool" where
  "conforms (Connect a) = unit_answer"
| "conforms SetNodelay = unit_answer"
| "conforms (WriteAll s bs) = unit_answer"
| "conforms (Flush s) = unit_answer"
| "conforms (ReadSome s n) = bytes_answer (\<lambda>len. len \<le> n) False"
| "conforms (ReadExact s n) = bytes_answer (\<lambda>len. len = n) False"
| "conforms (TimedRead s n) = bytes_answer (\<lambda>len. len \<le> n) True"
| "conforms (TimedReadExact s n) = bytes_answer (\<lambda>len. len = n) True"
| "conforms (Authenticate u p) = account_answer"
| "conforms (AuthenticateByIp ip) = account_answer"

lemma answer_simps [simp]:
  "bytes_answer f t (R_Bytes bs) = f (length bs)" "bytes_answer f t (R_IoErr e)"
  "bytes_answer f t R_Elapsed = t"
  "unit_answer R_Done" "unit_answer (R_IoErr e)"
  "account_answer (R_Account a)" "account_answer (R_AuthErr x)"
  by (simp_all add: bytes_answer_def unit_answer_def account_answer_def)

lemma unit_answer_iff: "unit_answer r \<longleftrightarrow> r = R_Done \<or> (\<exists>e. r = R_IoErr e)"
  by (cases r) (simp_all add: unit_answer_def)

lemma account_answer_iff: "account_answer r \<longleftrightarrow> (\<exists>a. r = R_Account a) \<or> (\<exists>e. r = R_AuthErr e)"
  by (cases r) (simp_all add: account_answer_def)

text \<open>
  \<open>Did op None\<close> is an operation that was started and never completed.  The other events
  are the calls into \<open>GlobalStats\<close> and the \<open>metrics\<close> crate, and the relay's: what it has copied
  the calls of \<open>report_usage\<close> it has made (\<open>Charge\<close>), and what they returned (\<open>Settled\<close>).
\<close>

datatype event =
    Did op "resp option"
  | Copied direction "byte list"
  | Charge i64 nat nat f64
  | Settled i64 nat nat f64 "auth_error + i64 option"
  | BytesIn nat
  | BytesOut nat
  | ConnResult bool string
  | InfoLog string
  | IncActive
  | DecActive
  | Counter string nat
  | Histogram string nat

record world =
  w_script :: "resp list"
  w_trace :: "event list"

type_synonym 'a io = "world \<Rightarrow> (fault + 'a) \<times> world"

definition started :: "resp list \<Rightarrow> world" where
  "started rs = \<lparr>w_script = rs, w_trace = []\<rparr>"

section \<open>The monad\<close>

definition ret :: "'a \<Rightarrow> 'a io" where
  "ret x w = (Inr x, w)"

definition fault_with :: "fault \<Rightarrow> 'a io" where
  "fault_with f w = (Inl f, w)"

abbreviation fail :: "proxy_error \<Rightarrow> 'a io" where
  "fail e \<equiv> fault_with (Fail e)"

abbreviation panic :: "string \<Rightarrow> 'a io" where
  "panic m \<equiv> fault_with (Panic m)"

definition await :: "'a io \<Rightarrow> ('a \<Rightarrow> 'b io) \<Rightarrow> 'b io" where
  "await m k w = (case m w of (Inl f, w') \<Rightarrow> (Inl f, w') | (Inr x, w') \<Rightarrow> k x w')"

definition andthen :: "unit io \<Rightarrow> 'b io \<Rightarrow> 'b io" where
  "andthen m k = await m (\<lambda>_. k)"

text \<open>A pure \<open>Result\<close>, and one whose evaluation may panic.\<close>

definition lift_result :: "proxy_error + 'a \<Rightarrow> 'a io" where
  "lift_result r = (case r of Inl e \<Rightarrow> fail e | Inr x \<Rightarrow> ret x)"

definition lift_fault :: "fault + 'a \<Rightarrow> 'a io" where
  "lift_fault r = (case r of Inl f \<Rightarrow> fault_with f | Inr x \<Rightarrow> ret x)"

definition emit :: "event \<Rightarrow> unit io" where
  "emit e w = (Inr (), w\<lparr>w_trace := w_trace w @ [e]\<rparr>)"

definition perform :: "op \<Rightarrow> resp io" where
  "perform opn w =
     (case w_script w of
        [] \<Rightarrow> (Inl Blocked, w\<lparr>w_trace := w_trace w @ [Did opn None]\<rparr>)
      | r # rs \<Rightarrow>
          if conforms opn r
          then (Inr r, w\<lparr>w_script := rs, w_trace := w_trace w @ [Did opn (Some r)]\<rparr>)
          else (Inl Blocked, w\<lparr>w_trace := w_trace w @ [Did opn None]\<rparr>))"

section \<open>Primitive effects\<close>

definition unit_of :: "resp \<Rightarrow> unit io" where
  "unit_of r = (case r of R_IoErr e \<Rightarrow> fail (Io e) | _ \<Rightarrow> ret ())"

definition bytes_of :: "resp \<Rightarrow> byte list io" where
  "bytes_of r = (case r of R_Bytes bs \<Rightarrow> ret bs | R_IoErr e \<Rightarrow> fail (Io e) | _ \<Rightarrow> fail Timeout)"

definition connect :: "string \<Rightarrow> unit io" where
  "connect addr = await (perform (Connect addr)) unit_of"

definition set_nodelay :: "unit io" where
  "set_nodelay = await (perform SetNodelay) unit_of"

definition write_all :: "sock \<Rightarrow> byte list \<Rightarrow> unit io" where
  "write_all s bs = await (perform (WriteAll s bs)) unit_of"

definition flush :: "sock \<Rightarrow> unit io" where
  "flush s = await (perform (Flush s)) unit_of"

definition read_some :: "sock \<Rightarrow> nat \<Rightarrow> byte list io" where
  "read_some s n = await (perform (ReadSome s n)) bytes_of"

definition read_exact :: "sock \<Rightarrow> nat \<Rightarrow> byte list io" where
  "read_exact s n = await (perform (ReadExact s n)) bytes_of"

text \<open>\<open>timeout(..)\<close>: the caller decides what an elapsed timer becomes.\<close>

definition timed_bytes :: "proxy_error \<Rightarrow> resp \<Rightarrow> byte list io" where
  "timed_bytes elapsed r =
     (case r of R_Bytes bs \<Rightarrow> ret bs | R_IoErr e \<Rightarrow> fail (Io e) | _ \<Rightarrow> fail elapsed)"

definition timed_read :: "proxy_error \<Rightarrow> sock \<Rightarrow> nat \<Rightarrow> byte list io" where
  "timed_read elapsed s n = await (perform (TimedRead s n)) (timed_bytes elapsed)"

definition timed_read_exact :: "proxy_error \<Rightarrow> sock \<Rightarrow> nat \<Rightarrow> byte list io" where
  "timed_read_exact elapsed s n = await (perform (TimedReadExact s n)) (timed_bytes elapsed)"

definition account_of :: "resp \<Rightarrow> (auth_error + account option) io" where
  "account_of r =
     (case r of R_Account a \<Rightarrow> ret (Inr a) | R_AuthErr e \<Rightarrow> ret (Inl e) | _ \<Rightarrow> ret (Inr None))"

definition call_authenticate :: "string \<Rightarrow> string \<Rightarrow> (auth_error + account option) io" where
  "call_authenticate u p = await (perform (Authenticate u p)) account_of"

definition call_authenticate_by_ip :: "string \<Rightarrow> (auth_error + account option) io" where
  "call_authenticate_by_ip ip = await (perform (AuthenticateByIp ip)) account_of"

abbreviation bytes_in :: "nat \<Rightarrow> unit io" where "bytes_in n \<equiv> emit (BytesIn n)"
abbreviation bytes_out :: "nat \<Rightarrow> unit io" where "bytes_out n \<equiv> emit (BytesOut n)"

section \<open>How runs compute\<close>

lemma ret_run [io_simps]: "ret x w = (Inr x, w)"
  by (simp add: ret_def)

lemma fault_run [io_simps]: "fault_with f w = (Inl f, w)"
  by (simp add: fault_with_def)

lemma emit_run [io_simps]: "emit e w = (Inr (), w\<lparr>w_trace := w_trace w @ [e]\<rparr>)"
  by (simp add: emit_def)

lemma await_ret [io_simps]: "await (ret x) k = k x"
  by (rule ext) (simp add: await_def ret_def)

lemma await_fault [io_simps]: "await (fault_with f) k = fault_with f"
  by (rule ext) (simp add: await_def fault_with_def)

lemma await_assoc: "await (await m f) g = await m (\<lambda>x. await (f x) g)"
  by (rule ext) (simp add: await_def split: prod.splits sum.splits)

lemma await_Inr:
  "await m k w = (Inr y, w'') \<longleftrightarrow> (\<exists>x w'. m w = (Inr x, w') \<and> k x w' = (Inr y, w''))"
  by (auto simp: await_def split: prod.splits sum.splits)

lemma await_InrE:
  assumes "await m k w = (Inr y, w'')"
  obtains x w' where "m w = (Inr x, w')" and "k x w' = (Inr y, w'')"
  using assms by (auto simp: await_Inr)

lemma andthen_Inr:
  "andthen m k w = (Inr y, w'') \<longleftrightarrow> (\<exists>w'. m w = (Inr (), w') \<and> k w' = (Inr y, w''))"
  by (auto simp: andthen_def await_Inr)

lemma lift_result_simps [io_simps]:
  "lift_result (Inl e) = fail e" "lift_result (Inr x) = ret x"
  by (simp_all add: lift_result_def)

lemma lift_result_Inr: "lift_result r w = (Inr x, w') \<longleftrightarrow> r = Inr x \<and> w' = w"
  by (auto simp: lift_result_def ret_def fault_with_def split: sum.splits)

lemma lift_fault_simps [io_simps]:
  "lift_fault (Inl f) = fault_with f" "lift_fault (Inr x) = ret x"
  by (simp_all add: lift_fault_def)

lemma lift_fault_Inr: "lift_fault r w = (Inr x, w') \<longleftrightarrow> r = Inr x \<and> w' = w"
  by (auto simp: lift_fault_def ret_def fault_with_def split: sum.splits)

text \<open>One rule per primitive, at a script whose head is the answer.\<close>

lemma await_run [io_simps]:
  "m w = (Inr x, w') \<Longrightarrow> await m k w = k x w'"
  "m w = (Inl f, w') \<Longrightarrow> await m k w = (Inl f, w')"
  by (simp_all add: await_def)

lemma prim_run [io_simps]:
  "connect a \<lparr>w_script = R_Done # rs, w_trace = t\<rparr> =
     (Inr (), \<lparr>w_script = rs, w_trace = t @ [Did (Connect a) (Some R_Done)]\<rparr>)"
  "connect a \<lparr>w_script = R_IoErr e # rs, w_trace = t\<rparr> =
     (Inl (Fail (Io e)), \<lparr>w_script = rs, w_trace = t @ [Did (Connect a) (Some (R_IoErr e))]\<rparr>)"
  "set_nodelay \<lparr>w_script = R_Done # rs, w_trace = t\<rparr> =
     (Inr (), \<lparr>w_script = rs, w_trace = t @ [Did SetNodelay (Some R_Done)]\<rparr>)"
  "write_all s bs \<lparr>w_script = R_Done # rs, w_trace = t\<rparr> =
     (Inr (), \<lparr>w_script = rs, w_trace = t @ [Did (WriteAll s bs) (Some R_Done)]\<rparr>)"
  "flush s \<lparr>w_script = R_Done # rs, w_trace = t\<rparr> =
     (Inr (), \<lparr>w_script = rs, w_trace = t @ [Did (Flush s) (Some R_Done)]\<rparr>)"
  "length bs \<le> n \<Longrightarrow> read_some s n \<lparr>w_script = R_Bytes bs # rs, w_trace = t\<rparr> =
     (Inr bs, \<lparr>w_script = rs, w_trace = t @ [Did (ReadSome s n) (Some (R_Bytes bs))]\<rparr>)"
  "length bs = n \<Longrightarrow> read_exact s n \<lparr>w_script = R_Bytes bs # rs, w_trace = t\<rparr> =
     (Inr bs, \<lparr>w_script = rs, w_trace = t @ [Did (ReadExact s n) (Some (R_Bytes bs))]\<rparr>)"
  "length bs \<le> n \<Longrightarrow> timed_read el s n \<lparr>w_script = R_Bytes bs # rs, w_trace = t\<rparr> =
     (Inr bs, \<lparr>w_script = rs, w_trace = t @ [Did (TimedRead s n) (Some (R_Bytes bs))]\<rparr>)"
  "length bs = n \<Longrightarrow> timed_read_exact el s n \<lparr>w_script = R_Bytes bs # rs, w_trace = t\<rparr> =
     (Inr bs, \<lparr>w_script = rs, w_trace = t @ [Did (TimedReadExact s n) (Some (R_Bytes bs))]\<rparr>)"
  "call_authenticate u p \<lparr>w_script = R_Account acc # rs, w_trace = t\<rparr> =
     (Inr (Inr acc), \<lparr>w_script = rs, w_trace = t @ [Did (Authenticate u p) (Some (R_Account acc))]\<rparr>)"
  "call_authenticate_by_ip ip \<lparr>w_script = R_Account acc # rs, w_trace = t\<rparr> =
     (Inr (Inr acc), \<lparr>w_script = rs, w_trace = t @ [Did (AuthenticateByIp ip) (Some (R_Account acc))]\<rparr>)"
  by (simp_all add: connect_def set_nodelay_def write_all_def flush_def read_some_def
      read_exact_def timed_read_def timed_read_exact_def call_authenticate_def
      call_authenticate_by_ip_def perform_def await_def unit_of_def bytes_of_def timed_bytes_def
      account_of_def ret_def fault_with_def)

section \<open>What a run adds to the trace\<close>

text \<open>
  \<open>emits P m\<close>: every run of \<open>m\<close>, from every world and whatever the script, only appends to
  the trace, and every event it appends satisfies \<open>P\<close>.
\<close>

definition emits :: "(event \<Rightarrow> bool) \<Rightarrow> 'a io \<Rightarrow> bool" where
  "emits P m \<longleftrightarrow> (\<forall>w r w'. m w = (r, w') \<longrightarrow> (\<exists>es. w_trace w' = w_trace w @ es \<and> (\<forall>e \<in> set es. P e)))"

lemma emitsI:
  "(\<And>w r w'. m w = (r, w') \<Longrightarrow> \<exists>es. w_trace w' = w_trace w @ es \<and> (\<forall>e \<in> set es. P e)) \<Longrightarrow> emits P m"
  by (simp add: emits_def)

lemma emitsD:
  "emits P m \<Longrightarrow> m w = (r, w') \<Longrightarrow> \<exists>es. w_trace w' = w_trace w @ es \<and> (\<forall>e \<in> set es. P e)"
  by (simp add: emits_def)

lemma emits_mono: "emits P m \<Longrightarrow> (\<And>e. P e \<Longrightarrow> Q e) \<Longrightarrow> emits Q m"
  unfolding emits_def by meson

lemma emits_ret [wp_rules]: "emits P (ret x)"
  by (simp add: emits_def ret_def)

lemma emits_fault [wp_rules]: "emits P (fault_with f)"
  by (simp add: emits_def fault_with_def)

lemma emits_emit [wp_rules]: "P e \<Longrightarrow> emits P (emit e)"
  by (simp add: emits_def emit_def)

lemma emits_perform: "(\<And>r. P (Did opn r)) \<Longrightarrow> emits P (perform opn)"
  by (auto simp: emits_def perform_def split: list.splits if_splits)

lemma emits_await [wp_rules]:
  assumes "emits P m" and "\<And>x. emits P (k x)"
  shows "emits P (await m k)"
proof (rule emitsI)
  fix w r w'
  assume run: "await m k w = (r, w')"
  obtain s v where m: "m w = (s, v)" by (cases "m w")
  from emitsD [OF assms(1) m] obtain es
    where es: "w_trace v = w_trace w @ es" "\<forall>e \<in> set es. P e" by blast
  show "\<exists>es. w_trace w' = w_trace w @ es \<and> (\<forall>e \<in> set es. P e)"
  proof (cases s)
    case (Inl f)
    with run m es show ?thesis by (auto simp: await_def)
  next
    case (Inr x)
    with run m have "k x v = (r, w')" by (simp add: await_def)
    from emitsD [OF assms(2) this] obtain es'
      where "w_trace w' = w_trace v @ es'" "\<forall>e \<in> set es'. P e" by blast
    with es show ?thesis by (intro exI [of _ "es @ es'"]) auto
  qed
qed

lemma emits_andthen [wp_rules]: "emits P m \<Longrightarrow> emits P k \<Longrightarrow> emits P (andthen m k)"
  unfolding andthen_def by (rule emits_await)

lemma emits_if [wp_rules]: "(b \<Longrightarrow> emits P m) \<Longrightarrow> (\<not> b \<Longrightarrow> emits P n) \<Longrightarrow> emits P (if b then m else n)"
  by simp

lemma emits_case_option [wp_rules]:
  "emits P n \<Longrightarrow> (\<And>x. emits P (s x)) \<Longrightarrow> emits P (case v of None \<Rightarrow> n | Some x \<Rightarrow> s x)"
  by (cases v) simp_all

lemma emits_case_prod [wp_rules]:
  "(\<And>x y. emits P (f x y)) \<Longrightarrow> emits P (case v of (x, y) \<Rightarrow> f x y)"
  by (cases v) simp

lemma emits_case_sum [wp_rules]:
  "(\<And>x. emits P (l x)) \<Longrightarrow> (\<And>y. emits P (r y)) \<Longrightarrow> emits P (case v of Inl x \<Rightarrow> l x | Inr y \<Rightarrow> r y)"
  by (cases v) simp_all

lemma emits_case_list [wp_rules]:
  "emits P n \<Longrightarrow> (\<And>x xs. emits P (c x xs)) \<Longrightarrow> emits P (case v of [] \<Rightarrow> n | x # xs \<Rightarrow> c x xs)"
  by (cases v) simp_all

lemma emits_case_protocol [wp_rules]:
  "emits P a \<Longrightarrow> emits P b \<Longrightarrow> emits P c \<Longrightarrow> emits P d \<Longrightarrow>
    emits P (case v of Http \<Rightarrow> a | Https \<Rightarrow> b | Socks4 \<Rightarrow> c | Socks5 \<Rightarrow> d)"
  by (cases v) simp_all

lemma emits_lift [wp_rules]: "emits P (lift_result r)" "emits P (lift_fault f)"
  by (simp_all add: lift_result_def lift_fault_def emits_ret emits_fault split: sum.split)

lemma emits_of [wp_rules]:
  "emits P (unit_of r)" "emits P (bytes_of r)" "emits P (timed_bytes el r)" "emits P (account_of r)"
  by (simp_all add: unit_of_def bytes_of_def timed_bytes_def account_of_def emits_ret emits_fault
      split: resp.split)

lemma emits_prims [wp_rules]:
  "(\<And>r. P (Did (Connect a) r)) \<Longrightarrow> emits P (connect a)"
  "(\<And>r. P (Did SetNodelay r)) \<Longrightarrow> emits P set_nodelay"
  "(\<And>r. P (Did (WriteAll s bs) r)) \<Longrightarrow> emits P (write_all s bs)"
  "(\<And>r. P (Did (Flush s) r)) \<Longrightarrow> emits P (flush s)"
  "(\<And>r. P (Did (ReadSome s n) r)) \<Longrightarrow> emits P (read_some s n)"
  "(\<And>r. P (Did (ReadExact s n) r)) \<Longrightarrow> emits P (read_exact s n)"
  "(\<And>r. P (Did (TimedRead s n) r)) \<Longrightarrow> emits P (timed_read el s n)"
  "(\<And>r. P (Did (TimedReadExact s n) r)) \<Longrightarrow> emits P (timed_read_exact el s n)"
  "(\<And>r. P (Did (Authenticate u p) r)) \<Longrightarrow> emits P (call_authenticate u p)"
  "(\<And>r. P (Did (AuthenticateByIp ip) r)) \<Longrightarrow> emits P (call_authenticate_by_ip ip)"
  unfolding connect_def set_nodelay_def write_all_def flush_def read_some_def read_exact_def
    timed_read_def timed_read_exact_def call_authenticate_def call_authenticate_by_ip_def
  by (intro emits_await emits_perform emits_of; simp)+

text \<open>Runs of consecutive parts: what each appended.\<close>

lemma await_split:
  assumes "await m k w = (r, w')"
  obtains (stop) f where "m w = (Inl f, w')" and "r = Inl f"
  | (go) x v where "m w = (Inr x, v)" and "k x v = (r, w')"
  using assms by (auto simp: await_def split: prod.splits sum.splits)

section \<open>What a run that returns has done\<close>

text \<open>The trace grows by the events of the primitives, and a value that comes back is the
  one the environment answered.\<close>

lemma perform_Inr:
  "perform opn w = (Inr r, w') \<longleftrightarrow>
     conforms opn r \<and> w_script w = r # w_script w'
     \<and> w_trace w' = w_trace w @ [Did opn (Some r)]"
  by (cases w; cases w') (auto simp: perform_def split: list.splits if_splits)

lemma emit_Inr: "emit e w = (Inr x, w') \<longleftrightarrow> w' = w\<lparr>w_trace := w_trace w @ [e]\<rparr>"
  by (auto simp: emit_def)

lemma ret_Inr: "ret x w = (Inr y, w') \<longleftrightarrow> y = x \<and> w' = w"
  by (auto simp: ret_def)

lemma fault_Inr: "fault_with f w = (Inr y, w') \<longleftrightarrow> False"
  by (simp add: fault_with_def)

lemma bytes_of_Inr:
  "bytes_of r w = (Inr bs, w') \<longleftrightarrow> r = R_Bytes bs \<and> w' = w"
  "timed_bytes el r w = (Inr bs, w') \<longleftrightarrow> r = R_Bytes bs \<and> w' = w"
  by (cases r; auto simp: bytes_of_def timed_bytes_def ret_def fault_with_def)+

lemma unit_of_Inr: "unit_of r w = (Inr x, w') \<longleftrightarrow> (\<forall>e. r \<noteq> R_IoErr e) \<and> w' = w"
  by (cases r) (auto simp: unit_of_def ret_def fault_with_def)

lemma read_exact_Inr:
  "read_exact s n w = (Inr bs, w') \<longleftrightarrow>
     length bs = n \<and> w_script w = R_Bytes bs # w_script w'
     \<and> w_trace w' = w_trace w @ [Did (ReadExact s n) (Some (R_Bytes bs))]"
  by (auto simp: read_exact_def await_Inr perform_Inr bytes_of_Inr)

lemma read_some_Inr:
  "read_some s n w = (Inr bs, w') \<longleftrightarrow>
     length bs \<le> n \<and> w_script w = R_Bytes bs # w_script w'
     \<and> w_trace w' = w_trace w @ [Did (ReadSome s n) (Some (R_Bytes bs))]"
  by (auto simp: read_some_def await_Inr perform_Inr bytes_of_Inr)

lemma timed_read_Inr:
  "timed_read el s n w = (Inr bs, w') \<longleftrightarrow>
     length bs \<le> n \<and> w_script w = R_Bytes bs # w_script w'
     \<and> w_trace w' = w_trace w @ [Did (TimedRead s n) (Some (R_Bytes bs))]"
  by (auto simp: timed_read_def await_Inr perform_Inr bytes_of_Inr)

lemma timed_read_exact_Inr:
  "timed_read_exact el s n w = (Inr bs, w') \<longleftrightarrow>
     length bs = n \<and> w_script w = R_Bytes bs # w_script w'
     \<and> w_trace w' = w_trace w @ [Did (TimedReadExact s n) (Some (R_Bytes bs))]"
  by (auto simp: timed_read_exact_def await_Inr perform_Inr bytes_of_Inr)

lemma unit_prims_Inr:
  "connect a w = (Inr x, w') \<longleftrightarrow> w_script w = R_Done # w_script w'
     \<and> w_trace w' = w_trace w @ [Did (Connect a) (Some R_Done)]"
  "set_nodelay w = (Inr x, w') \<longleftrightarrow> w_script w = R_Done # w_script w'
     \<and> w_trace w' = w_trace w @ [Did SetNodelay (Some R_Done)]"
  "write_all s bs w = (Inr x, w') \<longleftrightarrow> w_script w = R_Done # w_script w'
     \<and> w_trace w' = w_trace w @ [Did (WriteAll s bs) (Some R_Done)]"
  "flush s w = (Inr x, w') \<longleftrightarrow> w_script w = R_Done # w_script w'
     \<and> w_trace w' = w_trace w @ [Did (Flush s) (Some R_Done)]"
  unfolding connect_def set_nodelay_def write_all_def flush_def await_Inr perform_Inr unit_of_Inr
    conforms.simps unit_answer_iff
  by auto

lemma call_authenticate_Inr:
  "call_authenticate u p w = (Inr (Inr a), w') \<longleftrightarrow>
     w_script w = R_Account a # w_script w'
     \<and> w_trace w' = w_trace w @ [Did (Authenticate u p) (Some (R_Account a))]"
  unfolding call_authenticate_def await_Inr perform_Inr conforms.simps account_answer_iff
  by (auto simp: account_of_def ret_def)

lemma call_authenticate_by_ip_Inr:
  "call_authenticate_by_ip ip w = (Inr (Inr a), w') \<longleftrightarrow>
     w_script w = R_Account a # w_script w'
     \<and> w_trace w' = w_trace w @ [Did (AuthenticateByIp ip) (Some (R_Account a))]"
  unfolding call_authenticate_by_ip_def await_Inr perform_Inr conforms.simps account_answer_iff
  by (auto simp: account_of_def ret_def)

lemmas run_Inr = await_Inr andthen_Inr emit_Inr ret_Inr fault_Inr read_exact_Inr read_some_Inr
  timed_read_Inr timed_read_exact_Inr unit_prims_Inr call_authenticate_Inr call_authenticate_by_ip_Inr
  lift_result_Inr lift_fault_Inr

section \<open>Postconditions\<close>

text \<open>
  \<open>returns m Q\<close>: whenever \<open>m\<close> returns \<open>x\<close>, it has appended events \<open>es\<close> with \<open>Q x es\<close>.  The
  rules push the postcondition through a run one operation at a time, each putting its
  event in front of what the rest appends.
\<close>

definition returns :: "'a io \<Rightarrow> ('a \<Rightarrow> event list \<Rightarrow> bool) \<Rightarrow> bool" where
  "returns m Q \<longleftrightarrow> (\<forall>w x w'. m w = (Inr x, w') \<longrightarrow> (\<exists>es. w_trace w' = w_trace w @ es \<and> Q x es))"

lemma returnsI:
  "(\<And>w x w'. m w = (Inr x, w') \<Longrightarrow> \<exists>es. w_trace w' = w_trace w @ es \<and> Q x es) \<Longrightarrow> returns m Q"
  by (simp add: returns_def)

lemma returnsD:
  "returns m Q \<Longrightarrow> m w = (Inr x, w') \<Longrightarrow> \<exists>es. w_trace w' = w_trace w @ es \<and> Q x es"
  by (simp add: returns_def)

lemma returns_mono: "returns m Q \<Longrightarrow> (\<And>x es. Q x es \<Longrightarrow> R x es) \<Longrightarrow> returns m R"
  unfolding returns_def by meson

lemma returns_ret [post_rules]: "Q x [] \<Longrightarrow> returns (ret x) Q"
  by (simp add: returns_def ret_Inr)

lemma returns_fault [post_rules]: "returns (fault_with f) Q"
  by (simp add: returns_def fault_Inr)

lemma returns_await:
  assumes "returns m P" and "\<And>x a. P x a \<Longrightarrow> returns (k x) (\<lambda>y es. Q y (a @ es))"
  shows "returns (await m k) Q"
proof (rule returnsI)
  fix w y w''
  assume "await m k w = (Inr y, w'')"
  then obtain x w' where m: "m w = (Inr x, w')" and k: "k x w' = (Inr y, w'')"
    by (rule await_InrE)
  from returnsD [OF assms(1) m] obtain a where a: "w_trace w' = w_trace w @ a" "P x a" by blast
  from returnsD [OF assms(2) [OF a(2)] k] obtain es where "w_trace w'' = w_trace w' @ es" "Q y (a @ es)"
    by blast
  with a show "\<exists>es. w_trace w'' = w_trace w @ es \<and> Q y es" by (intro exI [of _ "a @ es"]) simp
qed

lemma returns_andthen:
  "returns m P \<Longrightarrow> (\<And>a. P () a \<Longrightarrow> returns k (\<lambda>y es. Q y (a @ es))) \<Longrightarrow> returns (andthen m k) Q"
  unfolding andthen_def by (erule returns_await) simp

text \<open>A part known only by the events it may append.\<close>

lemma returns_emits: "emits P m \<Longrightarrow> returns m (\<lambda>x es. \<forall>e \<in> set es. P e)"
  unfolding returns_def emits_def by blast

lemma returns_prims:
  "returns (emit e) (\<lambda>x es. es = [e])"
  "returns (connect a) (\<lambda>x es. es = [Did (Connect a) (Some R_Done)])"
  "returns set_nodelay (\<lambda>x es. es = [Did SetNodelay (Some R_Done)])"
  "returns (write_all s bs) (\<lambda>x es. es = [Did (WriteAll s bs) (Some R_Done)])"
  "returns (flush s) (\<lambda>x es. es = [Did (Flush s) (Some R_Done)])"
  "returns (read_some s n) (\<lambda>r es. length r \<le> n \<and> es = [Did (ReadSome s n) (Some (R_Bytes r))])"
  "returns (read_exact s n) (\<lambda>r es. length r = n \<and> es = [Did (ReadExact s n) (Some (R_Bytes r))])"
  "returns (timed_read el s n) (\<lambda>r es. length r \<le> n \<and> es = [Did (TimedRead s n) (Some (R_Bytes r))])"
  "returns (timed_read_exact el s n)
     (\<lambda>r es. length r = n \<and> es = [Did (TimedReadExact s n) (Some (R_Bytes r))])"
  "returns (call_authenticate u p)
     (\<lambda>r es. \<forall>a. r = Inr a \<longrightarrow> es = [Did (Authenticate u p) (Some (R_Account a))])"
  "returns (call_authenticate_by_ip ip)
     (\<lambda>r es. \<forall>a. r = Inr a \<longrightarrow> es = [Did (AuthenticateByIp ip) (Some (R_Account a))])"
            apply (auto simp: returns_def run_Inr)[9]
   apply (rule returnsI)
   apply (frule emitsD [OF emits_prims(9) [where P = "\<lambda>_. True", OF TrueI]])
   apply (auto simp: call_authenticate_Inr)[1]
  apply (rule returnsI)
  apply (frule emitsD [OF emits_prims(10) [where P = "\<lambda>_. True", OF TrueI]])
  apply (auto simp: call_authenticate_by_ip_Inr)[1]
  done

lemma returns_then_emit [post_rules]:
  "returns k (\<lambda>y es. Q y (e # es)) \<Longrightarrow> returns (andthen (emit e) k) Q"
  by (rule returns_andthen [OF returns_prims(1)]) simp

lemma returns_then_connect [post_rules]:
  "returns k (\<lambda>y es. Q y (Did (Connect a) (Some R_Done) # es)) \<Longrightarrow> returns (andthen (connect a) k) Q"
  by (rule returns_andthen [OF returns_prims(2)]) simp

lemma returns_then_set_nodelay [post_rules]:
  "returns k (\<lambda>y es. Q y (Did SetNodelay (Some R_Done) # es)) \<Longrightarrow> returns (andthen set_nodelay k) Q"
  by (rule returns_andthen [OF returns_prims(3)]) simp

lemma returns_then_write_all [post_rules]:
  "returns k (\<lambda>y es. Q y (Did (WriteAll s bs) (Some R_Done) # es)) \<Longrightarrow>
    returns (andthen (write_all s bs) k) Q"
  by (rule returns_andthen [OF returns_prims(4)]) simp

lemma returns_then_flush [post_rules]:
  "returns k (\<lambda>y es. Q y (Did (Flush s) (Some R_Done) # es)) \<Longrightarrow> returns (andthen (flush s) k) Q"
  by (rule returns_andthen [OF returns_prims(5)]) simp

lemma returns_then_read_some [post_rules]:
  "(\<And>r. length r \<le> n \<Longrightarrow> returns (k r) (\<lambda>y es. Q y (Did (ReadSome s n) (Some (R_Bytes r)) # es))) \<Longrightarrow>
    returns (await (read_some s n) k) Q"
  by (rule returns_await [OF returns_prims(6)]) auto

lemma returns_then_read_exact [post_rules]:
  "(\<And>r. length r = n \<Longrightarrow> returns (k r) (\<lambda>y es. Q y (Did (ReadExact s n) (Some (R_Bytes r)) # es))) \<Longrightarrow>
    returns (await (read_exact s n) k) Q"
  by (rule returns_await [OF returns_prims(7)]) auto

lemma returns_then_timed_read [post_rules]:
  "(\<And>r. length r \<le> n \<Longrightarrow> returns (k r) (\<lambda>y es. Q y (Did (TimedRead s n) (Some (R_Bytes r)) # es))) \<Longrightarrow>
    returns (await (timed_read el s n) k) Q"
  by (rule returns_await [OF returns_prims(8)]) auto

lemma returns_then_timed_read_exact [post_rules]:
  "(\<And>r. length r = n \<Longrightarrow>
      returns (k r) (\<lambda>y es. Q y (Did (TimedReadExact s n) (Some (R_Bytes r)) # es))) \<Longrightarrow>
    returns (await (timed_read_exact el s n) k) Q"
  by (rule returns_await [OF returns_prims(9)]) auto

text \<open>The last operation of a run.\<close>

lemma returns_last [post_rules]:
  "Q () [e] \<Longrightarrow> returns (emit e) Q"
  "Q () [Did (WriteAll s bs) (Some R_Done)] \<Longrightarrow> returns (write_all s bs) Q"
  by (auto simp: returns_def run_Inr)

lemma returns_if [post_rules]:
  "(b \<Longrightarrow> returns m Q) \<Longrightarrow> (\<not> b \<Longrightarrow> returns n Q) \<Longrightarrow> returns (if b then m else n) Q"
  by simp

lemma returns_lift_result [post_rules]:
  "(\<And>x. r = Inr x \<Longrightarrow> returns (k x) Q) \<Longrightarrow> returns (await (lift_result r) k) Q"
  by (cases r) (simp_all add: io_simps returns_fault)

lemma returns_lift_fault [post_rules]:
  "(\<And>x. r = Inr x \<Longrightarrow> returns (k x) Q) \<Longrightarrow> returns (await (lift_fault r) k) Q"
  by (cases r) (simp_all add: io_simps returns_fault)

lemma returns_case_option [post_rules]:
  "(v = None \<Longrightarrow> returns n Q) \<Longrightarrow> (\<And>x. v = Some x \<Longrightarrow> returns (s x) Q) \<Longrightarrow>
    returns (case v of None \<Rightarrow> n | Some x \<Rightarrow> s x) Q"
  by (cases v) simp_all

lemma returns_case_prod [post_rules]:
  "(\<And>x y. v = (x, y) \<Longrightarrow> returns (f x y) Q) \<Longrightarrow> returns (case v of (x, y) \<Rightarrow> f x y) Q"
  by (cases v) simp

end
