(* ===== verification/Targets.thy ===== *)
theory Targets
  imports Net_Io
begin

text \<open>
  The pure helpers at the end of \<open>src/protocols/proxy.rs\<close>: the target of an inbound
  request, the credentials it carries, the origin-form rewriting and protocol detection.
  The base64 engine of the \<open>base64\<close> crate is the argument \<open>b\<close>.
\<close>

section \<open>Counters, errors, bandwidth\<close>

definition as_u64 :: "nat \<Rightarrow> nat" where
  "as_u64 n = (if n < 2 ^ 64 then n else 2 ^ 64 - 1)"

definition auth_io_error :: "auth_error \<Rightarrow> proxy_error" where
  "auth_io_error e = Io (auth_error_display e)"

definition check_bandwidth :: "i64 option \<Rightarrow> string \<Rightarrow> unit io" where
  "check_bandwidth lim username =
     (case lim of
        None \<Rightarrow> ret ()
      | Some n \<Rightarrow>
          if n \<le> 0
          then andthen
                 (emit (InfoLog (''User '' @ username @ '' has no bandwidth remaining ('' @ dec_int n @ '')'')))
                 (fail BandwidthExceeded)
          else ret ())"

section \<open>Origin form\<close>

text \<open>\<open>request.windows(2).position(|w| w == CRLF)\<close>.\<close>

fun crlf_position :: "byte list \<Rightarrow> nat option" where
  "crlf_position (a # b # bs) =
     (if a = 13 \<and> b = 10 then Some 0 else map_option Suc (crlf_position (b # bs)))"
| "crlf_position _ = None"

definition strip_scheme :: "string \<Rightarrow> string option" where
  "strip_scheme uri =
     (case strip_prefix ''http://'' uri of
        Some rest \<Rightarrow> Some rest
      | None \<Rightarrow> strip_prefix ''https://'' uri)"

text \<open>\<open>rest.find('/')\<close>: the path from the first slash.\<close>

definition path_of :: "string \<Rightarrow> string" where
  "path_of rest =
     (case dropWhile (\<lambda>c. c \<noteq> CHR ''/'') rest of [] \<Rightarrow> ''/'' | p \<Rightarrow> p)"

definition to_origin_form :: "byte list \<Rightarrow> byte list" where
  "to_origin_form request =
     (case crlf_position request of
        None \<Rightarrow> request
      | Some line_end \<Rightarrow>
          (case from_utf8 (take line_end request) of
             None \<Rightarrow> request
           | Some first_line \<Rightarrow>
               (case split3 CHR '' '' first_line of
                  None \<Rightarrow> request
                | Some (verb, uri, version) \<Rightarrow>
                    (case strip_scheme uri of
                       None \<Rightarrow> request
                     | Some rest \<Rightarrow>
                         as_bytes (verb @ '' '' @ path_of rest @ '' '' @ version)
                         @ drop line_end request))))"

section \<open>Host and port\<close>

definition split_host_port :: "string \<Rightarrow> u16 \<Rightarrow> proxy_error + (string \<times> u16)" where
  "split_host_port authority default_port =
     (case rsplit_once CHR '':'' authority of
        Some (host, port) \<Rightarrow>
          (case parse_u16 port of
             None \<Rightarrow> Inl (Protocol ''invalid port'')
           | Some p \<Rightarrow> Inr (host, p))
      | None \<Rightarrow> Inr (authority, default_port))"

section \<open>Credentials\<close>

definition auth_header_prefix :: string where
  "auth_header_prefix = ''proxy-authorization: basic ''"

definition http_proxy_username :: "base64 \<Rightarrow> byte list \<Rightarrow> string option" where
  "http_proxy_username b request =
     (case find (lower_starts_with auth_header_prefix) (lines (from_utf8_lossy request)) of
        None \<Rightarrow> None
      | Some line \<Rightarrow>
          (case b64_decode b (trim (drop 27 line)) of
             None \<Rightarrow> None
           | Some decoded \<Rightarrow>
               (case from_utf8 decoded of
                  None \<Rightarrow> None
                | Some creds \<Rightarrow> Some (hd (split_char CHR '':'' creds)))))"

text \<open>\<open>iter().position(|b| b == 0)\<close>.\<close>

fun zero_position :: "byte list \<Rightarrow> nat option" where
  "zero_position [] = None"
| "zero_position (b # bs) = (if b = 0 then Some 0 else map_option Suc (zero_position bs))"

definition socks4_userid :: "byte list \<Rightarrow> string option" where
  "socks4_userid request =
     (if length request < 9 \<or> request ! 0 \<noteq> 4 then None
      else (case zero_position (drop 8 request) of
              None \<Rightarrow> None
            | Some e \<Rightarrow>
                if 8 < e + 8 then Some (from_utf8_lossy (take e (drop 8 request))) else None))"

section \<open>Targets of inbound requests\<close>

definition parse_connect_target :: "byte list \<Rightarrow> proxy_error + (string \<times> u16)" where
  "parse_connect_target request =
     (case lines (from_utf8_lossy request) of
        [] \<Rightarrow> Inl (Protocol ''empty CONNECT request'')
      | line # _ \<Rightarrow>
          (case split_whitespace line of
             _ # target # _ \<Rightarrow> split_host_port target 443
           | _ \<Rightarrow> Inl (Protocol ''malformed CONNECT line'')))"

text \<open>The second loop of \<open>parse_http_target\<close>: the first line that is a \<open>Host\<close> header.\<close>

fun host_header_target :: "string list \<Rightarrow> proxy_error + (string \<times> u16)" where
  "host_header_target [] = Inl (Protocol ''no target host in HTTP request'')"
| "host_header_target (line # ls) =
     (case (case strip_prefix ''Host:'' line of
              Some v \<Rightarrow> Some v
            | None \<Rightarrow> strip_prefix ''host:'' line) of
        Some value \<Rightarrow> split_host_port (trim value) 80
      | None \<Rightarrow> host_header_target ls)"

text \<open>The authority of an absolute-form URI in the request line.\<close>

definition absolute_authority :: "string \<Rightarrow> string option" where
  "absolute_authority line =
     (case split_whitespace line of
        _ # uri # _ \<Rightarrow>
          (case strip_scheme uri of
             None \<Rightarrow> None
           | Some rest \<Rightarrow>
               (let authority = hd (split_char CHR ''/'' rest)
                in if authority = [] then None else Some authority))
      | _ \<Rightarrow> None)"

definition parse_http_target :: "byte list \<Rightarrow> proxy_error + (string \<times> u16)" where
  "parse_http_target request =
     (let ls = lines (from_utf8_lossy request)
      in case ls of
           [] \<Rightarrow> Inl (Protocol ''empty HTTP request'')
         | line # _ \<Rightarrow>
             (case absolute_authority line of
                Some authority \<Rightarrow> split_host_port authority 80
              | None \<Rightarrow> host_header_target ls))"

definition port_of :: "byte \<Rightarrow> byte \<Rightarrow> u16" where
  "port_of hi lo = from_be_bytes hi lo"

definition dotted :: "byte list \<Rightarrow> string" where
  "dotted ip = join ''.'' (map (\<lambda>b. dec (unat b)) ip)"

definition parse_socks4_target :: "byte list \<Rightarrow> proxy_error + (string \<times> u16)" where
  "parse_socks4_target request =
     (if length request < 9 \<or> request ! 0 \<noteq> 4 then Inl (Protocol ''invalid SOCKS4 request'')
      else
        (let port = port_of (request ! 2) (request ! 3);
             ip = take 4 (drop 4 request);
             is_4a = (ip ! 0 = 0 \<and> ip ! 1 = 0 \<and> ip ! 2 = 0 \<and> ip ! 3 \<noteq> 0);
             after_user = dropWhile (\<lambda>b. b \<noteq> 0) (drop 8 request)
         in case after_user of
              [] \<Rightarrow> Inl (Protocol ''unterminated SOCKS4 user id'')
            | _ # rest \<Rightarrow>
                if is_4a then Inr (from_utf8_lossy (takeWhile (\<lambda>b. b \<noteq> 0) rest), port)
                else Inr (dotted ip, port)))"

section \<open>Protocol detection\<close>

definition http_methods :: "string list" where
  "http_methods = [''GET'', ''POST'', ''HEAD'', ''PUT'', ''DELETE'', ''OPTIONS'', ''TRACE'', ''PATCH'']"

definition detect_protocol :: "byte list \<Rightarrow> proxy_error + protocol" where
  "detect_protocol request =
     (case request of
        [] \<Rightarrow> Inl (Protocol ''Request too short'')
      | b # _ \<Rightarrow>
          if b = 5 then Inr Socks5
          else if b = 4 then Inr Socks4
          else (case lines (from_utf8_lossy (take (min (length request) 20) request)) of
                  [] \<Rightarrow> Inl (Protocol ''Invalid HTTP request'')
                | first_line # _ \<Rightarrow>
                    if starts_with ''CONNECT'' first_line then Inr Https
                    else if list_ex (\<lambda>m. starts_with m first_line) http_methods then Inr Http
                    else Inl UnsupportedProtocol))"

end
