(* ===== verification/Wire.thy ===== *)
theory Wire
  imports Targets
begin

text \<open>
  The messages the program sends to an upstream proxy: the SOCKS5 greeting,
  username/password request and \<open>CONNECT\<close> request, the SOCKS4a request and the HTTP
  \<open>CONNECT\<close> request, as \<open>src/protocols/chain.rs\<close> builds them (the single-hop handlers
  build the same bytes).  \<open>len as u8\<close> truncates, as in the source.
\<close>

definition len_u8 :: "string \<Rightarrow> byte" where
  "len_u8 s = of_nat (length s)"

definition socks5_greeting :: "proxy_config \<Rightarrow> byte list" where
  "socks5_greeting p =
     (if px_username p \<noteq> None \<and> px_password p \<noteq> None
      then [0x05, 0x02, 0x00, 0x02] else [0x05, 0x01, 0x00])"

definition socks5_auth_request :: "string \<Rightarrow> string \<Rightarrow> byte list" where
  "socks5_auth_request username password =
     [0x01] @ [len_u8 username] @ as_bytes username @ [len_u8 password] @ as_bytes password"

definition socks5_request :: "string \<Rightarrow> u16 \<Rightarrow> byte list" where
  "socks5_request host port =
     [0x05, 0x01, 0x00, 0x03] @ [len_u8 host] @ as_bytes host @ to_be_bytes port"

definition socks4_request :: "string \<Rightarrow> u16 \<Rightarrow> byte list" where
  "socks4_request host port =
     [0x04, 0x01] @ to_be_bytes port @ [0x00, 0x00, 0x00, 0x01] @ [0x00] @ as_bytes host @ [0x00]"

definition auth_header :: "base64 \<Rightarrow> proxy_config \<Rightarrow> string" where
  "auth_header b p =
     (case (px_username p, px_password p) of
        (Some username, Some password) \<Rightarrow>
          ''Proxy-Authorization: Basic '' @ encode_auth b username password @ CRLF
      | _ \<Rightarrow> [])"

text \<open>The target is \<open>host:port\<close>.\<close>

definition connect_head :: "base64 \<Rightarrow> proxy_config \<Rightarrow> string \<Rightarrow> byte list" where
  "connect_head b p target =
     as_bytes (''CONNECT '' @ target @ '' HTTP/1.1'' @ CRLF)
     @ as_bytes (''Host: '' @ target @ CRLF)
     @ as_bytes (auth_header b p)
     @ as_bytes CRLF"

definition connect_request :: "base64 \<Rightarrow> proxy_config \<Rightarrow> string \<Rightarrow> u16 \<Rightarrow> byte list" where
  "connect_request b p host port = connect_head b p (host @ '':'' @ dec (unat port))"

definition established :: string where
  "established = ''HTTP/1.1 200 Connection Established'' @ CRLF @ CRLF"

section \<open>Reading them back\<close>

text \<open>What the program's own inbound parsers make of the requests it sends.\<close>

lemma takeWhile_append_stop: "\<forall>x \<in> set xs. P x \<Longrightarrow> \<not> P y \<Longrightarrow> takeWhile P (xs @ y # ys) = xs"
  by (induction xs) auto

lemma byte_of_char_0 [simp]: "byte_of_char c = 0 \<longleftrightarrow> c = CHR 0x00"
proof
  assume "byte_of_char c = 0"
  then have "char_of_byte (byte_of_char c) = char_of_byte 0" by (rule arg_cong)
  then have "c = char_of_byte 0" by simp
  moreover have "char_of (0 :: nat) = CHR 0x00" by code_simp
  ultimately show "c = CHR 0x00" by (simp add: char_of_byte_def)
qed (simp add: byte_of_char_def)

lemma socks4_request_parse:
  assumes "valid_str host" and "CHR 0x00 \<notin> set host"
  shows "parse_socks4_target (socks4_request host port) = Inr (host, port)"
proof -
  have host: "\<forall>b \<in> set (as_bytes host). b \<noteq> 0"
    using assms(2) by (auto simp: as_bytes_def)
  obtain hi lo where hl: "to_be_bytes port = [hi, lo]" by (simp add: to_be_bytes_def)
  have port: "from_be_bytes hi lo = port"
    using from_be_bytes_to_be_bytes [of port] by (simp add: hl)
  have tw: "takeWhile (\<lambda>b. b \<noteq> 0) (as_bytes host @ [0]) = as_bytes host"
    using host by (intro takeWhile_append_stop) auto
  show ?thesis
    using port tw assms(1)
    by (simp add: parse_socks4_target_def socks4_request_def hl port_of_def
        from_utf8_lossy_as_bytes numeral_eq_Suc)
qed

lemma valid_str_ascii: "\<forall>c \<in> set s. ascii_char c \<Longrightarrow> valid_str s"
  by (simp add: utf8_valid_ascii ascii_as_bytes)

lemma split_host_port_join:
  "split_host_port (host @ '':'' @ dec (unat port)) d = Inr (host, port)"
proof -
  have "CHR '':'' \<notin> set (dec (unat port))"
    using dec_digits [of "unat port"] by (auto simp: list_all_iff is_digit_def)
  then show ?thesis by (simp add: split_host_port_def rsplit_once_last parse_u16_dec)
qed

lemma graphic_append [simp]: "graphic (s @ t) \<longleftrightarrow> graphic s \<and> graphic t"
  by (auto simp: graphic_def)

lemma graphic_no_LF: "graphic s \<Longrightarrow> LF \<notin> set s"
  by (auto simp: graphic_def)

lemma graphic_ascii: "graphic s \<Longrightarrow> \<forall>c \<in> set s. ascii_char c"
  by (simp add: graphic_def)

lemma auth_header_ascii: "base64_ok b \<Longrightarrow> \<forall>c \<in> set (auth_header b p). ascii_char c"
proof -
  assume "base64_ok b"
  then have "\<forall>c \<in> set (encode_auth b u v). ascii_char c" for u v
    by (simp add: base64_ok_def encode_auth_def graphic_def)
  moreover have "\<forall>c \<in> set (''Proxy-Authorization: Basic '' @ CRLF). ascii_char c"
    by (simp add: ascii_char_def)
  ultimately show ?thesis by (auto simp: auth_header_def split: option.split)
qed

lemma connect_request_parse:
  assumes "base64_ok b" and host: "graphic host"
  shows "parse_connect_target (connect_request b p host port) = Inr (host, port)"
proof -
  let ?t = "host @ '':'' @ dec (unat port)"
  let ?line = "''CONNECT '' @ ?t @ '' HTTP/1.1''"
  let ?rest = "''Host: '' @ host @ '':'' @ dec (unat port) @ CRLF @ auth_header b p @ CRLF"
  have "graphic '':''" by (simp add: graphic_def ascii_char_def)
  then have t: "graphic ?t" using host by (simp del: append_Cons append_Nil)
  have req: "connect_request b p host port = as_bytes (?line @ CRLF @ ?rest)"
    by (simp only: connect_request_def connect_head_def as_bytes_append append_assoc)
  have "\<forall>c \<in> set (?line @ CRLF @ ?rest). ascii_char c"
    using graphic_ascii [OF t] graphic_ascii [OF host] graphic_ascii [OF graphic_dec [of "unat port"]]
      auth_header_ascii [OF assms(1), of p]
    by (auto simp: ascii_char_def)
  then have msg: "from_utf8_lossy (connect_request b p host port) = ?line @ CRLF @ ?rest"
    unfolding req by (intro from_utf8_lossy_as_bytes valid_str_ascii)
  have "LF \<notin> set ?line" using graphic_no_LF [OF t] by auto
  then have ls: "lines (?line @ CRLF @ ?rest) = ?line # lines ?rest"
    by (rule lines_Cons_CRLF)
  have "graphic ''CONNECT''" by (simp add: graphic_def ascii_char_def)
  then have "split_whitespace ?line = ''CONNECT'' # split_whitespace (?t @ '' HTTP/1.1'')"
    using split_whitespace_word [of "''CONNECT''" "?t @ '' HTTP/1.1''"] by simp
  also have "split_whitespace (?t @ '' HTTP/1.1'') = ?t # split_whitespace ''HTTP/1.1''"
    using split_whitespace_word [OF t, of "''HTTP/1.1''"] by simp
  finally have "split_whitespace ?line = ''CONNECT'' # ?t # split_whitespace ''HTTP/1.1''" .
  then show ?thesis
    unfolding parse_connect_target_def msg ls by (simp add: split_host_port_join [simplified])
qed

section \<open>The origin form of a request line\<close>

lemma crlf_position_first:
  "13 \<notin> set l \<Longrightarrow> crlf_position (l @ 13 # 10 # r) = Some (length l)"
proof (induction l)
  case (Cons a l)
  then show ?case by (cases l) auto
qed simp

lemma graphic_no_space: "graphic s \<Longrightarrow> CHR '' '' \<notin> set s"
  by (auto simp: graphic_def)

lemma split3_words:
  "CHR '' '' \<notin> set a \<Longrightarrow> CHR '' '' \<notin> set b \<Longrightarrow>
    split3 CHR '' '' (a @ CHR '' '' # b @ CHR '' '' # c) = Some (a, b, c)"
  by (simp add: split3_def split_once_sep)

lemma graphic_bytes_no_CR: "graphic s \<Longrightarrow> 13 \<notin> set (as_bytes s)"
proof
  assume s: "graphic s" and "13 \<in> set (as_bytes s)"
  then obtain c where c: "c \<in> set s" "byte_of_char c = 13" by (auto simp: as_bytes_def)
  then have "c = char_of_byte 13" using char_of_byte_of_char [of c] by simp
  moreover have "char_of_byte 13 = CHR 0x0D" by code_simp
  ultimately show False using s c(1) by (auto simp: graphic_def)
qed

definition request_line :: "string \<Rightarrow> string \<Rightarrow> string \<Rightarrow> string" where
  "request_line verb uri version = verb @ '' '' @ uri @ '' '' @ version"

text \<open>The rewriting, on a request line of three graphic words; whatever follows is kept.\<close>

lemma to_origin_form_words:
  assumes "graphic verb" and "graphic uri" and "graphic version"
  shows "to_origin_form (as_bytes (request_line verb uri version) @ as_bytes CRLF @ rest) =
    as_bytes (request_line verb (case strip_scheme uri of None \<Rightarrow> uri | Some r \<Rightarrow> path_of r) version)
      @ as_bytes CRLF @ rest"
proof -
  let ?line = "request_line verb uri version"
  let ?req = "as_bytes ?line @ as_bytes CRLF @ rest"
  have asc: "\<forall>c \<in> set ?line. ascii_char c"
    using assms by (auto simp: request_line_def graphic_def ascii_char_def)
  have "byte_of_char CHR '' '' \<noteq> 13" by code_simp
  then have "13 \<notin> set (as_bytes ?line)"
    using assms graphic_bytes_no_CR by (auto simp: as_bytes_def request_line_def)
  moreover have "as_bytes CRLF = [13, 10]" by code_simp
  ultimately have pos: "crlf_position ?req = Some (length (as_bytes ?line))"
    using crlf_position_first [of "as_bytes ?line" rest] by simp
  have utf: "from_utf8 (as_bytes ?line) = Some ?line"
    using valid_str_ascii [OF asc] by (simp add: from_utf8_def)
  have words: "split3 CHR '' '' ?line = Some (verb, uri, version)"
    using split3_words [of verb uri version] assms graphic_no_space by (simp add: request_line_def)
  have cut: "take (length (as_bytes ?line)) ?req = as_bytes ?line"
    "drop (length (as_bytes ?line)) ?req = as_bytes CRLF @ rest"
    by (metis append_eq_conv_conj)+
  show ?thesis
    unfolding to_origin_form_def pos
    by (simp only: option.case cut utf words prod.case)
      (simp only: request_line_def split: option.split, simp)
qed

lemma path_of_after: "CHR ''/'' \<notin> set a \<Longrightarrow> path_of (a @ CHR ''/'' # p) = CHR ''/'' # p"
proof -
  assume "CHR ''/'' \<notin> set a"
  then have "dropWhile (\<lambda>c. c \<noteq> CHR ''/'') (a @ CHR ''/'' # p) = CHR ''/'' # p"
    by (induction a) auto
  then show ?thesis by (simp add: path_of_def)
qed

lemma path_of_none: "CHR ''/'' \<notin> set a \<Longrightarrow> path_of a = ''/''"
proof -
  assume "CHR ''/'' \<notin> set a"
  then have "dropWhile (\<lambda>c. c \<noteq> CHR ''/'') a = []" by (induction a) auto
  then show ?thesis by (simp only: path_of_def list.case)
qed

lemma strip_scheme_slash: "strip_scheme (CHR ''/'' # p) = None"
  by (simp add: strip_scheme_def strip_prefix_def starts_with_def)

section \<open>Properties\<close>

text \<open>
  C34. Origin form: an absolute-form request line loses scheme and authority, an empty path
  becomes a slash, everything after the line (binary bodies too) is untouched, and the
  result is a fixed point of the rewriting.
\<close>

theorem to_origin_form_absolute:
  assumes "graphic verb" and "graphic version" and "graphic auth" and "CHR ''/'' \<notin> set auth"
    and "graphic path" and "path = [] \<or> hd path = CHR ''/''" and "scheme \<in> {''http://'', ''https://''}"
  shows "to_origin_form (as_bytes (request_line verb (scheme @ auth @ path) version) @ as_bytes CRLF @ rest) =
       as_bytes (request_line verb (if path = [] then ''/'' else path) version) @ as_bytes CRLF @ rest
     \<and> to_origin_form (as_bytes (request_line verb (if path = [] then ''/'' else path) version) @ as_bytes CRLF @ rest) =
       as_bytes (request_line verb (if path = [] then ''/'' else path) version) @ as_bytes CRLF @ rest"
    (is "?rewritten \<and> ?kept")
proof
  let ?path = "if path = [] then ''/'' else path"
  have "strip_scheme (scheme @ auth @ path) = Some (auth @ path)"
    using assms(7) by (auto simp: strip_scheme_def strip_prefix_def starts_with_def)
  moreover have "path_of (auth @ path) = ?path"
    using assms(4,6) path_of_after [of auth] path_of_none by (cases path) auto
  moreover have "graphic (scheme @ auth @ path)"
    using assms(3,5,7) by (auto simp: graphic_def ascii_char_def)
  ultimately show ?rewritten using assms(1,2) by (simp only: to_origin_form_words option.case)
  have "graphic ?path" using assms(5) by (simp add: graphic_def ascii_char_def)
  moreover have "strip_scheme ?path = None"
    using assms(6) strip_scheme_slash by (cases path) auto
  ultimately show ?kept using assms(1,2) by (simp only: to_origin_form_words option.case)
qed

theorem to_origin_form_absolute_witness:
  "to_origin_form (as_bytes ''GET http://a.b:81/x?y HTTP/1.1'' @ as_bytes CRLF @ [255, 10]) =
     as_bytes ''GET /x?y HTTP/1.1'' @ as_bytes CRLF @ [255, 10]"
  using to_origin_form_absolute [of "''GET''" "''HTTP/1.1''" "''a.b:81''" "''/x?y''" "''http://''" "[255, 10]"]
  by (simp add: graphic_def ascii_char_def request_line_def)

text \<open>An engine that satisfies the contract: one letter per half byte.\<close>

definition nibble_char :: "nat \<Rightarrow> char" where
  "nibble_char n = char_of (65 + n)"

fun nibble_decode :: "string \<Rightarrow> byte list option" where
  "nibble_decode (x # y # s) =
     map_option ((#) (of_nat ((of_char x - 65) * 16 + (of_char y - 65)))) (nibble_decode s)"
| "nibble_decode _ = Some []"

definition nibble_codec :: base64 where
  "nibble_codec = \<lparr>b64_encode = (\<lambda>bs. concat (map (\<lambda>b. [nibble_char (unat b div 16), nibble_char (unat b mod 16)]) bs)),
     b64_decode = nibble_decode\<rparr>"

lemma of_nibble_char: "n < 16 \<Longrightarrow> (of_char (nibble_char n) :: nat) = 65 + n"
  by (simp add: nibble_char_def)

lemma nibble_codec_ok: "base64_ok nibble_codec"
proof -
  have hi: "unat b div 16 < 16" for b :: byte
    using unsigned_less [of b, where 'a = nat] by (simp add: less_mult_imp_div_less)
  have byte: "of_nat (unat b div 16 * 16 + unat b mod 16) = b" for b :: byte
    by (simp only: div_mult_mod_eq word_of_nat_eq_iff) simp
  have "nibble_decode (b64_encode nibble_codec bs) = Some bs" for bs
    by (induction bs) (simp_all add: nibble_codec_def of_nibble_char hi byte del: of_nat_add of_nat_mult)
  moreover have "graphic (b64_encode nibble_codec bs)" for bs
  proof -
    have "n < 16 \<Longrightarrow> ascii_char (nibble_char n) \<and> (32 :: nat) < of_char (nibble_char n)" for n
      by (simp add: ascii_char_def of_nibble_char)
    with hi show ?thesis by (auto simp: nibble_codec_def graphic_def)
  qed
  ultimately show ?thesis by (simp add: base64_ok_def nibble_codec_def)
qed

text \<open>
  The length byte of a SOCKS5 request is the host's length modulo 256 while all of its
  bytes are sent, so a name of 256 bytes or more is announced too short.
\<close>

theorem socks5_request_length_byte:
  "unat (socks5_request host port ! 4) = length host mod 256
     \<and> length (socks5_request host port) = 7 + length host"
  by (simp add: socks5_request_def len_u8_def unat_of_nat take_bit_eq_mod)

end
