(* ===== verification/Routing.thy ===== *)
theory Routing
  imports Config
begin

text \<open>
  \<open>src/routing.rs\<close>: routing tokens in the proxy username, the selection they stand for,
  matching a selection against an upstream's tags, the per-connection username of a
  templated upstream, and the choice of one candidate.  The random draw of the \<open>rand\<close>
  crate is an argument; its contract is \<open>draws_in_range\<close>.
\<close>

section \<open>Selections\<close>

definition KEYS :: "string list" where
  "KEYS = [''country'', ''state'', ''city'', ''isp'', ''type'', ''session'', ''chain'']"

record selection =
  sel_country :: "string list"
  sel_state :: "string list"
  sel_city :: "string list"
  sel_isp :: "string list"
  sel_kind :: "string list"
  sel_session :: "string option"
  sel_chain :: "string option"

datatype routing_error = UnknownKey string

text \<open>\<open>Selection::default()\<close>.\<close>

definition selection_default :: selection where
  "selection_default = \<lparr>sel_country = [], sel_state = [], sel_city = [], sel_isp = [],
     sel_kind = [], sel_session = None, sel_chain = None\<rparr>"

definition is_empty :: "selection \<Rightarrow> bool" where
  "is_empty s \<longleftrightarrow> sel_country s = [] \<and> sel_state s = [] \<and> sel_city s = [] \<and> sel_isp s = []
     \<and> sel_kind s = [] \<and> sel_session s = None \<and> sel_chain s = None"

definition only_session :: "selection \<Rightarrow> bool" where
  "only_session s \<longleftrightarrow> sel_country s = [] \<and> sel_state s = [] \<and> sel_city s = [] \<and> sel_isp s = []
     \<and> sel_kind s = []"

definition dim_ok :: "string list \<Rightarrow> string option \<Rightarrow> bool" where
  "dim_ok wanted tag =
     (if wanted = [] then True
      else (case tag of
              Some v \<Rightarrow> list_ex (\<lambda>w. eq_ignore_ascii_case w v) wanted
            | None \<Rightarrow> False))"

text \<open>\<open>Selection::matches\<close> (\<open>matches\<close> is \<open>sel_matches\<close> here).\<close>

definition sel_matches :: "selection \<Rightarrow> tags \<Rightarrow> bool" where
  "sel_matches s t \<longleftrightarrow> dim_ok (sel_country s) (tag_country t)
     \<and> dim_ok (sel_state s) (tag_state t)
     \<and> dim_ok (sel_city s) (tag_city t)
     \<and> dim_ok (sel_isp s) (tag_isp t)
     \<and> dim_ok (sel_kind s) (tag_kind t)"

definition templated :: "(string \<rightharpoonup> string) option \<Rightarrow> string \<Rightarrow> bool" where
  "templated prefixes dim = (case prefixes of None \<Rightarrow> False | Some p \<Rightarrow> p dim \<noteq> None)"

definition matches_upstream :: "selection \<Rightarrow> tags \<Rightarrow> (string \<rightharpoonup> string) option \<Rightarrow> bool" where
  "matches_upstream s t prefixes \<longleftrightarrow>
       (templated prefixes ''country'' \<or> dim_ok (sel_country s) (tag_country t))
     \<and> (templated prefixes ''state'' \<or> dim_ok (sel_state s) (tag_state t))
     \<and> (templated prefixes ''city'' \<or> dim_ok (sel_city s) (tag_city t))
     \<and> (templated prefixes ''isp'' \<or> dim_ok (sel_isp s) (tag_isp t))
     \<and> dim_ok (sel_kind s) (tag_kind t)"

section \<open>Parsing a username\<close>

text \<open>
  The first loop of \<open>parse_username\<close>: the index of the first known key that another part
  follows, else the number of parts.
\<close>

fun key_start :: "string list \<Rightarrow> nat" where
  "key_start [] = 0"
| "key_start [p] = 1"
| "key_start (p # q # ps) = (if p \<in> set KEYS then 0 else Suc (key_start (q # ps)))"

text \<open>The second loop, at the remaining parts \<open>parts[i..]\<close>; \<open>i += 2\<close> drops key and value.\<close>

definition value_set :: "string \<Rightarrow> string list" where
  "value_set value = filter (\<lambda>s. s \<noteq> []) (split_char CHR '','' value)"

definition set_dimension :: "string \<Rightarrow> string \<Rightarrow> selection \<Rightarrow> selection" where
  "set_dimension key value sel =
     (if key = ''country'' then sel\<lparr>sel_country := value_set value\<rparr>
      else if key = ''state'' then sel\<lparr>sel_state := value_set value\<rparr>
      else if key = ''city'' then sel\<lparr>sel_city := value_set value\<rparr>
      else if key = ''isp'' then sel\<lparr>sel_isp := value_set value\<rparr>
      else if key = ''type'' then sel\<lparr>sel_kind := value_set value\<rparr>
      else if key = ''session'' then
        sel\<lparr>sel_session := (if value \<noteq> [] then Some value else None)\<rparr>
      else sel)"

fun parse_tokens :: "string list \<Rightarrow> selection \<Rightarrow> routing_error + selection" where
  "parse_tokens [] sel = Inr sel"
| "parse_tokens (key # rest) sel =
     (if key \<notin> set KEYS then Inl (UnknownKey key)
      else if key = ''chain'' then
        (let value = join ''-'' rest
         in Inr (sel\<lparr>sel_chain := (if value \<noteq> [] then Some value else None)\<rparr>))
      else
        (let value = (case rest of [] \<Rightarrow> [] | v # _ \<Rightarrow> v)
         in parse_tokens (drop 1 rest) (set_dimension key value sel)))"

definition parse_username :: "string \<Rightarrow> routing_error + (string \<times> selection)" where
  "parse_username username =
     (let parts = split_char CHR ''-'' username;
          k = key_start parts;
          base = join ''-'' (take k parts)
      in case parse_tokens (drop k parts) selection_default of
           Inl e \<Rightarrow> Inl e
         | Inr sel \<Rightarrow> Inr (base, sel))"

section \<open>Choosing one of several\<close>

text \<open>FNV-1a over the bytes of the session id, 64 bits, wrapping multiplication.\<close>

definition fnv_step :: "u64 \<Rightarrow> byte \<Rightarrow> u64" where
  "fnv_step hash b = (hash XOR ucast b) * 0x00000100000001b3"

definition fnv1a :: "string \<Rightarrow> u64" where
  "fnv1a s = foldl fnv_step 0xcbf29ce484222325 (as_bytes s)"

text \<open>
  \<open>rng len\<close> is what \<open>random_range(0..len)\<close> returns.  \<open>fnv1a(s) as usize\<close> keeps all 64
  bits on the 64-bit targets the program is built for.
\<close>

definition pick_index :: "(nat \<Rightarrow> nat) \<Rightarrow> nat \<Rightarrow> string option \<Rightarrow> nat option" where
  "pick_index rng len session =
     (if len = 0 then None
      else (case session of
              Some s \<Rightarrow> Some (unat (fnv1a s) mod len)
            | None \<Rightarrow> Some (rng len)))"

definition draws_in_range :: "(nat \<Rightarrow> nat) \<Rightarrow> bool" where
  "draws_in_range rng \<longleftrightarrow> (\<forall>n. 0 < n \<longrightarrow> rng n < n)"

section \<open>Templated usernames\<close>

text \<open>
  The loop of \<open>build_username\<close> over the four dimensions, in the source's order; draw
  number \<open>d\<close> of the connection is \<open>rng d\<close>.
\<close>

definition push_dim ::
  "(nat \<Rightarrow> nat) \<Rightarrow> (string \<rightharpoonup> string) \<Rightarrow> string option \<Rightarrow> string \<Rightarrow> string list \<Rightarrow> string \<Rightarrow> string"
where
  "push_dim rng prefixes session dim vals out =
     (case pick_index rng (length vals) session of
        Some i \<Rightarrow> (case prefixes dim of Some prefix \<Rightarrow> out @ prefix @ vals ! i | None \<Rightarrow> out)
      | None \<Rightarrow> out)"

definition build_username ::
  "(nat \<Rightarrow> nat \<Rightarrow> nat) \<Rightarrow> string \<Rightarrow> (string \<rightharpoonup> string) \<Rightarrow> selection \<Rightarrow> string"
where
  "build_username rng base prefixes sel =
     (let session = sel_session sel;
          out1 = push_dim (rng 0) prefixes session ''country'' (sel_country sel) base;
          out2 = push_dim (rng 1) prefixes session ''state'' (sel_state sel) out1;
          out3 = push_dim (rng 2) prefixes session ''city'' (sel_city sel) out2;
          out4 = push_dim (rng 3) prefixes session ''isp'' (sel_isp sel) out3
      in case session of
           None \<Rightarrow> out4
         | Some s \<Rightarrow>
             (case prefixes ''session'' of
                Some prefix \<Rightarrow> out4 @ prefix @ s
              | None \<Rightarrow> out4))"

section \<open>Lemmas on selections and matching\<close>

lemma is_empty_default [simp]: "is_empty selection_default"
  by (simp add: is_empty_def selection_default_def)

lemma dim_ok_Nil [simp]: "dim_ok [] t"
  by (simp add: dim_ok_def)

lemma templated_None [simp]: "\<not> templated None d"
  by (simp add: templated_def)

lemma pick_index_less:
  "draws_in_range rng \<Longrightarrow> pick_index rng len session = Some i \<Longrightarrow> i < len"
  by (auto simp: pick_index_def draws_in_range_def split: if_splits option.splits)

lemma pick_index_None [simp]: "pick_index rng len session = None \<longleftrightarrow> len = 0"
  by (auto simp: pick_index_def split: option.splits)

lemma push_dim_Nil [simp]: "push_dim rng prefixes session dim [] out = out"
  by (simp add: push_dim_def pick_index_def)

section \<open>Lemmas on parsing\<close>

lemma key_start_no_key:
  "\<forall>p \<in> set ps. p \<notin> set KEYS \<Longrightarrow> ks \<noteq> [] \<Longrightarrow> k \<in> set KEYS \<Longrightarrow>
    key_start (ps @ k # ks) = length ps"
proof (induction ps)
  case Nil
  then show ?case by (cases ks) auto
next
  case (Cons p ps)
  then obtain q qs where "ps @ k # ks = q # qs" by (cases "ps @ k # ks") auto
  with Cons show ?case by auto
qed

lemma key_start_none: "\<forall>p \<in> set (butlast ps). p \<notin> set KEYS \<Longrightarrow> key_start ps = length ps"
  by (induction ps rule: key_start.induct) auto

lemma parse_tokens_UnknownKey:
  "parse_tokens ps sel = Inl (UnknownKey k) \<Longrightarrow> k \<in> set ps \<and> k \<notin> set KEYS"
proof (induction ps sel rule: parse_tokens.induct)
  case (2 key rest sel)
  then show ?case by (auto simp: Let_def split: if_splits dest: in_set_dropD)
qed simp

lemma value_set_join:
  "vs \<noteq> [] \<Longrightarrow> \<forall>v \<in> set vs. v \<noteq> [] \<and> CHR '','' \<notin> set v \<Longrightarrow> value_set (join '','' vs) = vs"
  by (simp add: value_set_def split_join)

section \<open>Writing a selection back\<close>

text \<open>
  The username that spells a selection: the base, then each constrained dimension as
  \<open>key-value\<close> with commas between several values, then session and chain.
\<close>

definition render_dim :: "string \<Rightarrow> string list \<Rightarrow> string list" where
  "render_dim key vals = (if vals = [] then [] else [key, join '','' vals])"

definition render_tokens :: "selection \<Rightarrow> string list" where
  "render_tokens sel =
     render_dim ''country'' (sel_country sel) @ render_dim ''state'' (sel_state sel)
     @ render_dim ''city'' (sel_city sel) @ render_dim ''isp'' (sel_isp sel)
     @ render_dim ''type'' (sel_kind sel)
     @ (case sel_session sel of None \<Rightarrow> [] | Some s \<Rightarrow> [''session'', s])
     @ (case sel_chain sel of None \<Rightarrow> [] | Some c \<Rightarrow> ''chain'' # split_char CHR ''-'' c)"

definition render_username :: "string \<Rightarrow> selection \<Rightarrow> string" where
  "render_username base sel = join ''-'' (split_char CHR ''-'' base @ render_tokens sel)"

definition plain_value :: "string \<Rightarrow> bool" where
  "plain_value v \<longleftrightarrow> v \<noteq> [] \<and> CHR '','' \<notin> set v \<and> CHR ''-'' \<notin> set v"

definition selection_ok :: "selection \<Rightarrow> bool" where
  "selection_ok sel \<longleftrightarrow>
     list_all plain_value (sel_country sel @ sel_state sel @ sel_city sel @ sel_isp sel @ sel_kind sel)
     \<and> (case sel_session sel of None \<Rightarrow> True | Some s \<Rightarrow> s \<noteq> [] \<and> CHR ''-'' \<notin> set s)
     \<and> sel_chain sel \<noteq> Some []"

definition base_ok :: "string \<Rightarrow> bool" where
  "base_ok base \<longleftrightarrow> list_all (\<lambda>p. p \<notin> set KEYS) (split_char CHR ''-'' base)"

definition put_dim :: "string \<Rightarrow> string list \<Rightarrow> selection \<Rightarrow> selection" where
  "put_dim key vals s =
     (if vals = [] then s
      else if key = ''country'' then s\<lparr>sel_country := vals\<rparr>
      else if key = ''state'' then s\<lparr>sel_state := vals\<rparr>
      else if key = ''city'' then s\<lparr>sel_city := vals\<rparr>
      else if key = ''isp'' then s\<lparr>sel_isp := vals\<rparr>
      else s\<lparr>sel_kind := vals\<rparr>)"

lemma parse_render_dim:
  assumes "list_all plain_value vals"
    and "key \<in> {''country'', ''state'', ''city'', ''isp'', ''type''}"
  shows "parse_tokens (render_dim key vals @ rest) s = parse_tokens rest (put_dim key vals s)"
proof (cases "vals = []")
  case False
  with assms(1) have "value_set (join '','' vals) = vals"
    by (intro value_set_join) (auto simp: list_all_iff plain_value_def)
  with False assms(2) show ?thesis
    by (auto simp: render_dim_def put_dim_def set_dimension_def KEYS_def)
qed (simp add: render_dim_def put_dim_def)

lemma parse_render_tail:
  assumes "case session of None \<Rightarrow> True | Some v \<Rightarrow> v \<noteq> [] \<and> CHR ''-'' \<notin> set v" and "chain \<noteq> Some []"
  shows "parse_tokens ((case session of None \<Rightarrow> [] | Some v \<Rightarrow> [''session'', v])
      @ (case chain of None \<Rightarrow> [] | Some c \<Rightarrow> ''chain'' # split_char CHR ''-'' c)) s =
    Inr (s\<lparr>sel_session := (case session of None \<Rightarrow> sel_session s | Some v \<Rightarrow> Some v),
           sel_chain := (case chain of None \<Rightarrow> sel_chain s | Some c \<Rightarrow> Some c)\<rparr>)"
  using assms
  by (cases session; cases chain) (auto simp: KEYS_def set_dimension_def join_split Let_def)

text \<open>Writing a dimension that is still unset is a plain record update, for the empty list too.\<close>

lemma put_dim_unset:
  "sel_country s = [] \<Longrightarrow> put_dim ''country'' vs s = s\<lparr>sel_country := vs\<rparr>"
  "sel_state s = [] \<Longrightarrow> put_dim ''state'' vs s = s\<lparr>sel_state := vs\<rparr>"
  "sel_city s = [] \<Longrightarrow> put_dim ''city'' vs s = s\<lparr>sel_city := vs\<rparr>"
  "sel_isp s = [] \<Longrightarrow> put_dim ''isp'' vs s = s\<lparr>sel_isp := vs\<rparr>"
  "sel_kind s = [] \<Longrightarrow> put_dim ''type'' vs s = s\<lparr>sel_kind := vs\<rparr>"
  by (simp_all add: put_dim_def)

lemma parse_render_tokens:
  assumes "selection_ok sel"
  shows "parse_tokens (render_tokens sel) selection_default = Inr sel"
proof -
  have vals: "list_all plain_value (sel_country sel)" "list_all plain_value (sel_state sel)"
      "list_all plain_value (sel_city sel)" "list_all plain_value (sel_isp sel)"
      "list_all plain_value (sel_kind sel)"
    and tail: "case sel_session sel of None \<Rightarrow> True | Some v \<Rightarrow> v \<noteq> [] \<and> CHR ''-'' \<notin> set v"
      "sel_chain sel \<noteq> Some []"
    using assms by (simp_all add: selection_ok_def)
  have "parse_tokens (render_tokens sel) selection_default =
      Inr (selection_default\<lparr>sel_country := sel_country sel, sel_state := sel_state sel,
        sel_city := sel_city sel, sel_isp := sel_isp sel, sel_kind := sel_kind sel,
        sel_session := sel_session sel, sel_chain := sel_chain sel\<rparr>)"
    unfolding render_tokens_def
    by (simp add: parse_render_dim vals parse_render_tail [OF tail])
      (simp add: put_dim_unset selection_default_def option.case_eq_if)
  then show ?thesis by simp
qed

lemma join_comma_dash: "\<forall>v \<in> set vs. CHR ''-'' \<notin> set v \<Longrightarrow> CHR ''-'' \<notin> set (join '','' vs)"
proof (induction vs)
  case (Cons v vs)
  then show ?case by (cases vs) auto
qed simp

lemma render_tokens_parts:
  assumes "selection_ok sel" and "p \<in> set (render_tokens sel)"
  shows "CHR ''-'' \<notin> set p"
proof -
  have dim: "CHR ''-'' \<notin> set p"
    if "p \<in> set (render_dim key vals)" "list_all plain_value vals"
      "key \<in> {''country'', ''state'', ''city'', ''isp'', ''type''}" for key vals
    using that join_comma_dash [of vals]
    by (auto simp: render_dim_def list_all_iff plain_value_def split: if_splits)
  show ?thesis
    using assms dim
    by (auto simp: render_tokens_def selection_ok_def dest: split_char_parts split: option.splits)
qed

lemma render_tokens_key:
  "render_tokens sel = [] \<or> (\<exists>k ks. render_tokens sel = k # ks \<and> k \<in> set KEYS \<and> ks \<noteq> [])"
  by (auto simp: render_tokens_def render_dim_def KEYS_def split: option.split)

text \<open>
  A base whose parts are no routing keys, with the tokens of a selection, parses back; so does
  any base at all with no tokens, when no part but the last is a key.
\<close>

lemma parse_render:
  assumes base: "base_ok base" and sel: "selection_ok sel"
  shows "parse_username (render_username base sel) = Inr (base, sel)"
proof -
  let ?ps = "split_char CHR ''-'' base"
  have parts: "split_char CHR ''-'' (render_username base sel) = ?ps @ render_tokens sel"
    unfolding render_username_def
    by (rule split_join) (auto dest: split_char_parts render_tokens_parts [OF sel])
  have nokey: "\<forall>p \<in> set ?ps. p \<notin> set KEYS" using base by (simp add: base_ok_def list_all_iff)
  have "key_start (?ps @ render_tokens sel) = length ?ps"
    using render_tokens_key [of sel]
  proof
    assume "render_tokens sel = []"
    then show ?thesis using nokey by (auto intro!: key_start_none dest: in_set_butlastD)
  next
    assume "\<exists>k ks. render_tokens sel = k # ks \<and> k \<in> set KEYS \<and> ks \<noteq> []"
    then show ?thesis using key_start_no_key [OF nokey] by auto
  qed
  then show ?thesis
    by (simp add: parse_username_def parts parse_render_tokens [OF sel] join_split)
qed

section \<open>What the parser produces\<close>

lemma value_set_plain: "CHR ''-'' \<notin> set v \<Longrightarrow> list_all plain_value (value_set v)"
  by (auto simp: value_set_def list_all_iff plain_value_def dest: split_char_parts split_char_subset [THEN subsetD])

lemma set_dimension_ok:
  assumes "selection_ok sel" and "CHR ''-'' \<notin> set v"
  shows "selection_ok (set_dimension key v sel)"
  using assms value_set_plain [OF assms(2)] by (simp add: selection_ok_def set_dimension_def)

lemma parse_tokens_ok:
  "parse_tokens ps sel = Inr sel' \<Longrightarrow> \<forall>p \<in> set ps. CHR ''-'' \<notin> set p \<Longrightarrow> selection_ok sel \<Longrightarrow>
     selection_ok sel'"
proof (induction ps sel rule: parse_tokens.induct)
  case (2 key rest sel)
  let ?v = "case rest of [] \<Rightarrow> [] | v # _ \<Rightarrow> v"
  have "CHR ''-'' \<notin> set ?v" using "2.prems"(2) by (auto split: list.split)
  then have next_ok: "selection_ok (set_dimension key ?v sel)"
    using "2.prems"(3) by (rule set_dimension_ok [rotated])
  show ?case
  proof (cases "key = ''chain''")
    case True
    with "2.prems" show ?thesis
      by (auto simp: selection_ok_def Let_def KEYS_def split: if_splits option.splits)
  next
    case False
    with "2.prems"(1) have "key \<in> set KEYS"
      and rest: "parse_tokens (drop 1 rest) (set_dimension key ?v sel) = Inr sel'"
      by (auto simp: Let_def split: if_splits)
    from "2.IH" [OF _ _ refl rest _ next_ok] this(1) False "2.prems"(2) show ?thesis
      by (auto dest: in_set_dropD)
  qed
qed simp

lemma key_start_le: "key_start ps \<le> length ps"
  by (induction ps rule: key_start.induct) auto

lemma key_start_before: "key_start ps < length ps \<Longrightarrow> p \<in> set (take (key_start ps) ps) \<Longrightarrow> p \<notin> set KEYS"
  by (induction ps rule: key_start.induct) (auto split: if_splits)

lemma selection_default_ok [simp]: "selection_ok selection_default"
  by (simp add: selection_ok_def selection_default_def)

lemma parse_username_ok: "parse_username u = Inr (base, sel) \<Longrightarrow> selection_ok sel"
  by (auto simp: parse_username_def Let_def split: sum.splits
      dest!: parse_tokens_ok in_set_dropD split_char_parts)

lemma parse_username_base:
  assumes "parse_username u = Inr (base, sel)"
  shows "base_ok base \<or> base = u \<and> sel = selection_default"
proof -
  let ?ps = "split_char CHR ''-'' u"
  let ?k = "key_start ?ps"
  have base: "base = join ''-'' (take ?k ?ps)" and tokens: "parse_tokens (drop ?k ?ps) selection_default = Inr sel"
    using assms by (auto simp: parse_username_def Let_def split: sum.splits)
  show ?thesis
  proof (cases "?k < length ?ps")
    case True
    have "split_char CHR ''-'' base = (if take ?k ?ps = [] then [[]] else take ?k ?ps)"
      unfolding base by (auto simp: split_char_no_sep intro!: split_join dest: in_set_takeD split_char_parts)
    with key_start_before [OF True] show ?thesis
      by (auto simp: base_ok_def list_all_iff KEYS_def)
  next
    case False
    then have "?k = length ?ps" using key_start_le [of ?ps] by simp
    with base tokens show ?thesis by (simp add: join_split)
  qed
qed

section \<open>Properties\<close>

text \<open>
  C21. Round trip: a base name none of whose dash-separated parts is a routing key, with the
  tokens of any selection (several values per dimension, session, a chain name that may
  itself contain dashes), parses back to that base and that selection.
\<close>

theorem parse_render_username:
  assumes "base_ok base" and "selection_ok sel"
  shows "parse_username (render_username base sel) = Inr (base, sel)"
  using assms by (rule parse_render)

definition sample_selection :: selection where
  "sample_selection = selection_default\<lparr>sel_country := [''us'', ''de''], sel_session := Some ''s1'',
     sel_chain := Some ''local-exit''\<rparr>"

theorem parse_render_username_witness:
  "parse_username ''bob-x-country-us,de-session-s1-chain-local-exit'' = Inr (''bob-x'', sample_selection)"
proof -
  have "base_ok ''bob-x''" "selection_ok sample_selection" by code_simp+
  moreover have "render_username ''bob-x'' sample_selection
      = ''bob-x-country-us,de-session-s1-chain-local-exit''" by code_simp
  ultimately show ?thesis using parse_render_username [of "''bob-x''" sample_selection] by simp
qed

text \<open>
  C22. What the parser produces is a selection in normal form (no empty value, no separator
  inside a value, no empty session or chain), and writing the result out and parsing it again
  gives the same base and selection: every accepted username stands for exactly one canonical
  one.  Every rejected one has a part that is no routing key, and the error names it.
\<close>

theorem parse_username_normal:
  "case parse_username u of
     Inl (UnknownKey k) \<Rightarrow> k \<in> set (split_char CHR ''-'' u) \<and> k \<notin> set KEYS
   | Inr (base, sel) \<Rightarrow>
       selection_ok sel \<and> parse_username (render_username base sel) = Inr (base, sel)"
proof (cases "parse_username u")
  case (Inl e)
  then show ?thesis
    using parse_tokens_UnknownKey
    by (cases e) (fastforce simp: parse_username_def Let_def split: sum.splits dest: in_set_dropD)
next
  case (Inr y)
  obtain base sel where y: "y = (base, sel)" by (cases y)
  note parsed = Inr [unfolded y]
  have ok: "selection_ok sel" using parsed by (rule parse_username_ok)
  have "parse_username (render_username base sel) = Inr (base, sel)"
    using parse_username_base [OF parsed]
  proof
    assume "base_ok base"
    with ok show ?thesis by (rule parse_render [rotated])
  next
    assume d: "base = u \<and> sel = selection_default"
    then have "render_username base sel = u"
      by (simp add: render_username_def render_tokens_def render_dim_def selection_default_def join_split)
    with parsed show ?thesis by simp
  qed
  with ok parsed show ?thesis by simp
qed

lemma parse_username_samples:
  "parse_username ''bob-isp-a,,b-country-us-session-'' =
     Inr (''bob'', selection_default\<lparr>sel_country := [''us''], sel_isp := [''a'', ''b'']\<rparr>)"
  "parse_username ''bob-country-us-planet-mars'' = Inl (UnknownKey ''planet'')"
  by code_simp+

end
