(* ===== verification/Upstreams.thy ===== *)
theory Upstreams
  imports Config
begin

text \<open>
  \<open>src/upstreams.rs\<close>: upstream rows of the database as proxy configurations.  A row has
  the columns of the table that the query's \<open>SELECT\<close> list and \<open>WHERE\<close> clause name.
\<close>

record upstream_row =
  ur_label :: "string option"
  ur_proxy_type :: string
  ur_address :: string
  ur_port :: "int option"
  ur_username :: "string option"
  ur_password :: "string option"
  ur_country :: "string option"
  ur_state :: "string option"
  ur_city :: "string option"
  ur_isp :: "string option"
  ur_kind :: "string option"
  ur_cost_per_byte :: f64
  ur_enabled :: bool
  ur_expires_at :: "int option"

definition protocol_from_str :: "string \<Rightarrow> protocol" where
  "protocol_from_str s =
     (let l = to_ascii_lowercase s in
      if l = ''http'' then Http
      else if l = ''https'' then Https
      else if l = ''socks4'' then Socks4
      else Socks5)"

text \<open>\<open>u16::try_from(p).ok()\<close> on an \<open>i32\<close>.\<close>

definition u16_try_from :: "int \<Rightarrow> u16 option" where
  "u16_try_from p = (if 0 \<le> p \<and> p < 65536 then Some (of_int p) else None)"

definition build_proxy ::
  "string option \<Rightarrow> string \<Rightarrow> string \<Rightarrow> int option \<Rightarrow> string option \<Rightarrow> string option \<Rightarrow>
   string option \<Rightarrow> string option \<Rightarrow> string option \<Rightarrow> string option \<Rightarrow> string option \<Rightarrow> f64 \<Rightarrow>
   proxy_config"
where
  "build_proxy label proxy_type address port username password country state city isp kind cost =
     \<lparr>px_label = label,
      px_type = protocol_from_str proxy_type,
      px_address = address,
      px_port = Option.bind port u16_try_from,
      px_username = username,
      px_password = password,
      px_tags = \<lparr>tag_country = country, tag_state = state, tag_city = city,
                 tag_isp = isp, tag_kind = kind\<rparr>,
      px_cost_per_byte = cost,
      px_username_prefixes = None\<rparr>"

definition row_to_proxy :: "upstream_row \<Rightarrow> proxy_config" where
  "row_to_proxy row =
     build_proxy (ur_label row) (ur_proxy_type row) (ur_address row) (ur_port row)
       (ur_username row) (ur_password row) (ur_country row) (ur_state row) (ur_city row)
       (ur_isp row) (ur_kind row) (ur_cost_per_byte row)"

text \<open>The \<open>WHERE\<close> clause of \<open>UPSTREAM_SELECT\<close> at the database's time \<open>now\<close>.\<close>

definition upstream_select :: "int \<Rightarrow> upstream_row \<Rightarrow> bool" where
  "upstream_select now row \<longleftrightarrow>
     ur_enabled row \<and> (case ur_expires_at row of None \<Rightarrow> True | Some t \<Rightarrow> now < t)"

text \<open>
  \<open>load_dynamic_upstreams\<close>: the query fails (\<open>Inl\<close>) or returns the selected rows.
\<close>

definition load_dynamic_upstreams ::
  "string option \<Rightarrow> int \<Rightarrow> upstream_row list \<Rightarrow> string + proxy_config list"
where
  "load_dynamic_upstreams query_error now table =
     (case query_error of
        Some e \<Rightarrow> Inl e
      | None \<Rightarrow> Inr (map row_to_proxy (filter (upstream_select now) table)))"

lemma row_to_proxy_templates [simp]: "px_username_prefixes (row_to_proxy r) = None"
  by (simp add: row_to_proxy_def build_proxy_def)

end
