(* ===== verification/Resolve.thy ===== *)
theory Resolve
  imports Routing Upstreams Net_Io
begin

text \<open>
  The upstream a connection uses: \<open>ProxyServer\<close>'s live upstream set and the resolution of
  a routing selection in \<open>src/protocols/proxy.rs\<close>.  A resolution sees one snapshot of the
  upstream set; the draws of the \<open>rand\<close> crate are the argument \<open>rnd\<close>, with its documented
  range as \<open>rand_ok\<close>.
\<close>

section \<open>The server's state\<close>

record server =
  sv_proxies :: "proxy_config list"
  sv_chains :: "chain_config list option"
  sv_config :: router_config

definition server_new :: "proxy_config list \<Rightarrow> chain_config list option \<Rightarrow> router_config \<Rightarrow> server" where
  "server_new ps chs cfg = \<lparr>sv_proxies = ps, sv_chains = chs, sv_config = cfg\<rparr>"

definition replace_upstreams :: "server \<Rightarrow> proxy_config list \<Rightarrow> proxy_config list \<Rightarrow> server" where
  "replace_upstreams s static_upstreams dynamic = s\<lparr>sv_proxies := static_upstreams @ dynamic\<rparr>"

section \<open>Randomness\<close>

text \<open>
  \<open>rnd_pick n\<close>: the draw of \<open>pick_index\<close> among \<open>n\<close> candidates; \<open>rnd_user j d n\<close>: the draw for
  dimension \<open>d\<close> of the \<open>j\<close>-th proxy's username; \<open>rnd_perm n\<close>: the order \<open>shuffle\<close> leaves
  \<open>n\<close> elements in.
\<close>

record rand =
  rnd_pick :: "nat \<Rightarrow> nat"
  rnd_user :: "nat \<Rightarrow> nat \<Rightarrow> nat \<Rightarrow> nat"
  rnd_perm :: "nat \<Rightarrow> nat list"

definition rand_ok :: "rand \<Rightarrow> bool" where
  "rand_ok r \<longleftrightarrow> draws_in_range (rnd_pick r) \<and> (\<forall>j d. draws_in_range (rnd_user r j d))
     \<and> (\<forall>n. distinct (rnd_perm r n) \<and> set (rnd_perm r n) = {..<n})"

definition shuffle :: "rand \<Rightarrow> 'a list \<Rightarrow> 'a list" where
  "shuffle r xs = map (\<lambda>i. xs ! i) (rnd_perm r (length xs))"

section \<open>Resolution\<close>

definition find_label :: "proxy_config list \<Rightarrow> string \<Rightarrow> proxy_config option" where
  "find_label proxies name = find (\<lambda>p. px_label p = Some name) proxies"

text \<open>The loop of \<open>resolve_ref\<close> that collects a chain's proxies by label.\<close>

fun collect_labels :: "proxy_config list \<Rightarrow> string \<Rightarrow> string list \<Rightarrow> fault + proxy_config list" where
  "collect_labels proxies name [] = Inr []"
| "collect_labels proxies name (label # labels) =
     (case find_label proxies label of
        None \<Rightarrow> Inl (Fail (Protocol (''Proxy '' @ CHR 0x27 # label @ CHR 0x27 # '' not found in chain ''
                  @ CHR 0x27 # name @ [CHR 0x27])))
      | Some p \<Rightarrow>
          (case collect_labels proxies name labels of
             Inl f \<Rightarrow> Inl f
           | Inr ps \<Rightarrow> Inr (p # ps)))"

definition apply_mode :: "rand \<Rightarrow> chain_config \<Rightarrow> proxy_config list \<Rightarrow> fault + proxy_config list" where
  "apply_mode rnd chain ps =
     (case ch_mode chain of
        Strict \<Rightarrow> Inr ps
      | Random \<Rightarrow>
          (case ch_count chain of
             Some k \<Rightarrow> Inr (take (min k (length ps)) (shuffle rnd ps))
           | None \<Rightarrow>
               (case shuffle rnd ps of
                  [] \<Rightarrow> Inl (Panic ''called `Option::unwrap()` on a `None` value'')
                | p # _ \<Rightarrow> Inr [p])))"

definition not_found :: "string \<Rightarrow> fault" where
  "not_found name =
     Fail (Protocol (''Chain or proxy '' @ CHR 0x27 # name @ CHR 0x27 # '' not found''))"

definition resolve_ref :: "rand \<Rightarrow> server \<Rightarrow> string \<Rightarrow> fault + proxy_config list" where
  "resolve_ref rnd s name =
     (case find_label (sv_proxies s) name of
        Some p \<Rightarrow> Inr [p]
      | None \<Rightarrow>
          (case sv_chains s of
             None \<Rightarrow> Inl (not_found name)
           | Some chs \<Rightarrow>
               (case find (\<lambda>c. ch_id c = name) chs of
                  None \<Rightarrow> Inl (not_found name)
                | Some chain \<Rightarrow>
                    (case collect_labels (sv_proxies s) name (ch_proxies chain) of
                       Inl f \<Rightarrow> Inl f
                     | Inr ps \<Rightarrow> apply_mode rnd chain ps))))"

definition resolve_global_chain :: "rand \<Rightarrow> server \<Rightarrow> fault + proxy_config list" where
  "resolve_global_chain rnd s =
     (case rc_chain (sv_config s) of
        Some chain_ref \<Rightarrow> resolve_ref rnd s chain_ref
      | None \<Rightarrow>
          (case sv_proxies s of
             [] \<Rightarrow> Inl (Fail (Protocol ''No proxy configuration available''))
           | p # _ \<Rightarrow> Inr [p]))"

definition candidates :: "server \<Rightarrow> selection \<Rightarrow> proxy_config list" where
  "candidates s sel =
     filter (\<lambda>p. matches_upstream sel (px_tags p) (px_username_prefixes p)) (sv_proxies s)"

definition resolve_chain_inner :: "rand \<Rightarrow> server \<Rightarrow> selection \<Rightarrow> fault + proxy_config list" where
  "resolve_chain_inner rnd s sel =
     (case sel_chain sel of
        Some name \<Rightarrow> resolve_ref rnd s name
      | None \<Rightarrow>
          if \<not> only_session sel then
            (case pick_index (rnd_pick rnd) (length (candidates s sel)) (sel_session sel) of
               None \<Rightarrow> Inl (Fail NoMatchingUpstream)
             | Some idx \<Rightarrow> Inr [candidates s sel ! idx])
          else resolve_global_chain rnd s)"

text \<open>The loop of \<open>resolve_proxy_chain\<close>; \<open>j\<close> numbers the proxies.\<close>

definition apply_template :: "rand \<Rightarrow> selection \<Rightarrow> nat \<Rightarrow> proxy_config \<Rightarrow> proxy_config" where
  "apply_template rnd sel j p =
     (case px_username_prefixes p of
        None \<Rightarrow> p
      | Some prefixes \<Rightarrow>
          (let base = (case px_username p of None \<Rightarrow> [] | Some u \<Rightarrow> u)
           in p\<lparr>px_username := Some (build_username (rnd_user rnd j) base prefixes sel)\<rparr>))"

definition resolve_proxy_chain :: "rand \<Rightarrow> server \<Rightarrow> selection \<Rightarrow> fault + proxy_config list" where
  "resolve_proxy_chain rnd s sel =
     (case resolve_chain_inner rnd s sel of
        Inl f \<Rightarrow> Inl f
      | Inr chain \<Rightarrow> Inr (map (\<lambda>(j, p). apply_template rnd sel j p) (enumerate 0 chain)))"

section \<open>Only live upstreams\<close>

lemma find_label_in: "find_label ps name = Some p \<Longrightarrow> p \<in> set ps \<and> px_label p = Some name"
  unfolding find_label_def by (drule find_SomeD)

lemma collect_labels_Inr:
  "collect_labels ps name ls = Inr qs \<Longrightarrow>
     set qs \<subseteq> set ps \<and> map px_label qs = map Some ls"
  by (induction ls arbitrary: qs)
    (auto split: option.splits sum.splits dest: find_label_in)

lemma shuffle_set: "rand_ok r \<Longrightarrow> set (shuffle r xs) = set xs"
  by (auto simp: shuffle_def rand_ok_def in_set_conv_nth) 

lemma shuffle_length: "rand_ok r \<Longrightarrow> length (shuffle r xs) = length xs"
proof -
  assume "rand_ok r"
  then have "distinct (rnd_perm r (length xs))" "set (rnd_perm r (length xs)) = {..<length xs}"
    by (simp_all add: rand_ok_def)
  then show ?thesis by (metis card_lessThan distinct_card length_map shuffle_def)
qed

lemma apply_mode_set:
  assumes "rand_ok rnd" and "apply_mode rnd c ps = Inr qs"
  shows "set qs \<subseteq> set ps"
proof -
  have "set (take n (shuffle rnd ps)) \<subseteq> set ps" for n
    using shuffle_set [OF assms(1), of ps] set_take_subset [of n "shuffle rnd ps"] by simp
  then show ?thesis
    using assms(2) shuffle_set [OF assms(1), of ps]
    by (auto simp: apply_mode_def split: chain_mode.splits option.splits list.splits)
qed

lemma resolve_ref_set:
  assumes ok: "rand_ok rnd" and res: "resolve_ref rnd s name = Inr qs"
  shows "set qs \<subseteq> set (sv_proxies s)"
proof (cases "find_label (sv_proxies s) name")
  case None
  with res obtain chain ps where "collect_labels (sv_proxies s) name (ch_proxies chain) = Inr ps"
    "apply_mode rnd chain ps = Inr qs"
    by (auto simp: resolve_ref_def split: option.splits sum.splits)
  then show ?thesis using apply_mode_set [OF ok] collect_labels_Inr by blast
next
  case (Some p)
  with res show ?thesis by (auto simp: resolve_ref_def dest: find_label_in)
qed

lemma resolve_global_set:
  "rand_ok rnd \<Longrightarrow> resolve_global_chain rnd s = Inr qs \<Longrightarrow> set qs \<subseteq> set (sv_proxies s)"
  by (auto simp: resolve_global_chain_def split: option.splits list.splits dest: resolve_ref_set)

lemma candidates_nth:
  "i < length (candidates s sel) \<Longrightarrow>
     candidates s sel ! i \<in> set (sv_proxies s)
     \<and> matches_upstream sel (px_tags (candidates s sel ! i)) (px_username_prefixes (candidates s sel ! i))"
  using nth_mem [of i "candidates s sel"] by (simp add: candidates_def)

lemma resolve_inner_tagged:
  assumes ok: "rand_ok rnd" and sel: "sel_chain sel = None" "\<not> only_session sel"
    and res: "resolve_chain_inner rnd s sel = Inr qs"
  shows "\<exists>p \<in> set (sv_proxies s). qs = [p] \<and> matches_upstream sel (px_tags p) (px_username_prefixes p)"
proof -
  from res sel obtain i where
    i: "pick_index (rnd_pick rnd) (length (candidates s sel)) (sel_session sel) = Some i"
    and qs: "qs = [candidates s sel ! i]"
    by (auto simp: resolve_chain_inner_def split: option.splits)
  have "i < length (candidates s sel)"
    using ok i pick_index_less by (auto simp: rand_ok_def)
  with candidates_nth [OF this] qs show ?thesis by blast
qed

lemma resolve_inner_set:
  assumes ok: "rand_ok rnd" and res: "resolve_chain_inner rnd s sel = Inr qs"
  shows "set qs \<subseteq> set (sv_proxies s)"
proof (cases "sel_chain sel = None \<and> \<not> only_session sel")
  case True
  then show ?thesis using resolve_inner_tagged [OF ok _ _ res] by auto
next
  case False
  then show ?thesis
    using res ok
    by (auto simp: resolve_chain_inner_def split: option.splits if_splits
        dest: resolve_ref_set resolve_global_set)
qed

text \<open>A template changes nothing but the username.\<close>

lemma apply_template_fields [simp]:
  "px_label (apply_template rnd sel j p) = px_label p"
  "px_type (apply_template rnd sel j p) = px_type p"
  "px_address (apply_template rnd sel j p) = px_address p"
  "px_port (apply_template rnd sel j p) = px_port p"
  "px_password (apply_template rnd sel j p) = px_password p"
  "px_tags (apply_template rnd sel j p) = px_tags p"
  "px_cost_per_byte (apply_template rnd sel j p) = px_cost_per_byte p"
  "px_username_prefixes (apply_template rnd sel j p) = px_username_prefixes p"
  by (simp_all add: apply_template_def Let_def split: option.split)

lemma apply_template_addr [simp]: "get_upstream_addr (apply_template rnd sel j p) = get_upstream_addr p"
  by (simp add: get_upstream_addr_def split: option.split)

lemma resolve_proxy_chain_Inr:
  "resolve_proxy_chain rnd s sel = Inr chain \<longleftrightarrow>
     (\<exists>qs. resolve_chain_inner rnd s sel = Inr qs
        \<and> chain = map (\<lambda>(j, p). apply_template rnd sel j p) (enumerate 0 qs))"
  by (auto simp: resolve_proxy_chain_def split: sum.splits)

text \<open>A shuffle is a permutation, and a chain's mode keeps the chain's labels.\<close>

lemma shuffle_mset: "rand_ok r \<Longrightarrow> mset (shuffle r xs) = mset xs"
proof -
  assume "rand_ok r"
  then have "distinct (rnd_perm r (length xs))" "set (rnd_perm r (length xs)) = set [0..<length xs]"
    by (simp_all add: rand_ok_def atLeast0LessThan)
  then have "mset (rnd_perm r (length xs)) = mset [0..<length xs]"
    by (simp only: set_eq_iff_mset_eq_distinct distinct_upt)
  then have "mset (map (\<lambda>i. xs ! i) (rnd_perm r (length xs))) = mset (map (\<lambda>i. xs ! i) [0..<length xs])"
    by (simp only: mset_map)
  then show ?thesis by (simp only: shuffle_def map_nth)
qed

lemma mset_take_subset: "mset (take n xs) \<subseteq># mset xs"
  by (metis append_take_drop_id mset_append mset_subset_eq_add_left)

lemma apply_mode_labels:
  assumes "rand_ok rnd" and "apply_mode rnd c ps = Inr qs"
  shows "case ch_mode c of
        Strict \<Rightarrow> qs = ps
      | Random \<Rightarrow> length qs = (case ch_count c of Some k \<Rightarrow> min k (length ps) | None \<Rightarrow> 1)
          \<and> mset qs \<subseteq># mset ps"
proof -
  note perm = shuffle_mset [OF assms(1), of ps] shuffle_length [OF assms(1), of ps]
    shuffle_set [OF assms(1), of ps]
  have "mset (take n (shuffle rnd ps)) \<subseteq># mset ps" for n
    using mset_take_subset [of n "shuffle rnd ps"] perm by simp
  moreover have "shuffle rnd ps = q # rest \<Longrightarrow> mset [q] \<subseteq># mset ps" for q rest
    using perm(3) by force
  ultimately show ?thesis
    using assms(2) perm
    by (auto simp: apply_mode_def split: chain_mode.splits option.splits list.splits)
qed

lemma apply_templates_labels [simp]:
  "map px_label (map (\<lambda>(j, p). apply_template rnd sel j p) (enumerate n qs)) = map px_label qs"
  by (induction qs arbitrary: n) (simp_all add: enumerate_simps)

section \<open>Properties\<close>


definition sample_rand :: rand where
  "sample_rand = \<lparr>rnd_pick = (\<lambda>n. n - 1), rnd_user = (\<lambda>_ _ n. n - 1), rnd_perm = (\<lambda>n. [0..<n])\<rparr>"

lemma sample_rand_ok: "rand_ok sample_rand"
  by (auto simp: rand_ok_def sample_rand_def draws_in_range_def)

definition sample_proxy :: "string \<Rightarrow> string option \<Rightarrow> proxy_config" where
  "sample_proxy label country =
     \<lparr>px_label = Some label, px_type = Socks5, px_address = ''h'', px_port = Some 1080,
      px_username = None, px_password = None, px_tags = tags_default\<lparr>tag_country := country\<rparr>,
      px_cost_per_byte = f64_one, px_username_prefixes = None\<rparr>"

definition sample_config :: router_config where
  "sample_config = \<lparr>rc_listen = ''127.0.0.1:1080'', rc_chain = None, rc_log = None, rc_verbose = None,
     rc_debug = None, rc_auth = Some True, rc_metrics_listen = None, rc_upstream_refresh_secs = None\<rparr>"

definition sample_server :: server where
  "sample_server = server_new [sample_proxy ''a'' (Some ''us''), sample_proxy ''b'' (Some ''DE'')] None sample_config"




text \<open>
  C26. Whatever the selection, the chains and the draws, a resolution uses live upstreams
  only: every proxy of the result is one of the snapshot, unchanged but for its username.
\<close>

theorem resolve_uses_live_upstreams:
  assumes "rand_ok rnd" and "resolve_proxy_chain rnd s sel = Inr hops" and "q \<in> set hops"
  shows "\<exists>p \<in> set (sv_proxies s). \<exists>u. q = p\<lparr>px_username := u\<rparr>
     \<and> (px_username_prefixes p = None \<longrightarrow> q = p)"
proof -
  from assms(2) obtain qs where qs: "resolve_chain_inner rnd s sel = Inr qs"
    and hops: "hops = map (\<lambda>(j, p). apply_template rnd sel j p) (enumerate 0 qs)"
    by (auto simp: resolve_proxy_chain_Inr)
  from assms(3) hops obtain j p where "p \<in> set qs" and q: "q = apply_template rnd sel j p"
    by (auto simp: enumerate_eq_zip dest: set_zip_rightD)
  moreover have "\<exists>u. apply_template rnd sel j p = p\<lparr>px_username := u\<rparr>"
    by (cases "px_username_prefixes p") (auto simp: apply_template_def Let_def intro: exI [of _ "px_username p"])
  ultimately show ?thesis
    using resolve_inner_set [OF assms(1) qs] by (auto simp: apply_template_def)
qed

theorem resolve_uses_live_upstreams_witness:
  "\<exists>p \<in> set (sv_proxies sample_server). \<exists>u.
     sample_proxy ''a'' (Some ''us'') = p\<lparr>px_username := u\<rparr>
     \<and> (px_username_prefixes p = None \<longrightarrow> sample_proxy ''a'' (Some ''us'') = p)"
proof -
  have "resolve_proxy_chain sample_rand sample_server selection_default = Inr [sample_proxy ''a'' (Some ''us'')]"
    by (simp add: resolve_proxy_chain_def resolve_chain_inner_def resolve_global_chain_def only_session_def
        selection_default_def sample_server_def server_new_def sample_config_def apply_template_def
        sample_proxy_def)
  from resolve_uses_live_upstreams [OF sample_rand_ok this] show ?thesis by simp
qed

text \<open>
  C27. A selection that names a chain (and no upstream of that label) resolves to that chain:
  in strict mode its members in the configured order, in random mode as many of them as
  \<open>count\<close> asks for and the chain has (one without a \<open>count\<close>), none more often than listed.
\<close>

theorem resolve_named_chain:
  assumes "rand_ok rnd" and "sel_chain sel = Some name" and "find_label (sv_proxies s) name = None"
    and "sv_chains s = Some chs" and "find (\<lambda>c. ch_id c = name) chs = Some c"
    and "resolve_proxy_chain rnd s sel = Inr hops"
  shows "case ch_mode c of
        Strict \<Rightarrow> map px_label hops = map Some (ch_proxies c)
      | Random \<Rightarrow>
          length hops = (case ch_count c of Some k \<Rightarrow> min k (length (ch_proxies c)) | None \<Rightarrow> 1)
          \<and> mset (map px_label hops) \<subseteq># mset (map Some (ch_proxies c))"
proof -
  from assms(2-6) obtain ps qs where ps: "collect_labels (sv_proxies s) name (ch_proxies c) = Inr ps"
    and qs: "apply_mode rnd c ps = Inr qs"
    and hops: "hops = map (\<lambda>(j, p). apply_template rnd sel j p) (enumerate 0 qs)"
    by (auto simp: resolve_proxy_chain_Inr resolve_chain_inner_def resolve_ref_def split: sum.splits)
  have labels: "map px_label ps = map Some (ch_proxies c)"
    using collect_labels_Inr [OF ps] by simp
  then have "length ps = length (ch_proxies c)" by (metis length_map)
  moreover have "map px_label hops = map px_label qs" and "length hops = length qs"
    by (simp_all only: hops apply_templates_labels length_map length_enumerate)
  moreover have "mset qs \<subseteq># mset ps \<Longrightarrow> mset (map px_label qs) \<subseteq># mset (map Some (ch_proxies c))"
    using image_mset_subseteq_mono [of "mset qs" "mset ps" px_label] labels by (metis mset_map)
  ultimately show ?thesis
    using apply_mode_labels [OF assms(1) qs] labels
    by (cases "ch_mode c"; cases "ch_count c") simp_all
qed

definition sample_chain :: "chain_mode \<Rightarrow> chain_config" where
  "sample_chain mode = \<lparr>ch_id = ''exit'', ch_proxies = [''b'', ''a''], ch_mode = mode, ch_count = Some 5\<rparr>"

theorem resolve_named_chain_witness:
  "(\<exists>hops. resolve_proxy_chain sample_rand (sample_server\<lparr>sv_chains := Some [sample_chain Strict]\<rparr>)
       (selection_default\<lparr>sel_chain := Some ''exit''\<rparr>) = Inr hops
     \<and> map px_label hops = [Some ''b'', Some ''a''])
   \<and> (\<exists>hops. resolve_proxy_chain sample_rand (sample_server\<lparr>sv_chains := Some [sample_chain Random]\<rparr>)
       (selection_default\<lparr>sel_chain := Some ''exit''\<rparr>) = Inr hops \<and> length hops = 2)"
proof -
  let ?sel = "selection_default\<lparr>sel_chain := Some ''exit''\<rparr>"
    and ?server = "\<lambda>mode. sample_server\<lparr>sv_chains := Some [sample_chain mode]\<rparr>"
  have sel: "sel_chain ?sel = Some ''exit''" by simp
  have none: "find_label (sv_proxies (?server mode)) ''exit'' = None"
    and chain: "find (\<lambda>c. ch_id c = ''exit'') [sample_chain mode] = Some (sample_chain mode)" for mode
    by (simp_all add: find_label_def sample_server_def server_new_def sample_proxy_def sample_chain_def)
  have "collect_labels (sv_proxies (?server mode)) ''exit'' [''b'', ''a''] =
      Inr [sample_proxy ''b'' (Some ''DE''), sample_proxy ''a'' (Some ''us'')]" for mode
    by (simp add: find_label_def sample_server_def server_new_def sample_proxy_def)
  then have "\<exists>qs. resolve_ref sample_rand (?server mode) ''exit'' = Inr qs" for mode
    using none [of mode] chain [of mode]
    by (cases mode) (simp_all add: resolve_ref_def sample_chain_def apply_mode_def)
  then have "\<exists>hops. resolve_proxy_chain sample_rand (?server mode) ?sel = Inr hops" for mode
    using sel by (simp add: resolve_proxy_chain_Inr resolve_chain_inner_def)
  then obtain h1 h2 where h1: "resolve_proxy_chain sample_rand (?server Strict) ?sel = Inr h1"
    and h2: "resolve_proxy_chain sample_rand (?server Random) ?sel = Inr h2" by meson
  have chains: "sv_chains (?server mode) = Some [sample_chain mode]" for mode by simp
  note named = resolve_named_chain [OF sample_rand_ok sel none chains chain]
  have "map px_label h1 = [Some ''b'', Some ''a'']"
    using named [OF h1] by (simp add: sample_chain_def del: map_eq_Cons_conv)
  moreover have "length h2 = 2"
    using named [OF h2] by (simp add: sample_chain_def)
  ultimately show ?thesis using h1 h2 by (intro conjI exI) (rule h1, assumption, rule h2, assumption)
qed

end
