(* ===== verification/Chain.thy ===== *)
theory Chain
  imports Wire Resolve
begin

text \<open>
  \<open>src/protocols/chain.rs\<close>: tunnelling through one or more upstream proxies.  The stream is
  the upstream socket.  The locale \<open>tunnel\<close> is what a client of a handshake relies on: it
  touches only the upstream socket, and when it returns the upstream has granted the very
  request that was sent.  It is interpreted on each of the three handshakes and on their
  dispatch.
\<close>

section \<open>The handshakes\<close>

definition socks5_auth :: "proxy_config \<Rightarrow> unit io" where
  "socks5_auth p =
     (case (px_username p, px_password p) of
        (Some username, Some password) \<Rightarrow>
          (let auth_request = socks5_auth_request username password
           in andthen (write_all Upstream auth_request)
             (andthen (bytes_out (length auth_request))
             (await (read_exact Upstream 2) (\<lambda>auth_response.
              andthen (bytes_in 2)
              (if auth_response ! 1 \<noteq> 0 then fail (Protocol ''SOCKS5 auth failed'') else ret ())))))
      | _ \<Rightarrow> fail (Protocol ''Auth required but not provided''))"

definition socks5_skip_address :: "byte \<Rightarrow> unit io" where
  "socks5_skip_address atyp =
     (if atyp = 0x01 then await (read_exact Upstream 6) (\<lambda>_. bytes_in 6)
      else if atyp = 0x03 then
        await (read_exact Upstream 1) (\<lambda>len.
        andthen (bytes_in 1)
        (await (read_exact Upstream (unat (len ! 0) + 2)) (\<lambda>domain.
         bytes_in (length domain))))
      else if atyp = 0x04 then await (read_exact Upstream 18) (\<lambda>_. bytes_in 18)
      else fail (Protocol ''Invalid address type''))"

definition socks5_connect :: "proxy_config \<Rightarrow> string \<Rightarrow> u16 \<Rightarrow> unit io" where
  "socks5_connect p target_host target_port =
     (let handshake = socks5_greeting p; request = socks5_request target_host target_port
      in andthen (write_all Upstream handshake)
        (andthen (bytes_out (length handshake))
        (await (read_exact Upstream 2) (\<lambda>response.
         andthen (bytes_in 2)
        (andthen
           (if response ! 1 = 0x02 then socks5_auth p
            else if response ! 1 \<noteq> 0x00 then fail (Protocol ''SOCKS5 handshake failed'')
            else ret ())
        (andthen (write_all Upstream request)
        (andthen (bytes_out (length request))
        (await (timed_read_exact (Protocol ''Timeout waiting for CONNECT response'') Upstream 4)
           (\<lambda>response.
         andthen (bytes_in 4)
           (if response ! 1 \<noteq> 0x00
            then fail (Protocol (''SOCKS5 connect failed with code '' @ dec (unat (response ! 1))))
            else socks5_skip_address (response ! 3)))))))))))"

definition socks4_connect :: "proxy_config \<Rightarrow> string \<Rightarrow> u16 \<Rightarrow> unit io" where
  "socks4_connect p target_host target_port =
     (let request = socks4_request target_host target_port
      in andthen (write_all Upstream request)
        (andthen (bytes_out (length request))
        (await (read_exact Upstream 8) (\<lambda>response.
         andthen (bytes_in 8)
         (if response ! 1 \<noteq> 0x5A then fail (Protocol ''SOCKS4 connect failed'') else ret ())))))"

definition http_connect :: "base64 \<Rightarrow> proxy_config \<Rightarrow> string \<Rightarrow> u16 \<Rightarrow> unit io" where
  "http_connect b p target_host target_port =
     (let request = connect_request b p target_host target_port
      in andthen (write_all Upstream request)
        (andthen (bytes_out (length request))
        (await (read_some Upstream 1024) (\<lambda>response.
         andthen (bytes_in (length response))
         (if \<not> contains ''200 Connection Established'' (from_utf8_lossy response)
          then fail (Protocol ''HTTP tunnel failed'') else ret ())))))"

definition connect_through_proxy ::
  "base64 \<Rightarrow> proxy_config \<Rightarrow> string \<Rightarrow> u16 \<Rightarrow> unit io"
where
  "connect_through_proxy b p target_host target_port =
     (case px_type p of
        Http \<Rightarrow> http_connect b p target_host target_port
      | Https \<Rightarrow> http_connect b p target_host target_port
      | Socks4 \<Rightarrow> socks4_connect p target_host target_port
      | Socks5 \<Rightarrow> socks5_connect p target_host target_port)"

section \<open>The chain\<close>

definition parse_address :: "string \<Rightarrow> proxy_error + (string \<times> u16)" where
  "parse_address addr =
     (case rsplit_once CHR '':'' addr of
        None \<Rightarrow> Inl (Protocol ''Invalid address format'')
      | Some (host, port) \<Rightarrow>
          (case parse_u16 port of
             None \<Rightarrow> Inl (Protocol ''Invalid port'')
           | Some p \<Rightarrow> Inr (host, p)))"

text \<open>The loop of \<open>connect_chain\<close>: each proxy connects to the next one, the last to the target.\<close>

fun hop_loop :: "base64 \<Rightarrow> proxy_config list \<Rightarrow> string \<Rightarrow> u16 \<Rightarrow> unit io" where
  "hop_loop b [] target_host target_port = ret ()"
| "hop_loop b [current] target_host target_port =
     connect_through_proxy b current target_host target_port"
| "hop_loop b (current # nxt # rest) target_host target_port =
     await (lift_result (parse_address (get_upstream_addr nxt))) (\<lambda>(next_host, next_port).
     andthen (connect_through_proxy b current next_host next_port)
       (hop_loop b (nxt # rest) target_host target_port))"

definition connect_chain :: "base64 \<Rightarrow> proxy_config list \<Rightarrow> string \<Rightarrow> u16 \<Rightarrow> unit io" where
  "connect_chain b hops target_host target_port =
     (case hops of
        [] \<Rightarrow> fail (Protocol ''Empty proxy chain'')
      | first # _ \<Rightarrow>
          andthen (connect (get_upstream_addr first))
          (andthen set_nodelay
            (hop_loop b hops target_host target_port)))"

section \<open>What a handshake promises\<close>

fun upstream_event :: "event \<Rightarrow> bool" where
  "upstream_event (Did (WriteAll s _) _) \<longleftrightarrow> s = Upstream"
| "upstream_event (Did (Flush s) _) \<longleftrightarrow> s = Upstream"
| "upstream_event (Did (ReadSome s _) _) \<longleftrightarrow> s = Upstream"
| "upstream_event (Did (ReadExact s _) _) \<longleftrightarrow> s = Upstream"
| "upstream_event (Did (TimedReadExact s _) _) \<longleftrightarrow> s = Upstream"
| "upstream_event (BytesIn _) \<longleftrightarrow> True"
| "upstream_event (BytesOut _) \<longleftrightarrow> True"
| "upstream_event _ \<longleftrightarrow> False"

text \<open>The request for a hop, and the answers that grant it.\<close>

definition hop_request :: "protocol \<Rightarrow> base64 \<Rightarrow> proxy_config \<Rightarrow> string \<Rightarrow> u16 \<Rightarrow> byte list" where
  "hop_request kind b p host port =
     (case kind of
        Http \<Rightarrow> connect_request b p host port
      | Https \<Rightarrow> connect_request b p host port
      | Socks4 \<Rightarrow> socks4_request host port
      | Socks5 \<Rightarrow> socks5_request host port)"

definition tunnel_up :: "byte list \<Rightarrow> bool" where
  "tunnel_up bs \<longleftrightarrow> contains ''200 Connection Established'' (from_utf8_lossy bs)"

definition grants :: "protocol \<Rightarrow> event \<Rightarrow> bool" where
  "grants kind e =
     (case e of
        Did opn (Some (R_Bytes bs)) \<Rightarrow>
          (case kind of
             Http \<Rightarrow> opn = ReadSome Upstream 1024 \<and> tunnel_up bs
           | Https \<Rightarrow> opn = ReadSome Upstream 1024 \<and> tunnel_up bs
           | Socks4 \<Rightarrow> opn = ReadExact Upstream 8 \<and> bs ! 1 = 0x5A
           | Socks5 \<Rightarrow> (opn = TimedReadExact Upstream 4 \<or> opn = ReadExact Upstream 4)
               \<and> bs ! 1 = 0x00)
      | _ \<Rightarrow> False)"

text \<open>\<open>answered\<close>: the request was written whole, and the very next answer grants it.\<close>

definition answered :: "protocol \<Rightarrow> byte list \<Rightarrow> event list \<Rightarrow> bool" where
  "answered kind req es \<longleftrightarrow>
     (\<exists>before between reply after.
        es = before @ [Did (WriteAll Upstream req) (Some R_Done)] @ between @ [reply] @ after
        \<and> (\<forall>e \<in> set between. \<exists>n. e = BytesOut n) \<and> grants kind reply)"

definition granted ::
  "protocol \<Rightarrow> base64 \<Rightarrow> proxy_config \<Rightarrow> string \<Rightarrow> u16 \<Rightarrow> event list \<Rightarrow> bool"
where
  "granted kind b p host port es \<longleftrightarrow> answered kind (hop_request kind b p host port) es"

text \<open>Several hops one after another over the same socket, and all of them granted in order.\<close>

type_synonym 'p hop = "'p \<times> string \<times> u16"

fun via :: "('p \<Rightarrow> string \<Rightarrow> u16 \<Rightarrow> unit io) \<Rightarrow> 'p hop list \<Rightarrow> unit io" where
  "via establish [] = ret ()"
| "via establish ((p, host, port) # hops) = andthen (establish p host port) (via establish hops)"

inductive all_granted ::
  "('p \<Rightarrow> string \<Rightarrow> u16 \<Rightarrow> event list \<Rightarrow> bool) \<Rightarrow> 'p hop list \<Rightarrow> event list \<Rightarrow> bool"
  for hop_granted where
  none: "all_granted hop_granted [] []"
| hop: "hop_granted p host port es \<Longrightarrow> all_granted hop_granted hops fs \<Longrightarrow>
     all_granted hop_granted ((p, host, port) # hops) (es @ fs)"

inductive_simps all_granted_simps [simp]:
  "all_granted hop_granted [] es" "all_granted hop_granted ((p, host, port) # hops) es"

text \<open>The contract, for one way of establishing a hop.\<close>

locale tunnel =
  fixes establish :: "'p \<Rightarrow> string \<Rightarrow> u16 \<Rightarrow> unit io"
    and hop_granted :: "'p \<Rightarrow> string \<Rightarrow> u16 \<Rightarrow> event list \<Rightarrow> bool"
  assumes only_upstream: "emits upstream_event (establish p host port)"
    and established_granted: "establish p host port w = (Inr (), w') \<Longrightarrow>
      \<exists>es. w_trace w' = w_trace w @ es \<and> hop_granted p host port es"
begin

lemma established_returns: "returns (establish p host port) (\<lambda>_. hop_granted p host port)"
  by (rule returnsI) (simp add: established_granted)

lemma via_only_upstream: "emits upstream_event (via establish hops)"
  by (induction hops) (auto intro!: wp_rules only_upstream)

text \<open>A chain that is up has been granted hop by hop, in order.\<close>

lemma via_granted:
  "via establish hops w = (Inr (), w') \<Longrightarrow> \<exists>es. w_trace w' = w_trace w @ es \<and> all_granted hop_granted hops es"
proof (induction hops arbitrary: w)
  case Nil
  then show ?case by (auto simp: ret_Inr)
next
  case (Cons x hops)
  obtain p host port where x: "x = (p, host, port)" by (cases x)
  from Cons.prems obtain v where v: "establish p host port w = (Inr (), v)" "via establish hops v = (Inr (), w')"
    by (auto simp: x andthen_Inr)
  from established_granted [OF v(1)] obtain es
    where es: "w_trace v = w_trace w @ es" "hop_granted p host port es" by blast
  from Cons.IH [OF v(2)] obtain fs where "w_trace w' = w_trace v @ fs" "all_granted hop_granted hops fs" by blast
  with es show ?case unfolding x by (intro exI [of _ "es @ fs"]) auto
qed

end

section \<open>The handshakes keep it\<close>

lemma socks5_auth_upstream: "emits upstream_event (socks5_auth p)"
  unfolding socks5_auth_def Let_def by (intro wp_rules) simp_all

lemma socks5_skip_upstream: "emits upstream_event (socks5_skip_address a)"
  unfolding socks5_skip_address_def Let_def by (intro wp_rules) simp_all

lemma socks5_upstream: "emits upstream_event (socks5_connect p host port)"
  unfolding socks5_connect_def Let_def
  by (intro wp_rules socks5_auth_upstream socks5_skip_upstream) simp_all

lemma socks4_upstream: "emits upstream_event (socks4_connect p host port)"
  unfolding socks4_connect_def Let_def by (intro wp_rules) simp_all

lemma http_upstream: "emits upstream_event (http_connect b p host port)"
  unfolding http_connect_def Let_def by (intro wp_rules) simp_all


text \<open>Whatever came before the request, a granting answer right after it grants the hop.\<close>

lemma answered_now:
  assumes "grants kind reply"
  shows "answered kind req (Did (WriteAll Upstream req) (Some R_Done) # BytesOut n # reply # es)"
    and "answered kind req (Did (WriteAll Upstream req) (Some R_Done) # reply # es)"
proof -
  have "Did (WriteAll Upstream req) (Some R_Done) # BytesOut n # reply # es =
      [] @ [Did (WriteAll Upstream req) (Some R_Done)] @ [BytesOut n] @ [reply] @ es" by simp
  then show "answered kind req (Did (WriteAll Upstream req) (Some R_Done) # BytesOut n # reply # es)"
    using assms unfolding answered_def by (metis list.set(1) list.set(2) singletonD)
  have "Did (WriteAll Upstream req) (Some R_Done) # reply # es =
      [] @ [Did (WriteAll Upstream req) (Some R_Done)] @ [] @ [reply] @ es" by simp
  then show "answered kind req (Did (WriteAll Upstream req) (Some R_Done) # reply # es)"
    using assms unfolding answered_def by (metis list.set(1) empty_iff)
qed

lemma answered_prefix: "answered kind req es \<Longrightarrow> answered kind req (fs @ es)"
  unfolding answered_def by (metis append.assoc)

lemma answered_suffix: "answered kind req es \<Longrightarrow> answered kind req (es @ fs)"
proof -
  assume "answered kind req es"
  then obtain before between reply after
    where es: "es = before @ [Did (WriteAll Upstream req) (Some R_Done)] @ between @ [reply] @ after"
      and ok: "\<forall>e \<in> set between. \<exists>n. e = BytesOut n" "grants kind reply"
    unfolding answered_def by blast
  have "es @ fs = before @ [Did (WriteAll Upstream req) (Some R_Done)] @ between @ [reply] @ (after @ fs)"
    by (simp add: es)
  with ok show ?thesis unfolding answered_def by blast
qed

lemma answered_Cons: "answered kind req es \<Longrightarrow> answered kind req (e # es)"
  using answered_prefix [of kind req es "[e]"] by simp

lemma granted_now:
  assumes "grants kind reply" and "req = hop_request kind b p host port"
  shows "granted kind b p host port (Did (WriteAll Upstream req) (Some R_Done) # BytesOut n # reply # es)"
    and "granted kind b p host port (Did (WriteAll Upstream req) (Some R_Done) # reply # es)"
  unfolding granted_def assms(2) by (rule answered_now [OF assms(1)])+

lemma granted_prefix: "granted kind b p host port es \<Longrightarrow> granted kind b p host port (fs @ es)"
  unfolding granted_def by (rule answered_prefix)

lemma granted_Cons: "granted kind b p host port es \<Longrightarrow> granted kind b p host port (e # es)"
  unfolding granted_def by (rule answered_Cons)

lemma socks5_grants: "returns (socks5_connect p host port) (\<lambda>_. granted Socks5 b p host port)"
proof -
  have auth: "emits upstream_event (if r ! 1 = 0x02 then socks5_auth p
      else if r ! 1 \<noteq> 0x00 then fail e else ret ())" for r :: "byte list" and e
    by (intro wp_rules socks5_auth_upstream)
  have sent: "granted Socks5 b p host port (e1 # e2 # e3 # e4 # a @
      Did (WriteAll Upstream (socks5_request host port)) (Some R_Done) # BytesOut n #
      Did (TimedReadExact Upstream 4) (Some (R_Bytes r)) # es)"
    if "r ! 1 = 0x00" for e1 e2 e3 e4 a n r es
    using that by (intro granted_Cons granted_prefix granted_now(1)) (simp_all add: grants_def hop_request_def)
  show ?thesis
    unfolding socks5_connect_def Let_def
    by (intro post_rules returns_andthen [OF returns_emits [OF auth]]
        returns_mono [OF returns_emits [OF socks5_skip_upstream]]) (simp add: sent)
qed

lemma socks4_grants: "returns (socks4_connect p host port) (\<lambda>_. granted Socks4 b p host port)"
  unfolding socks4_connect_def Let_def
  by (intro post_rules granted_now(1)) (simp_all add: grants_def hop_request_def)

lemma http_grants:
  "returns (http_connect b p host port) (\<lambda>_. granted Http b p host port)"
  "returns (http_connect b p host port) (\<lambda>_. granted Https b p host port)"
  unfolding http_connect_def Let_def
  by (intro post_rules granted_now(1); simp add: grants_def hop_request_def tunnel_up_def)+

interpretation socks5: tunnel socks5_connect "granted Socks5 b" for b
  by unfold_locales (rule socks5_upstream, rule returnsD [OF socks5_grants])

interpretation socks4: tunnel socks4_connect "granted Socks4 b" for b
  by unfold_locales (rule socks4_upstream, rule returnsD [OF socks4_grants])

interpretation http: tunnel "http_connect b" "granted Http b" for b
  by unfold_locales (rule http_upstream, rule returnsD [OF http_grants(1)])

interpretation hop: tunnel "connect_through_proxy b" "\<lambda>p. granted (px_type p) b p" for b
proof unfold_locales
  fix p host port
  show "emits upstream_event (connect_through_proxy b p host port)"
    unfolding connect_through_proxy_def
    by (intro wp_rules http.only_upstream socks4.only_upstream socks5.only_upstream)
next
  fix p host port w w'
  assume "connect_through_proxy b p host port w = (Inr (), w')"
  then show "\<exists>es. w_trace w' = w_trace w @ es \<and> granted (px_type p) b p host port es"
    using returnsD [OF http_grants(2)]
    by (cases "px_type p")
      (simp_all add: connect_through_proxy_def http.established_granted socks4.established_granted
        socks5.established_granted)
qed

section \<open>The chain as a run over its hops\<close>

text \<open>Where each proxy of a chain has to connect to.\<close>

fun hop_targets ::
  "proxy_config list \<Rightarrow> string \<Rightarrow> u16 \<Rightarrow> proxy_error + (proxy_config \<times> string \<times> u16) list"
where
  "hop_targets [] host port = Inr []"
| "hop_targets [current] host port = Inr [(current, host, port)]"
| "hop_targets (current # nxt # rest) host port =
     (case parse_address (get_upstream_addr nxt) of
        Inl e \<Rightarrow> Inl e
      | Inr (h, p) \<Rightarrow>
          (case hop_targets (nxt # rest) host port of
             Inl e \<Rightarrow> Inl e
           | Inr ts \<Rightarrow> Inr ((current, h, p) # ts)))"

lemma hop_targets_length: "hop_targets ps host port = Inr ts \<Longrightarrow> map fst ts = ps"
  by (induction ps host port arbitrary: ts rule: hop_targets.induct) (auto split: sum.splits)

text \<open>A next hop whose address carries its port is dialled at exactly that address.\<close>

lemma parse_address_upstream:
  "px_port p = Some port \<Longrightarrow> parse_address (get_upstream_addr p) = Inr (px_address p, port)"
proof -
  assume "px_port p = Some port"
  moreover have "CHR '':'' \<notin> set (dec (unat port))"
    using dec_digits [of "unat port"] by (auto simp: list_all_iff is_digit_def)
  ultimately show ?thesis
    by (simp add: parse_address_def get_upstream_addr_def rsplit_once_last parse_u16_dec)
qed

definition dialled_at :: "proxy_config \<Rightarrow> string \<times> u16" where
  "dialled_at p = (px_address p, the (px_port p))"

lemma hop_targets_dialled:
  "hop_targets ps host port = Inr ts \<Longrightarrow> \<forall>q \<in> set (tl ps). px_port q \<noteq> None \<Longrightarrow> ps \<noteq> [] \<Longrightarrow>
     map snd ts = map dialled_at (tl ps) @ [(host, port)]"
proof (induction ps host port arbitrary: ts rule: hop_targets.induct)
  case (3 current nxt rest host port)
  then obtain next_port where "px_port nxt = Some next_port" by auto
  with 3 show ?case
    by (auto simp: parse_address_upstream dialled_at_def split: sum.splits)
qed simp_all

lemma hop_loop_via:
  "hop_loop b ps host port w = (Inr (), w') \<Longrightarrow>
     \<exists>ts. hop_targets ps host port = Inr ts \<and> via (connect_through_proxy b) ts w = (Inr (), w')"
proof (induction b ps host port arbitrary: w rule: hop_loop.induct)
  case (2 b current host port)
  then show ?case by (auto simp: andthen_Inr ret_Inr)
next
  case (3 b current nxt rest host port)
  then obtain h p v where addr: "parse_address (get_upstream_addr nxt) = Inr (h, p)"
    and v: "connect_through_proxy b current h p w = (Inr (), v)"
    and rest: "hop_loop b (nxt # rest) host port v = (Inr (), w')"
    by (auto simp: run_Inr split: prod.splits)
  from "3.IH" [OF rest] obtain ts
    where "hop_targets (nxt # rest) host port = Inr ts" "via (connect_through_proxy b) ts v = (Inr (), w')" by blast
  with addr v show ?case by (auto simp: andthen_Inr)
qed simp

lemma hop_loop_upstream: "emits upstream_event (hop_loop b ps host port)"
  by (induction b ps host port rule: hop_loop.induct)
    (auto intro!: wp_rules hop.only_upstream)

text \<open>What \<open>connect_chain\<close> may do: dial the first proxy, then use the upstream socket.\<close>

definition chain_event :: "proxy_config list \<Rightarrow> event \<Rightarrow> bool" where
  "chain_event ps e \<longleftrightarrow> upstream_event e \<or> (\<exists>r. e = Did SetNodelay r)
     \<or> (\<exists>p r. ps \<noteq> [] \<and> p = hd ps \<and> e = Did (Connect (get_upstream_addr p)) r)"

lemma connect_chain_events: "emits (chain_event ps) (connect_chain b ps host port)"
  unfolding connect_chain_def
  by (cases ps) (auto intro!: wp_rules emits_mono [OF hop_loop_upstream] simp: chain_event_def)

lemma connect_chain_Inr:
  assumes "connect_chain b ps host port w = (Inr (), w')"
  obtains p rest ts es where "ps = p # rest" and "hop_targets ps host port = Inr ts"
    and "w_trace w' = w_trace w
       @ [Did (Connect (get_upstream_addr p)) (Some R_Done), Did SetNodelay (Some R_Done)] @ es"
    and "all_granted (\<lambda>p. granted (px_type p) b p) ts es"
proof -
  from assms obtain p rest v where ps: "ps = p # rest"
    and v: "w_trace v = w_trace w
       @ [Did (Connect (get_upstream_addr p)) (Some R_Done), Did SetNodelay (Some R_Done)]"
    and loop: "hop_loop b ps host port v = (Inr (), w')"
    by (cases ps) (auto simp: connect_chain_def run_Inr)
  from hop_loop_via [OF loop] obtain ts
    where ts: "hop_targets ps host port = Inr ts" "via (connect_through_proxy b) ts v = (Inr (), w')" by blast
  from hop.via_granted [OF ts(2)] obtain es
    where "w_trace w' = w_trace v @ es" "all_granted (\<lambda>p. granted (px_type p) b p) ts es" by blast
  with that ps ts v show thesis by simp
qed

section \<open>Properties\<close>

text \<open>
  C8. A chain that is up has been granted hop by hop: \<open>connect_chain\<close> returns only after it
  dialled the first proxy and, in order, every proxy of the chain answered the request to
  connect to the next one (the last: to the target) with its protocol's success.  Where the
  later proxies are configured with a port, that is exactly their address and port.
\<close>

theorem connect_chain_grants_hops:
  assumes "connect_chain b hops host port w = (Inr (), w')"
  shows "\<exists>p rest ts es. hops = p # rest \<and> hop_targets hops host port = Inr ts \<and> map fst ts = hops
     \<and> w_trace w' = w_trace w
         @ [Did (Connect (get_upstream_addr p)) (Some R_Done), Did SetNodelay (Some R_Done)] @ es
     \<and> all_granted (\<lambda>q. granted (px_type q) b q) ts es
     \<and> ((\<forall>q \<in> set rest. px_port q \<noteq> None) \<longrightarrow> map snd ts = map dialled_at rest @ [(host, port)])"
  using assms by (elim connect_chain_Inr) (auto dest: hop_targets_length hop_targets_dialled)

definition two_hops :: "proxy_config list" where
  "two_hops = [(sample_proxy ''a'' None)\<lparr>px_type := Http, px_address := ''a''\<rparr>, sample_proxy ''b'' None]"

definition established_reply :: "byte list" where
  "established_reply = as_bytes established"

definition two_hops_script :: "resp list" where
  "two_hops_script = [R_Done, R_Done, R_Done, R_Bytes established_reply,
     R_Done, R_Bytes [5, 0], R_Done, R_Bytes [5, 0, 0, 1], R_Bytes [0, 0, 0, 0, 0, 0]]"

lemma established_reply_up:
  "contains ''200 Connection Established'' (from_utf8_lossy established_reply) \<and> length established_reply \<le> 1024"
  by code_simp

lemma two_hops_next: "parse_address (get_upstream_addr (sample_proxy ''b'' None)) = Inr (''h'', 1080)"
  using parse_address_upstream [of "sample_proxy ''b'' None" 1080] by (simp add: sample_proxy_def)

lemma sample_proxy_fields [simp]:
  "px_type (sample_proxy l c) = Socks5" "px_username (sample_proxy l c) = None"
  "px_password (sample_proxy l c) = None"
  by (simp_all add: sample_proxy_def)

lemma two_hops_run:
  "\<exists>w'. connect_chain nibble_codec two_hops ''t'' 443 (started two_hops_script) = (Inr (), w')"
  using established_reply_up two_hops_next
  by (simp add: connect_chain_def two_hops_def two_hops_script_def started_def andthen_def io_simps
      connect_through_proxy_def http_connect_def socks5_connect_def socks5_skip_address_def Let_def)

theorem connect_chain_grants_hops_witness:
  "\<exists>w' ts es. connect_chain nibble_codec two_hops ''t'' 443 (started two_hops_script) = (Inr (), w')
     \<and> map snd ts = [(''h'', 1080), (''t'', 443)]
     \<and> all_granted (\<lambda>q. granted (px_type q) nibble_codec q) ts es"
proof -
  from two_hops_run obtain w'
    where run: "connect_chain nibble_codec two_hops ''t'' 443 (started two_hops_script) = (Inr (), w')" ..
  from connect_chain_grants_hops [OF run] obtain p rest ts es
    where hops: "two_hops = p # rest"
      and es: "all_granted (\<lambda>q. granted (px_type q) nibble_codec q) ts es"
      and ts: "(\<forall>q \<in> set rest. px_port q \<noteq> None) \<longrightarrow> map snd ts = map dialled_at rest @ [(''t'', 443)]" by blast
  have rest: "rest = [sample_proxy ''b'' None]" using hops by (simp add: two_hops_def)
  have "map snd ts = [(''h'', 1080), (''t'', 443)]"
    using ts by (simp add: rest dialled_at_def) (simp add: sample_proxy_def)
  with run es show ?thesis by (intro exI conjI)
qed

end
