(* ===== verification/Inbound_Http.thy ===== *)
theory Inbound_Http
  imports Chain
begin

text \<open>
  \<open>Http::handle\<close> of \<open>src/protocols/http.rs\<close>: a plain HTTP request through one upstream, one
  definition per branch on the upstream's protocol.  \<open>relay\<close> is the closure
  \<open>proxy_data\<close>, which the branches run after the upstream is ready.
\<close>

section \<open>HTTP upstream\<close>

definition http_modified_request :: "base64 \<Rightarrow> proxy_config \<Rightarrow> string \<Rightarrow> byte list" where
  "http_modified_request b p request_str =
     (let ls = lines request_str
      in as_bytes (hd ls @ CRLF) @ as_bytes (auth_header b p)
         @ as_bytes (crlf_lines (tl ls)) @ as_bytes CRLF)"

definition http_via_http :: "base64 \<Rightarrow> byte list \<Rightarrow> proxy_config \<Rightarrow> unit io" where
  "http_via_http b request p =
     (let modified_request = http_modified_request b p (from_utf8_lossy request)
      in andthen (bytes_out (length request))
        (andthen (bytes_out (length modified_request))
          (write_all Upstream modified_request)))"

section \<open>SOCKS4 and SOCKS5 upstreams\<close>

text \<open>Host and port of the \<open>Host\<close> header; a missing or unreadable port is 80.\<close>

definition host_header :: "string \<Rightarrow> proxy_error + (string \<times> u16)" where
  "host_header request_str =
     (case find (lower_starts_with ''host: '') (lines request_str) of
        None \<Rightarrow> Inl (Protocol ''No Host header found'')
      | Some line \<Rightarrow>
          (let parts = split_char CHR '':'' (trim (drop 6 line));
               host = hd parts;
               port = (case tl parts of [] \<Rightarrow> ''80'' | q # _ \<Rightarrow> q)
           in Inr (host, case parse_u16 port of None \<Rightarrow> 80 | Some n \<Rightarrow> n)))"

text \<open>The end of both branches: a \<open>CONNECT\<close> is answered, any other request is forwarded.\<close>

definition is_connect_line :: "string \<Rightarrow> bool" where
  "is_connect_line first_line \<longleftrightarrow> contains ''CONNECT'' first_line"

definition http_via_socks4 :: "byte list \<Rightarrow> unit io" where
  "http_via_socks4 request =
     (let request_str = from_utf8_lossy request; first_line = hd (lines request_str)
      in await (lift_result (host_header request_str)) (\<lambda>(host, port).
         (let socks_request = socks4_request host port
          in andthen (write_all Upstream socks_request)
            (andthen (bytes_out (length socks_request))
            (await (read_exact Upstream 8) (\<lambda>response.
             andthen (bytes_in 8)
             (if response ! 1 \<noteq> 0x5A then fail (Protocol ''SOCKS4 connection failed'')
              else if is_connect_line first_line
              then andthen (write_all Client (as_bytes established)) (bytes_out 47)
              else andthen (write_all Upstream request) (bytes_out (length request)))))))))"

definition http_socks5_auth :: "proxy_config \<Rightarrow> unit io" where
  "http_socks5_auth p =
     (case (px_username p, px_password p) of
        (Some username, Some password) \<Rightarrow>
          (let auth_request = socks5_auth_request username password
           in andthen (write_all Upstream auth_request)
             (andthen (bytes_out (length auth_request))
             (await (read_exact Upstream 2) (\<lambda>auth_response.
              andthen (bytes_in 2)
              (if auth_response ! 1 \<noteq> 0x00 then fail (Protocol ''SOCKS5 authentication failed'')
               else ret ())))))
      | _ \<Rightarrow> fail (Protocol ''Username/password required but not provided''))"

definition http_socks5_skip :: "byte \<Rightarrow> unit io" where
  "http_socks5_skip atyp =
     (if atyp = 0x01 then await (read_exact Upstream 6) (\<lambda>_. ret ())
      else if atyp = 0x03 then
        await (read_exact Upstream 1) (\<lambda>len.
        await (read_exact Upstream (unat (len ! 0) + 2)) (\<lambda>_. ret ()))
      else if atyp = 0x04 then await (read_exact Upstream 18) (\<lambda>_. ret ())
      else fail (Protocol ''Invalid address type''))"

definition http_socks5_connect :: "proxy_config \<Rightarrow> string \<Rightarrow> u16 \<Rightarrow> unit io" where
  "http_socks5_connect p host port =
     andthen (write_all Upstream (socks5_greeting p))
     (await (read_exact Upstream 2) (\<lambda>response.
      andthen
        (if response ! 1 = 0x02 then http_socks5_auth p
         else if response ! 1 \<noteq> 0x00 then fail (Protocol ''Upstream SOCKS5 handshake failed'')
         else ret ())
     (andthen (write_all Upstream (socks5_request host port))
     (await (read_exact Upstream 4) (\<lambda>response.
        if response ! 1 \<noteq> 0x00 then fail (Protocol ''Connection failed'')
        else http_socks5_skip (response ! 3))))))"

definition http_via_socks5 :: "byte list \<Rightarrow> proxy_config \<Rightarrow> unit io" where
  "http_via_socks5 request p =
     (let request_str = from_utf8_lossy request; first_line = hd (lines request_str)
      in await (lift_result (host_header request_str)) (\<lambda>(host, port).
         andthen (http_socks5_connect p host port)
           (if is_connect_line first_line
            then andthen (write_all Client (as_bytes established)) (bytes_out 47)
            else andthen (bytes_out (length request)) (write_all Upstream request))))"

section \<open>The handler\<close>

definition http_handle ::
  "base64 \<Rightarrow> string \<Rightarrow> byte list \<Rightarrow> proxy_config \<Rightarrow> unit io \<Rightarrow> unit io"
where
  "http_handle b upstream_addr request p relay =
     (case lines (from_utf8_lossy request) of
        [] \<Rightarrow> fail (Protocol ''Invalid HTTP request'')
      | _ # _ \<Rightarrow>
          andthen (connect upstream_addr)
          (andthen set_nodelay
          (andthen
             (case px_type p of
                Http \<Rightarrow> http_via_http b request p
              | Https \<Rightarrow> http_via_http b request p
              | Socks4 \<Rightarrow> http_via_socks4 request
              | Socks5 \<Rightarrow> http_via_socks5 request p)
             relay)))"

section \<open>Its SOCKS5 handshake is a tunnel\<close>

lemma http_socks5_upstream: "emits upstream_event (http_socks5_connect p host port)"
  unfolding http_socks5_connect_def http_socks5_auth_def http_socks5_skip_def Let_def
  by (intro wp_rules) simp_all

lemma http_socks5_grants: "returns (http_socks5_connect p host port) (\<lambda>_. granted Socks5 b p host port)"
proof -
  have auth: "emits upstream_event (if r ! 1 = 0x02 then http_socks5_auth p
      else if r ! 1 \<noteq> 0x00 then fail e else ret ())" for r :: "byte list" and e
    unfolding http_socks5_auth_def Let_def by (intro wp_rules) simp_all
  have skip: "emits upstream_event (http_socks5_skip a)" for a
    unfolding http_socks5_skip_def by (intro wp_rules) simp_all
  have sent: "granted Socks5 b p host port (e1 # e2 # a @
      Did (WriteAll Upstream (socks5_request host port)) (Some R_Done) #
      Did (ReadExact Upstream 4) (Some (R_Bytes r)) # es)"
    if "r ! 1 = 0x00" for e1 e2 a r es
    using that
    by (intro granted_Cons granted_prefix granted_now(2)) (simp_all add: grants_def hop_request_def)
  show ?thesis
    unfolding http_socks5_connect_def
    by (intro post_rules returns_andthen [OF returns_emits [OF auth]]
        returns_mono [OF returns_emits [OF skip]]) (simp add: sent)
qed

interpretation http_socks5: tunnel http_socks5_connect "granted Socks5 b" for b
  by unfold_locales (rule http_socks5_upstream, rule returnsD [OF http_socks5_grants])

end
