(* ===== verification/Inbound_Https.thy ===== *)
theory Inbound_Https
  imports Inbound_Http
begin

text \<open>
  \<open>Https::handle\<close> of \<open>src/protocols/https.rs\<close>: an inbound \<open>CONNECT\<close> through one upstream.
\<close>

section \<open>The target of the request line\<close>

text \<open>The second word of the line; host and port of it, with port 443 when none is readable.\<close>

definition https_target :: "string \<Rightarrow> proxy_error + string" where
  "https_target first_line =
     (case split_whitespace first_line of
        _ # target # _ \<Rightarrow> Inr target
      | _ \<Rightarrow> Inl (Protocol ''Invalid CONNECT request''))"

definition https_host_port :: "string \<Rightarrow> string \<times> u16" where
  "https_host_port target =
     (let parts = split_char CHR '':'' target;
          host = hd parts;
          port = (case tl parts of [] \<Rightarrow> ''443'' | q # _ \<Rightarrow> q)
      in (host, case parse_u16 port of None \<Rightarrow> 443 | Some n \<Rightarrow> n))"

section \<open>Branches\<close>

definition https_via_http :: "base64 \<Rightarrow> string \<Rightarrow> proxy_config \<Rightarrow> unit io" where
  "https_via_http b first_line p =
     await (lift_result (https_target first_line)) (\<lambda>target.
       (let modified_request = connect_head b p target
        in andthen (bytes_out (length modified_request))
          (andthen (write_all Upstream modified_request)
          (await (read_some Upstream 1024) (\<lambda>response.
             if \<not> contains ''200 Connection Established'' (from_utf8_lossy response)
             then fail (Protocol ''HTTPS tunnel failed'')
             else andthen (bytes_in (length response)) (write_all Client response))))))"

definition https_via_socks4 :: "string \<Rightarrow> unit io" where
  "https_via_socks4 first_line =
     await (lift_result (https_target first_line)) (\<lambda>target.
       (let (host, port) = https_host_port target; socks_request = socks4_request host port
        in andthen (write_all Upstream socks_request)
          (andthen (bytes_out (length socks_request))
          (await (read_exact Upstream 8) (\<lambda>response.
           andthen (bytes_in 8)
           (if response ! 1 \<noteq> 0x5A then fail (Protocol ''SOCKS4 connection failed'')
            else write_all Client (as_bytes established)))))))"

definition https_socks5_auth :: "proxy_config \<Rightarrow> unit io" where
  "https_socks5_auth p =
     (case (px_username p, px_password p) of
        (Some username, Some password) \<Rightarrow>
          (let auth_request = socks5_auth_request username password
           in andthen (write_all Upstream auth_request)
             (andthen (bytes_out (length auth_request))
             (await (read_exact Upstream 2) (\<lambda>auth_response.
              andthen (bytes_in 2)
              (if auth_response ! 1 \<noteq> 0x00 then fail (Protocol ''SOCKS5 authentication failed'')
               else ret ())))))
      | _ \<Rightarrow> fail (Protocol ''Username/password required but not provided''))"

definition https_socks5_skip :: "byte \<Rightarrow> unit io" where
  "https_socks5_skip atyp =
     (if atyp = 0x01 then await (read_exact Upstream 6) (\<lambda>_. bytes_in 6)
      else if atyp = 0x03 then
        await (read_exact Upstream 1) (\<lambda>len.
        andthen (bytes_in 1)
        (await (read_exact Upstream (unat (len ! 0) + 2)) (\<lambda>_.
         bytes_in (unat (len ! 0) + 2))))
      else if atyp = 0x04 then await (read_exact Upstream 18) (\<lambda>_. bytes_in 18)
      else fail (Protocol ''Invalid address type''))"

definition https_socks5_connect :: "proxy_config \<Rightarrow> string \<Rightarrow> u16 \<Rightarrow> unit io" where
  "https_socks5_connect p host port =
     (let socks_request = socks5_request host port
      in andthen (write_all Upstream (socks5_greeting p))
        (await (read_exact Upstream 2) (\<lambda>response.
         andthen
           (if response ! 1 = 0x02 then https_socks5_auth p
            else if response ! 1 \<noteq> 0x00 then fail (Protocol ''Upstream SOCKS5 handshake failed'')
            else ret ())
        (andthen (bytes_out (length socks_request))
        (andthen (write_all Upstream socks_request)
        (await (read_exact Upstream 4) (\<lambda>response.
         andthen (bytes_in 4)
          (if response ! 1 \<noteq> 0x00 then fail (Protocol ''Connection failed'')
           else https_socks5_skip (response ! 3)))))))))"

definition https_via_socks5 :: "string \<Rightarrow> proxy_config \<Rightarrow> unit io" where
  "https_via_socks5 first_line p =
     await (lift_result (https_target first_line)) (\<lambda>target.
       (let (host, port) = https_host_port target
        in andthen (https_socks5_connect p host port)
             (write_all Client (as_bytes established))))"

section \<open>The handler\<close>

definition https_handle ::
  "base64 \<Rightarrow> string \<Rightarrow> byte list \<Rightarrow> proxy_config \<Rightarrow> unit io \<Rightarrow> unit io"
where
  "https_handle b upstream_addr request p relay =
     (case lines (from_utf8_lossy request) of
        [] \<Rightarrow> fail (Protocol ''Invalid HTTPS request'')
      | first_line # _ \<Rightarrow>
          andthen (connect upstream_addr)
          (andthen set_nodelay
          (andthen
             (case px_type p of
                Http \<Rightarrow> https_via_http b first_line p
              | Https \<Rightarrow> https_via_http b first_line p
              | Socks4 \<Rightarrow> https_via_socks4 first_line
              | Socks5 \<Rightarrow> https_via_socks5 first_line p)
             relay)))"

section \<open>Its SOCKS5 handshake is a tunnel\<close>

lemma https_socks5_upstream: "emits upstream_event (https_socks5_connect p host port)"
  unfolding https_socks5_connect_def https_socks5_auth_def https_socks5_skip_def Let_def
  by (intro wp_rules) simp_all

lemma https_socks5_grants: "returns (https_socks5_connect p host port) (\<lambda>_. granted Socks5 b p host port)"
proof -
  have auth: "emits upstream_event (if r ! 1 = 0x02 then https_socks5_auth p
      else if r ! 1 \<noteq> 0x00 then fail e else ret ())" for r :: "byte list" and e
    unfolding https_socks5_auth_def Let_def by (intro wp_rules) simp_all
  have skip: "emits upstream_event (https_socks5_skip a)" for a
    unfolding https_socks5_skip_def by (intro wp_rules) simp_all
  have sent: "granted Socks5 b p host port (e1 # e2 # a @ BytesOut n #
      Did (WriteAll Upstream (socks5_request host port)) (Some R_Done) #
      Did (ReadExact Upstream 4) (Some (R_Bytes r)) # es)"
    if "r ! 1 = 0x00" for e1 e2 a n r es
    using that granted_now(2)
    by (intro granted_Cons granted_prefix granted_Cons [of _ _ _ _ _ _ "BytesOut n"] granted_now(2))
      (simp_all add: grants_def hop_request_def)
  show ?thesis
    unfolding https_socks5_connect_def Let_def
    by (intro post_rules returns_andthen [OF returns_emits [OF auth]]
        returns_mono [OF returns_emits [OF skip]]) (simp add: sent)
qed

interpretation https_socks5: tunnel https_socks5_connect "granted Socks5 b" for b
  by unfold_locales (rule https_socks5_upstream, rule returnsD [OF https_socks5_grants])

end
