(* ===== verification/Inbound_Socks4.thy ===== *)
theory Inbound_Socks4
  imports Inbound_Https
begin

text \<open>
  \<open>Socks4::handle\<close> of \<open>src/protocols/socks4.rs\<close>: an inbound SOCKS4/4a \<open>CONNECT\<close> through one
  upstream.  Indexing past the end of the request panics, as in the source.
\<close>

section \<open>Parsing the request\<close>

definition index_panic :: "nat \<Rightarrow> nat \<Rightarrow> string" where
  "index_panic len i =
     ''index out of bounds: the len is '' @ dec len @ '' but the index is '' @ dec i"

definition byte_at :: "byte list \<Rightarrow> nat \<Rightarrow> byte io" where
  "byte_at bs i = (if i < length bs then ret (bs ! i) else panic (index_panic (length bs) i))"

text \<open>The host: an address, or the name that follows the user id when the address is
  \<open>0.0.0.1\<close> or \<open>0.0.0.0\<close>.\<close>

definition socks4_target_host :: "byte list \<Rightarrow> string \<Rightarrow> proxy_error + string" where
  "socks4_target_host request ip =
     (let user_id_end = 8 + length (takeWhile (\<lambda>b. b \<noteq> 0) (drop 8 request))
      in if ip = ''0.0.0.1'' \<or> ip = ''0.0.0.0''
         then (let domain = takeWhile (\<lambda>b. b \<noteq> 0) (drop (user_id_end + 1) request)
               in if domain = [] then Inl (Protocol ''Invalid SOCKS4a request: missing domain'')
                  else Inr (from_utf8_lossy domain))
         else Inr ip)"

definition socks4_parse :: "byte list \<Rightarrow> (string \<times> u16) io" where
  "socks4_parse request =
     await (byte_at request 0) (\<lambda>version.
     if version \<noteq> 0x04 then fail (Protocol ''Invalid SOCKS4 version'')
     else
       andthen (bytes_in (length request))
      (await (byte_at request 1) (\<lambda>command.
       if command \<noteq> 0x01 then fail (Protocol ''Only CONNECT command is supported'')
       else
         await (byte_at request 2) (\<lambda>hi.
         await (byte_at request 3) (\<lambda>lo.
         await (byte_at request 4) (\<lambda>a.
         await (byte_at request 5) (\<lambda>b.
         await (byte_at request 6) (\<lambda>c.
         await (byte_at request 7) (\<lambda>d.
         await (lift_result (socks4_target_host request (dotted [a, b, c, d]))) (\<lambda>host.
           ret (host, port_of hi lo)))))))))))"

section \<open>Branches\<close>

definition socks4_granted_reply :: "byte list" where
  "socks4_granted_reply = [0x00, 0x5A, 0x00, 0x00, 0x00, 0x00, 0x00, 0x00]"

definition socks4_via_http :: "base64 \<Rightarrow> string \<Rightarrow> u16 \<Rightarrow> proxy_config \<Rightarrow> unit io" where
  "socks4_via_http b target_host port p =
     (let request = connect_request b p target_host port
      in andthen (write_all Upstream request)
        (andthen (bytes_out (length request))
        (await (read_some Upstream 1024) (\<lambda>response.
         andthen (bytes_in (length response))
         (if \<not> contains ''200 Connection Established'' (from_utf8_lossy response)
          then fail (Protocol ''HTTP tunnel failed'')
          else andthen (write_all Client socks4_granted_reply) (bytes_out 8))))))"

definition socks4_via_socks4 :: "byte list \<Rightarrow> unit io" where
  "socks4_via_socks4 request =
     andthen (write_all Upstream request)
     (andthen (bytes_out (length request))
     (await (read_exact Upstream 8) (\<lambda>response.
      andthen (bytes_in 8)
     (andthen (write_all Client response)
     (andthen (bytes_out 8)
      (if response ! 1 \<noteq> 0x5A then fail (Protocol ''SOCKS4 connection failed'') else ret ()))))))"

definition socks4_socks5_auth :: "proxy_config \<Rightarrow> unit io" where
  "socks4_socks5_auth p =
     (case (px_username p, px_password p) of
        (Some username, Some password) \<Rightarrow>
          (let auth_request = socks5_auth_request username password
           in andthen (write_all Upstream auth_request)
             (andthen (bytes_out (length auth_request))
             (await (read_exact Upstream 2) (\<lambda>auth_response.
              andthen (bytes_in 2)
              (if auth_response ! 1 \<noteq> 0x00 then fail (Protocol ''SOCKS5 authentication failed'')
               else ret ())))))
      | _ \<Rightarrow> fail (Protocol ''Username/password required but not provided''))"

definition socks4_socks5_skip :: "byte \<Rightarrow> unit io" where
  "socks4_socks5_skip atyp =
     (if atyp = 0x01 then await (read_exact Upstream 6) (\<lambda>_. ret ())
      else if atyp = 0x03 then
        await (read_exact Upstream 1) (\<lambda>len.
        await (read_exact Upstream (unat (len ! 0) + 2)) (\<lambda>_. ret ()))
      else if atyp = 0x04 then await (read_exact Upstream 18) (\<lambda>_. ret ())
      else fail (Protocol ''Invalid address type''))"

definition socks4_socks5_connect :: "proxy_config \<Rightarrow> string \<Rightarrow> u16 \<Rightarrow> unit io" where
  "socks4_socks5_connect p host port =
     andthen (write_all Upstream (socks5_greeting p))
     (await (read_exact Upstream 2) (\<lambda>response.
      andthen
        (if response ! 1 = 0x02 then socks4_socks5_auth p
         else if response ! 1 \<noteq> 0x00 then fail (Protocol ''Upstream SOCKS5 handshake failed'')
         else ret ())
     (andthen (write_all Upstream (socks5_request host port))
     (await (read_exact Upstream 4) (\<lambda>response.
        if response ! 1 \<noteq> 0x00 then fail (Protocol ''Connection failed'')
        else socks4_socks5_skip (response ! 3))))))"

definition socks4_via_socks5 :: "string \<Rightarrow> u16 \<Rightarrow> proxy_config \<Rightarrow> unit io" where
  "socks4_via_socks5 target_host port p =
     andthen (socks4_socks5_connect p target_host port)
     (andthen (write_all Client socks4_granted_reply) (bytes_out 8))"

section \<open>The handler\<close>

definition socks4_handle ::
  "base64 \<Rightarrow> string \<Rightarrow> byte list \<Rightarrow> proxy_config \<Rightarrow> unit io \<Rightarrow> unit io"
where
  "socks4_handle b upstream_addr request p relay =
     await (socks4_parse request) (\<lambda>(target_host, port).
     andthen (connect upstream_addr)
     (andthen set_nodelay
     (andthen
        (case px_type p of
           Http \<Rightarrow> socks4_via_http b target_host port p
         | Https \<Rightarrow> socks4_via_http b target_host port p
         | Socks4 \<Rightarrow> socks4_via_socks4 request
         | Socks5 \<Rightarrow> socks4_via_socks5 target_host port p)
        relay)))"

section \<open>Its SOCKS5 handshake is the one of the HTTP handler\<close>

lemma socks4_socks5_same: "socks4_socks5_connect = http_socks5_connect"
  unfolding socks4_socks5_connect_def http_socks5_connect_def socks4_socks5_auth_def
    http_socks5_auth_def socks4_socks5_skip_def http_socks5_skip_def
  by (rule refl)

interpretation socks4_socks5: tunnel socks4_socks5_connect "granted Socks5 b" for b
  unfolding socks4_socks5_same by (rule http_socks5.tunnel_axioms)

section \<open>Properties\<close>

text \<open>
  A SOCKS4 request that ends inside its fixed part makes the handler index past the end:
  it panics (the connection's task turns the panic into an error).
\<close>

theorem socks4_short_request_panics:
  assumes "length request < 8" and "0 < length request" and "request ! 0 = 4"
    and "1 < length request \<longrightarrow> request ! 1 = 1"
  shows "\<exists>m w'. socks4_parse request w = (Inl (Panic m), w')"
  using assms by (simp add: socks4_parse_def byte_at_def andthen_def io_simps)

theorem socks4_short_request_panics_witness:
  "\<exists>m w'. socks4_parse [4, 1, 0, 80] (started []) = (Inl (Panic m), w')"
  by (rule socks4_short_request_panics) simp_all

end
