(* ===== verification/Static_Backend.thy ===== *)
theory Static_Backend
  imports Auth_Backend
begin

text \<open>
  \<open>StaticAuthBackend\<close> of \<open>src/auth.rs\<close>: users from \<open>config.toml\<close>, balances in memory.
  The \<open>ipnet\<close> crate and \<open>IpAddr\<close>'s parser are the fields of \<open>net_ops\<close>.
\<close>

record ('ip, 'net) net_ops =
  ipnet_from_str :: "string \<Rightarrow> 'net option"
  ip_from_str :: "string \<Rightarrow> 'ip option"
  ipnet_from_ip :: "'ip \<Rightarrow> 'net"
  ipnet_contains :: "'net \<Rightarrow> 'ip \<Rightarrow> bool"

record 'net static_user =
  su_username :: string
  su_password :: string
  su_remaining :: "i64 option"
  su_allowed_nets :: "'net list"
  su_default_selection :: "string option"

definition parse_net :: "('ip, 'net) net_ops \<Rightarrow> string \<Rightarrow> auth_error + 'net" where
  "parse_net ops s =
     (case ipnet_from_str ops s of
        Some net \<Rightarrow> Inr net
      | None \<Rightarrow>
          (case ip_from_str ops s of
             None \<Rightarrow> Inl (Backend (''invalid allowed_ips entry '' @ [CHR 0x27] @ s @ [CHR 0x27]))
           | Some addr \<Rightarrow> Inr (ipnet_from_ip ops addr)))"

definition static_user_of :: "('ip, 'net) net_ops \<Rightarrow> user_config \<Rightarrow> auth_error + 'net static_user" where
  "static_user_of ops u =
     (case collect (map (parse_net ops) (uc_allowed_ips u)) of
        Inl e \<Rightarrow> Inl e
      | Inr nets \<Rightarrow> Inr
          \<lparr>su_username = uc_username u, su_password = uc_password u,
           su_remaining = uc_bandwidth_limit u, su_allowed_nets = nets,
           su_default_selection = uc_default_selection u\<rparr>)"

definition static_new :: "('ip, 'net) net_ops \<Rightarrow> user_config list \<Rightarrow> auth_error + 'net static_user list" where
  "static_new ops users = collect (map (static_user_of ops) users)"

definition account_for :: "nat \<Rightarrow> 'net static_user \<Rightarrow> account" where
  "account_for index user =
     \<lparr>acc_id = wrap_i64 ((if int index \<le> i64_max then int index else i64_max) + 1),
      acc_limit = su_remaining user,
      acc_default_selection = su_default_selection user\<rparr>"

text \<open>\<open>constant_time_eq\<close>: one pass over both strings, differences gathered with OR.\<close>

definition ct_diff :: "byte list \<Rightarrow> byte list \<Rightarrow> byte" where
  "ct_diff a b = foldl (\<lambda>diff (x, y). diff OR (x XOR y)) 0 (zip a b)"

definition constant_time_eq :: "string \<Rightarrow> string \<Rightarrow> bool" where
  "constant_time_eq a b =
     (let x = as_bytes a; y = as_bytes b in
      if length x \<noteq> length y then False else ct_diff x y = 0)"

fun authenticate_from :: "nat \<Rightarrow> 'net static_user list \<Rightarrow> string \<Rightarrow> string \<Rightarrow> account option" where
  "authenticate_from i [] username secret = None"
| "authenticate_from i (u # us) username secret =
     (if su_username u = username \<and> constant_time_eq (su_password u) secret
      then Some (account_for i u)
      else authenticate_from (Suc i) us username secret)"

definition static_authenticate ::
  "'net static_user list \<Rightarrow> string \<Rightarrow> string \<Rightarrow> auth_error + account option"
where
  "static_authenticate users username secret = Inr (authenticate_from 0 users username secret)"

fun by_ip_from ::
  "('ip, 'net) net_ops \<Rightarrow> nat \<Rightarrow> 'net static_user list \<Rightarrow> 'ip \<Rightarrow> account option"
where
  "by_ip_from ops i [] peer = None"
| "by_ip_from ops i (u # us) peer =
     (if list_ex (\<lambda>net. ipnet_contains ops net peer) (su_allowed_nets u)
      then Some (account_for i u)
      else by_ip_from ops (Suc i) us peer)"

definition static_authenticate_by_ip ::
  "('ip, 'net) net_ops \<Rightarrow> 'net static_user list \<Rightarrow> 'ip \<Rightarrow> auth_error + account option"
where
  "static_authenticate_by_ip ops users peer = Inr (by_ip_from ops 0 users peer)"

text \<open>
  \<open>report_usage\<close> when nothing else touches the balance: the compare-exchange succeeds at
  once.  (Usage_Cas treats the loop under interference.)
\<close>

definition user_index :: "'net static_user list \<Rightarrow> i64 \<Rightarrow> nat option" where
  "user_index users aid =
     (let k = wrap_i64 (aid - 1) in
      if 0 \<le> k \<and> nat k < length users then Some (nat k) else None)"

definition static_report_usage ::
  "'net static_user list \<Rightarrow> i64 \<Rightarrow> nat \<Rightarrow> nat \<Rightarrow> f64 \<Rightarrow>
   (auth_error + i64 option) \<times> 'net static_user list"
where
  "static_report_usage users aid bytes_in bytes_out cost =
     (case user_index users aid of
        None \<Rightarrow> (Inr None, users)
      | Some i \<Rightarrow>
          (case su_remaining (users ! i) of
             None \<Rightarrow> (Inr None, users)
           | Some cur \<Rightarrow>
               (let next = max 0 (wrap_i64 (cur - usage_debit bytes_in bytes_out cost))
                in (Inr (Some next), users[i := (users ! i)\<lparr>su_remaining := Some next\<rparr>]))))"

section \<open>Constant-time comparison is equality\<close>

lemma byte_xor_eq_0: "x XOR y = 0 \<longleftrightarrow> x = y" for x y :: byte
proof
  assume "x XOR y = 0"
  then have "(x XOR y) XOR y = 0 XOR y" by (rule arg_cong)
  then show "x = y" by (simp add: xor.assoc)
qed simp

lemma ct_fold:
  fixes xs ys :: "byte list"
  assumes "length xs = length ys"
  shows "foldl (\<lambda>diff (x, y). diff OR (x XOR y)) d (zip xs ys) = 0 \<longleftrightarrow> d = 0 \<and> xs = ys"
  using assms
proof (induction xs ys arbitrary: d rule: list_induct2)
  case (Cons x xs y ys)
  have "(d OR (x XOR y) = 0) \<longleftrightarrow> d = 0 \<and> x = y"
    by (simp only: or_eq_0_iff byte_xor_eq_0)
  then show ?case using Cons.IH by auto
qed simp

lemma constant_time_eq_iff: "constant_time_eq a b \<longleftrightarrow> a = b"
proof (cases "length a = length b")
  case True
  then have "length (as_bytes a) = length (as_bytes b)" by simp
  from ct_fold [OF this, of 0] True show ?thesis
    by (simp add: constant_time_eq_def ct_diff_def Let_def)
qed (auto simp: constant_time_eq_def Let_def)

section \<open>Which account an operation finds\<close>

lemma authenticate_from_SomeD:
  "authenticate_from i us n p = Some a \<Longrightarrow>
    \<exists>k < length us. a = account_for (i + k) (us ! k) \<and> su_username (us ! k) = n
      \<and> constant_time_eq (su_password (us ! k)) p"
proof (induction i us n p rule: authenticate_from.induct)
  case (2 i u us n p)
  show ?case
  proof (cases "su_username u = n \<and> constant_time_eq (su_password u) p")
    case True
    with "2.prems" show ?thesis by (intro exI [of _ 0]) auto
  next
    case False
    with "2.prems" have "authenticate_from (Suc i) us n p = Some a" by auto
    with "2.IH" [OF False] obtain k where "k < length us" "a = account_for (Suc i + k) (us ! k)"
      "su_username (us ! k) = n" "constant_time_eq (su_password (us ! k)) p" by blast
    then show ?thesis by (intro exI [of _ "Suc k"]) auto
  qed
qed simp

lemma by_ip_from_SomeD:
  "by_ip_from ops i us ip = Some a \<Longrightarrow>
    \<exists>k < length us. a = account_for (i + k) (us ! k)
      \<and> (\<exists>net \<in> set (su_allowed_nets (us ! k)). ipnet_contains ops net ip)"
proof (induction ops i us ip rule: by_ip_from.induct)
  case (2 ops i u us ip)
  show ?case
  proof (cases "list_ex (\<lambda>net. ipnet_contains ops net ip) (su_allowed_nets u)")
    case True
    with "2.prems" show ?thesis by (intro exI [of _ 0]) (auto simp: list_ex_iff)
  next
    case False
    with "2.prems" have "by_ip_from ops (Suc i) us ip = Some a" by auto
    with "2.IH" [OF False] obtain k where "k < length us" "a = account_for (Suc i + k) (us ! k)"
      "\<exists>net \<in> set (su_allowed_nets (us ! k)). ipnet_contains ops net ip" by blast
    then show ?thesis by (intro exI [of _ "Suc k"]) auto
  qed
qed simp

section \<open>The trait's laws\<close>

definition static_balance :: "'net static_user list \<Rightarrow> i64 \<Rightarrow> i64 option option" where
  "static_balance users aid =
     (case user_index users aid of None \<Rightarrow> None | Some i \<Rightarrow> Some (su_remaining (users ! i)))"

text \<open>
  The invariant: no more users than ids, and no balance so far below zero that
  \<open>cur - debit\<close> could wrap (every balance a report leaves is at least zero).
\<close>

definition static_invar :: "'net static_user list \<Rightarrow> bool" where
  "static_invar users \<longleftrightarrow> int (length users) \<le> i64_max
     \<and> (\<forall>u \<in> set users. \<forall>b. su_remaining u = Some b \<longrightarrow> - 1 \<le> b \<and> b \<le> i64_max)"

lemma user_index_eq:
  "static_invar users \<Longrightarrow> in_i64 aid \<Longrightarrow>
    user_index users aid =
      (if 1 \<le> aid \<and> aid \<le> int (length users) then Some (nat (aid - 1)) else None)"
  by (auto simp: user_index_def Let_def wrap_i64_pred static_invar_def)

lemma account_for_id:
  "static_invar users \<Longrightarrow> k < length users \<Longrightarrow> acc_id (account_for k u) = int k + 1"
  by (auto simp: account_for_def static_invar_def in_i64_def)

lemma static_balance_account:
  assumes "static_invar users" and "k < length users"
  shows "static_balance users (acc_id (account_for k (users ! k)))
       = Some (acc_limit (account_for k (users ! k)))"
proof -
  have "in_i64 (int k + 1)" using assms by (simp add: static_invar_def in_i64_def)
  then show ?thesis using assms
    by (simp add: static_balance_def user_index_eq account_for_id) (simp add: account_for_def)
qed

text \<open>One report, on an account whose balance the invariant keeps in range.\<close>

lemma no_underflow: "- 1 \<le> b \<Longrightarrow> b \<le> i64_max \<Longrightarrow> wrap_i64 (b - usage_debit i o' c) = b - usage_debit i o' c"
  using usage_debit_range [of i o' c] by (intro wrap_i64_id) (unfold in_i64_def, linarith)

lemma static_report_limited:
  assumes "static_invar users" and "user_index users aid = Some i" and "i < length users"
    and "su_remaining (users ! i) = Some b"
  shows "static_report_usage users aid bin bout c =
    (Inr (Some (max 0 (b - usage_debit bin bout c))),
     users[i := (users ! i)\<lparr>su_remaining := Some (max 0 (b - usage_debit bin bout c))\<rparr>])"
proof -
  have "users ! i \<in> set users" using assms(3) by simp
  then have "- 1 \<le> b" "b \<le> i64_max" using assms(1,4) unfolding static_invar_def by blast+
  then show ?thesis using assms
    by (simp add: static_report_usage_def no_underflow Let_def)
qed

interpretation static: auth_backend static_report_usage static_balance static_invar
  static_authenticate "static_authenticate_by_ip ops"
  for ops :: "('ip, 'net) net_ops"
proof unfold_locales
  fix s s' :: "'net static_user list" and i bin bout c r b
  assume inv: "static_invar s" and i: "in_i64 i"
    and rep: "static_report_usage s i bin bout c = (Inr r, s')"
    and bal: "static_balance s i = Some (Some b)"
  from bal obtain k where k: "user_index s i = Some k" "su_remaining (s ! k) = Some b"
    by (auto simp: static_balance_def split: option.splits)
  then have kl: "k < length s" by (auto simp: user_index_def Let_def split: if_splits)
  show "r = Some (max 0 (b - usage_debit bin bout c))
      \<and> static_balance s' i = Some (Some (max 0 (b - usage_debit bin bout c)))"
    using rep k kl static_report_limited [OF inv k(1) kl k(2)]
    by (auto simp: static_balance_def user_index_def Let_def split: if_splits)
next
  fix s s' :: "'net static_user list" and i bin bout c r
  assume "static_report_usage s i bin bout c = (Inr r, s')"
    and "static_balance s i = Some None \<or> static_balance s i = None"
  then show "r = None \<and> static_balance s' i = static_balance s i"
    by (auto simp: static_report_usage_def static_balance_def split: option.splits)
next
  fix s s' :: "'net static_user list" and i j bin bout c r
  assume inv: "static_invar s" and ij: "in_i64 i" "in_i64 j" "j \<noteq> i"
    and rep: "static_report_usage s i bin bout c = (Inr r, s')"
  then show "static_balance s' j = static_balance s j"
    by (auto simp: static_report_usage_def static_balance_def user_index_def Let_def
        wrap_i64_pred nth_list_update static_invar_def split: option.splits if_splits)
next
  fix s s' :: "'net static_user list" and i bin bout c e
  assume "static_report_usage s i bin bout c = (Inl e, s')" and "static_invar s"
  then show "static_invar s' \<and> static_balance s' = static_balance s"
    by (auto simp: static_report_usage_def Let_def split: option.splits)
next
  fix s s' :: "'net static_user list" and i bin bout c r
  assume inv: "static_invar s" and rep: "static_report_usage s i bin bout c = (Inr r, s')"
  show "static_invar s'"
  proof (cases "s' = s")
    case False
    with rep obtain k b where k: "user_index s i = Some k" "su_remaining (s ! k) = Some b"
      by (auto simp: static_report_usage_def split: option.splits)
    then have kl: "k < length s" by (auto simp: user_index_def Let_def split: if_splits)
    have "s ! k \<in> set s" using kl by simp
    then have "b \<le> i64_max" using inv k(2) unfolding static_invar_def by blast
    then have "- 1 \<le> max 0 (b - usage_debit bin bout c) \<and> max 0 (b - usage_debit bin bout c) \<le> i64_max"
      using usage_debit_range [of bin bout c] by linarith
    moreover have "s' = s[k := (s ! k)\<lparr>su_remaining := Some (max 0 (b - usage_debit bin bout c))\<rparr>]"
      using rep static_report_limited [OF inv k(1) kl k(2), of bin bout c] by auto
    ultimately show ?thesis using inv
      by (auto simp: static_invar_def dest!: set_update_subset_insert [THEN subsetD])
  qed (use inv in simp)
next
  fix s :: "'net static_user list" and u p a
  assume inv: "static_invar s" and "static_authenticate s u p = Inr (Some a)"
  then obtain k where "k < length s" "a = account_for (0 + k) (s ! k)"
    by (auto simp: static_authenticate_def dest: authenticate_from_SomeD)
  then show "static_balance s (acc_id a) = Some (acc_limit a)"
    using static_balance_account [OF inv] by simp
next
  fix s :: "'net static_user list" and ip a
  assume inv: "static_invar s" and "static_authenticate_by_ip ops s ip = Inr (Some a)"
  then obtain k where "k < length s" "a = account_for (0 + k) (s ! k)"
    by (auto simp: static_authenticate_by_ip_def dest: by_ip_from_SomeD)
  then show "static_balance s (acc_id a) = Some (acc_limit a)"
    using static_balance_account [OF inv] by simp
qed

section \<open>Properties\<close>

lemma authenticate_from_find:
  "authenticate_from i us n p =
     (case find (\<lambda>(k, u). su_username u = n \<and> su_password u = p) (enumerate i us) of
        None \<Rightarrow> None | Some (k, u) \<Rightarrow> Some (account_for k u))"
  by (induction i us n p rule: authenticate_from.induct) (simp_all add: constant_time_eq_iff)

text \<open>
  C31. Logging in finds the first configured user with that very name and password, with its
  current balance and its one-based index as id, and nobody otherwise.
\<close>

theorem static_authenticate_first_match:
  "static_authenticate users n p =
     Inr (case find (\<lambda>(k, u). su_username u = n \<and> su_password u = p) (enumerate 0 users) of
            None \<Rightarrow> None
          | Some (k, u) \<Rightarrow> Some (account_for k u))"
  by (simp add: static_authenticate_def authenticate_from_find)

lemma static_report_accepts: "fst (static_report_usage users aid bin bout c) \<noteq> Inl e"
  by (auto simp: static_report_usage_def Let_def split: option.split)

lemma static_accepts_all: "accepted_reports static_report_usage rs users = rs"
proof (induction rs arbitrary: users)
  case (Cons x rs)
  obtain aid bin bout c where x: "x = (aid, bin, bout, c)" by (cases x)
  show ?case
    using Cons.IH static_report_accepts [of users aid bin bout c]
    by (cases "static_report_usage users aid bin bout c") (auto simp: x split: sum.split)
qed simp

text \<open>
  C15. In-memory accounting: after any sequence of reports, by any accounts in any
  order, a limited account's balance is its start less the sum of its own debits, floored
  at zero.
\<close>

theorem static_reports_balance:
  assumes "static_invar users" and "\<forall>r \<in> set rs. in_i64 (fst r)" and "in_i64 aid"
    and "static_balance users aid = Some (Some b)" and "0 \<le> b"
  shows "static_balance (run_reports static_report_usage rs users) aid =
    Some (Some (max 0 (b - spent aid rs)))"
  using static.run_reports_balance [OF assms] by (simp add: static_accepts_all)

definition two_users :: "unit static_user list" where
  "two_users =
     [\<lparr>su_username = ''a'', su_password = ''x'', su_remaining = Some 10, su_allowed_nets = [],
        su_default_selection = None\<rparr>,
      \<lparr>su_username = ''b'', su_password = ''y'', su_remaining = Some 7, su_allowed_nets = [],
        su_default_selection = None\<rparr>]"

theorem static_reports_balance_witness:
  "static_balance (run_reports static_report_usage
       [(1, 2, 1, default_cost_per_byte), (2, 4, 0, default_cost_per_byte), (1, 0, 5, default_cost_per_byte)]
       two_users) 1 = Some (Some 2)"
proof -
  let ?rs = "[(1, 2, 1, default_cost_per_byte), (2, 4, 0, default_cost_per_byte),
      (1, 0, 5, default_cost_per_byte)] :: (i64 \<times> nat \<times> nat \<times> f64) list"
  have "static_invar two_users" by (simp add: static_invar_def two_users_def)
  moreover have "static_balance two_users 1 = Some (Some 10)"
    by (simp add: two_users_def static_balance_def user_index_def in_i64_def)
  moreover have "spent 1 ?rs = 8" by (simp add: usage_debit_one)
  ultimately show ?thesis
    using static_reports_balance [of two_users ?rs 1 10] by (simp add: in_i64_def)
qed

end
