(* ===== verification/Relay.thy ===== *)
theory Relay
  imports Targets Static_Backend
begin

text \<open>
  \<open>ProxyServer::proxy_data\<close>: two copy loops over one connection, run by \<open>tokio::select!\<close>
  until the first of them ends.  A loop is a small machine that is resumed with the answer
  of the operation it awaits; the order in which the two are resumed, and how much of a
  buffer one write takes, is the environment's.  A loop's end is what \<open>select!\<close> returns: its
  own branch is ready in the same poll in which it signals its channel.
\<close>

section \<open>The state of a relay\<close>

datatype relay_pc =
    Reading
  | Reporting "byte list"
  | Writing "byte list" nat
  | Flushing
  | Finished "proxy_error + unit"

text \<open>
  \<open>fl_received\<close> and \<open>fl_delivered\<close> are what has been read from the one socket and written to
  the other so far; \<open>rl_reports\<close> are the calls of \<open>report_usage\<close>, in order.
\<close>

record flow =
  fl_pc :: relay_pc
  fl_received :: "byte list"
  fl_delivered :: "byte list"

record relay =
  rl_flows :: "direction \<Rightarrow> flow"
  rl_reports :: "(i64 \<times> nat \<times> nat \<times> f64) list"
  rl_events :: "event list"

record meter =
  mt_account :: "i64 option"
  mt_cost :: f64
  mt_peer :: string

definition relay_start :: relay where
  "relay_start = \<lparr>rl_flows = (\<lambda>_. \<lparr>fl_pc = Reading, fl_received = [], fl_delivered = []\<rparr>),
     rl_reports = [], rl_events = []\<rparr>"

section \<open>Resuming a loop\<close>

definition buffer_size :: nat where
  "buffer_size = 8192"

definition count_bytes :: "direction \<Rightarrow> nat \<Rightarrow> event list" where
  "count_bytes d n =
     (case d of
        ToUpstream \<Rightarrow> [BytesOut (as_u64 n), Counter ''purroute_bytes_out_total'' (as_u64 n)]
      | ToClient \<Rightarrow> [BytesIn (as_u64 n), Counter ''purroute_bytes_in_total'' (as_u64 n)])"

definition usage_call :: "direction \<Rightarrow> i64 \<Rightarrow> nat \<Rightarrow> f64 \<Rightarrow> i64 \<times> nat \<times> nat \<times> f64" where
  "usage_call d aid n cost =
     (case d of
        ToUpstream \<Rightarrow> (aid, 0, as_u64 n, cost)
      | ToClient \<Rightarrow> (aid, as_u64 n, 0, cost))"

text \<open>The call and its return as they appear in a connection's trace.\<close>

definition charge_event :: "i64 \<times> nat \<times> nat \<times> f64 \<Rightarrow> event" where
  "charge_event u = (case u of (aid, bin, bout, cost) \<Rightarrow> Charge aid bin bout cost)"

definition settled_events :: "meter \<Rightarrow> direction \<Rightarrow> byte list \<Rightarrow> auth_error + i64 option \<Rightarrow> event list" where
  "settled_events m d bs res =
     (case mt_account m of
        None \<Rightarrow> []
      | Some aid \<Rightarrow>
          (case usage_call d aid (length bs) (mt_cost m) of
             (i, bin, bout, cost) \<Rightarrow> [Settled i bin bout cost res]))"

definition read_error :: "direction \<Rightarrow> string \<Rightarrow> string \<Rightarrow> string" where
  "read_error d peer e =
     (case d of
        ToUpstream \<Rightarrow> ''Error reading from client '' @ peer @ '': '' @ e
      | ToClient \<Rightarrow> ''Error reading from upstream for '' @ peer @ '': '' @ e)"

definition write_error :: "direction \<Rightarrow> string \<Rightarrow> string \<Rightarrow> string" where
  "write_error d peer e =
     (case d of
        ToUpstream \<Rightarrow> ''Error writing to upstream for '' @ peer @ '': '' @ e
      | ToClient \<Rightarrow> ''Error writing to client '' @ peer @ '': '' @ e)"

definition flush_error :: "direction \<Rightarrow> string \<Rightarrow> string \<Rightarrow> string" where
  "flush_error d peer e =
     (case d of
        ToUpstream \<Rightarrow> ''Error flushing upstream for '' @ peer @ '': '' @ e
      | ToClient \<Rightarrow> ''Error flushing client '' @ peer @ '': '' @ e)"

text \<open>The steps of one loop: next program point, bytes read, bytes written, calls, events.\<close>

record outcome =
  oc_pc :: relay_pc
  oc_read :: "byte list"
  oc_written :: "byte list"
  oc_calls :: "(i64 \<times> nat \<times> nat \<times> f64) list"
  oc_events :: "event list"

definition goes :: "relay_pc \<Rightarrow> outcome" where
  "goes pc = \<lparr>oc_pc = pc, oc_read = [], oc_written = [], oc_calls = [], oc_events = []\<rparr>"

definition ends_io :: "string \<Rightarrow> string \<Rightarrow> outcome" where
  "ends_io msg e = (goes (Finished (Inl (Io e))))\<lparr>oc_events := [ConnResult False msg]\<rparr>"

definition on_read :: "meter \<Rightarrow> direction \<Rightarrow> resp \<Rightarrow> outcome option" where
  "on_read m d r =
     (case r of
        R_Bytes bs \<Rightarrow>
          (if buffer_size < length bs then None
           else if bs = [] then Some (goes (Finished (Inr ())))
           else Some (case mt_account m of
                        None \<Rightarrow> (goes (Writing bs 0))\<lparr>oc_read := bs, oc_events := count_bytes d (length bs)\<rparr>
                      | Some aid \<Rightarrow> (goes (Reporting bs))\<lparr>oc_read := bs,
                          oc_calls := [usage_call d aid (length bs) (mt_cost m)],
                          oc_events := count_bytes d (length bs)
                            @ [charge_event (usage_call d aid (length bs) (mt_cost m))]\<rparr>))
      | R_IoErr e \<Rightarrow> Some (ends_io (read_error d (mt_peer m) e) e)
      | _ \<Rightarrow> None)"

definition on_report :: "meter \<Rightarrow> direction \<Rightarrow> byte list \<Rightarrow> resp \<Rightarrow> outcome option" where
  "on_report m d bs r =
     (case r of
        R_Remaining remaining \<Rightarrow>
          Some ((goes (case remaining of
                         Some n \<Rightarrow> if n \<le> 0 then Finished (Inl BandwidthExceeded) else Writing bs 0
                       | None \<Rightarrow> Writing bs 0))\<lparr>oc_events := settled_events m d bs (Inr remaining)\<rparr>)
      | R_AuthErr e \<Rightarrow>
          Some ((goes (Finished (Inl (auth_io_error e))))\<lparr>oc_events := settled_events m d bs (Inl e)\<rparr>)
      | _ \<Rightarrow> None)"

text \<open>\<open>write_all\<close> writes piece by piece; a write that takes nothing is an error.\<close>

definition on_write :: "meter \<Rightarrow> direction \<Rightarrow> byte list \<Rightarrow> nat \<Rightarrow> resp \<Rightarrow> outcome option" where
  "on_write m d bs k r =
     (case r of
        R_Wrote n \<Rightarrow>
          (if length bs < k + n then None
           else if n = 0 then Some (ends_io (write_error d (mt_peer m) ''failed to write whole buffer'')
                                    ''failed to write whole buffer'')
           else Some ((goes (if k + n = length bs then Flushing else Writing bs (k + n)))
                        \<lparr>oc_written := take n (drop k bs), oc_events := [Copied d (take n (drop k bs))]\<rparr>))
      | R_IoErr e \<Rightarrow> Some (ends_io (write_error d (mt_peer m) e) e)
      | _ \<Rightarrow> None)"

definition on_flush :: "meter \<Rightarrow> direction \<Rightarrow> resp \<Rightarrow> outcome option" where
  "on_flush m d r =
     (case r of
        R_Done \<Rightarrow> Some (goes Reading)
      | R_IoErr e \<Rightarrow> Some (ends_io (flush_error d (mt_peer m) e) e)
      | _ \<Rightarrow> None)"

definition loop_outcome :: "meter \<Rightarrow> direction \<Rightarrow> relay_pc \<Rightarrow> resp \<Rightarrow> outcome option" where
  "loop_outcome m d pc r =
     (case pc of
        Reading \<Rightarrow> on_read m d r
      | Reporting bs \<Rightarrow> on_report m d bs r
      | Writing bs k \<Rightarrow> on_write m d bs k r
      | Flushing \<Rightarrow> on_flush m d r
      | Finished _ \<Rightarrow> None)"

definition apply_outcome :: "direction \<Rightarrow> outcome \<Rightarrow> relay \<Rightarrow> relay" where
  "apply_outcome d oc s =
     (let f = rl_flows s d
      in s\<lparr>rl_flows := (rl_flows s)(d := \<lparr>fl_pc = oc_pc oc,
             fl_received = fl_received f @ oc_read oc,
             fl_delivered = fl_delivered f @ oc_written oc\<rparr>),
           rl_reports := rl_reports s @ oc_calls oc,
           rl_events := rl_events s @ oc_events oc\<rparr>)"

definition relay_resume :: "meter \<Rightarrow> direction \<Rightarrow> resp \<Rightarrow> relay \<Rightarrow> relay option" where
  "relay_resume m d r s =
     map_option (\<lambda>oc. apply_outcome d oc s) (loop_outcome m d (fl_pc (rl_flows s d)) r)"

section \<open>Running a relay\<close>

text \<open>
  The result of the loop that ended, if one has.
\<close>

definition relay_result :: "relay \<Rightarrow> (proxy_error + unit) option" where
  "relay_result s =
     (case fl_pc (rl_flows s ToUpstream) of
        Finished r \<Rightarrow> Some r
      | _ \<Rightarrow> (case fl_pc (rl_flows s ToClient) of Finished r \<Rightarrow> Some r | _ \<Rightarrow> None))"

text \<open>\<open>select!\<close>: resume loops as the script says until one ends; the state and what is left
  of the script, and no result when the script runs out or does not fit.\<close>

fun relay_run :: "meter \<Rightarrow> relay \<Rightarrow> resp list \<Rightarrow> (proxy_error + unit) option \<times> relay \<times> resp list" where
  "relay_run m s [] = (None, s, [])"
| "relay_run m s (r # rs) =
     (case r of
        R_Relay d a \<Rightarrow>
          (case relay_resume m d a s of
             None \<Rightarrow> (None, s, r # rs)
           | Some s' \<Rightarrow>
               (case relay_result s' of
                  Some res \<Rightarrow> (Some res, s', rs)
                | None \<Rightarrow> relay_run m s' rs))
      | _ \<Rightarrow> (None, s, r # rs))"

definition select_loops :: "meter \<Rightarrow> (proxy_error + unit) io" where
  "select_loops m w =
     (case relay_run m relay_start (w_script w) of
        (None, s, rs) \<Rightarrow> (Inl Blocked, w\<lparr>w_script := rs, w_trace := w_trace w @ rl_events s\<rparr>)
      | (Some res, s, rs) \<Rightarrow> (Inr res, w\<lparr>w_script := rs, w_trace := w_trace w @ rl_events s\<rparr>))"

definition proxy_data :: "string \<Rightarrow> i64 option \<Rightarrow> f64 \<Rightarrow> unit io" where
  "proxy_data peer account cost =
     await (select_loops \<lparr>mt_account = account, mt_cost = cost, mt_peer = peer\<rparr>) (\<lambda>result.
     andthen (emit DecActive)
     (andthen (emit (InfoLog (''Connection closed for '' @ peer)))
       (lift_result result)))"

section \<open>Interleavings as a step relation\<close>

inductive relay_step :: "meter \<Rightarrow> relay \<Rightarrow> relay \<Rightarrow> bool" for m where
  resume: "relay_result s = None \<Longrightarrow> relay_resume m d r s = Some t \<Longrightarrow> relay_step m s t"

inductive relay_reachable :: "meter \<Rightarrow> relay \<Rightarrow> bool" for m where
  start: "relay_reachable m relay_start"
| step: "relay_reachable m s \<Longrightarrow> relay_step m s t \<Longrightarrow> relay_reachable m t"

inductive_cases relay_stepE: "relay_step m s t"

lemma relay_result_start [simp]: "relay_result relay_start = None"
  by (simp add: relay_result_def relay_start_def)

text \<open>Every state the executable relay passes through is reachable.\<close>

lemma relay_run_reachable:
  "relay_reachable m s \<Longrightarrow> relay_result s = None \<Longrightarrow> relay_run m s rs = (res, s', rs') \<Longrightarrow>
     relay_reachable m s' \<and> relay_result s' = res"
proof (induction m s rs rule: relay_run.induct)
  case (2 m s r rs)
  show ?case
  proof (cases "\<exists>d a t. r = R_Relay d a \<and> relay_resume m d a s = Some t")
    case True
    then obtain d a t where r: "r = R_Relay d a" and t: "relay_resume m d a s = Some t" by blast
    have "relay_reachable m t"
      using "2.prems"(1,2) t by (blast intro: relay_reachable.step relay_step.resume)
    with "2.IH" [OF r t] "2.prems"(3) r t show ?thesis by (auto split: option.splits)
  next
    case False
    then show ?thesis using "2.prems" by (cases r) (auto split: option.splits)
  qed
qed simp

text \<open>Conversely, a script drives the executable relay along any single step.\<close>

lemma relay_step_run:
  "relay_step m s t \<Longrightarrow> \<exists>r. relay_run m s (r # rs) =
     (case relay_result t of Some res \<Rightarrow> (Some res, t, rs) | None \<Rightarrow> relay_run m t rs)"
proof (elim relay_stepE)
  fix d r
  assume "relay_resume m d r s = Some t"
  then show ?thesis by (intro exI [of _ "R_Relay d r"]) (simp split: option.split)
qed

section \<open>The invariant\<close>

text \<open>What a loop has read and not yet written.\<close>

fun in_flight :: "relay_pc \<Rightarrow> byte list" where
  "in_flight Reading = []"
| "in_flight (Reporting bs) = bs"
| "in_flight (Writing bs k) = drop k bs"
| "in_flight Flushing = []"
| "in_flight (Finished _) = []"

fun pc_ok :: "relay_pc \<Rightarrow> bool" where
  "pc_ok (Reporting bs) \<longleftrightarrow> bs \<noteq> [] \<and> length bs \<le> buffer_size"
| "pc_ok (Writing bs k) \<longleftrightarrow> k < length bs \<and> length bs \<le> buffer_size"
| "pc_ok _ \<longleftrightarrow> True"

fun is_finished_pc :: "relay_pc \<Rightarrow> bool" where
  "is_finished_pc (Finished _) = True"
| "is_finished_pc _ = False"

text \<open>
  Nothing is lost, repeated or reordered: what was read is what was written followed by what
  is in flight; a loop that has ended drops at most one buffer.
\<close>

definition flow_ok :: "flow \<Rightarrow> bool" where
  "flow_ok f \<longleftrightarrow> pc_ok (fl_pc f)
     \<and> (\<exists>rest. fl_received f = fl_delivered f @ rest \<and> length rest \<le> buffer_size
          \<and> (\<not> is_finished_pc (fl_pc f) \<longrightarrow> rest = in_flight (fl_pc f)))"

lemma flow_ok_start: "flow_ok (rl_flows relay_start d)"
  by (simp add: flow_ok_def relay_start_def)

lemma drop_split: "take n (drop k xs) @ drop (k + n) xs = drop k xs"
  by (metis add.commute append_take_drop_id drop_drop)

lemma loop_outcome_flow:
  assumes ok: "flow_ok f" and oc: "loop_outcome m d (fl_pc f) r = Some oc"
  shows "flow_ok \<lparr>fl_pc = oc_pc oc, fl_received = fl_received f @ oc_read oc,
           fl_delivered = fl_delivered f @ oc_written oc\<rparr>"
proof (cases "fl_pc f")
  case Reading
  with ok oc show ?thesis
    by (auto simp: flow_ok_def loop_outcome_def on_read_def goes_def ends_io_def
        split: resp.splits if_splits option.splits)
next
  case (Reporting bs)
  with ok oc show ?thesis
    by (auto simp: flow_ok_def loop_outcome_def on_report_def goes_def
        split: resp.splits if_splits option.splits)
next
  case (Writing bs k)
  with ok oc show ?thesis
    by (auto simp: flow_ok_def loop_outcome_def on_write_def goes_def ends_io_def
        drop_split split: resp.splits if_splits)
next
  case Flushing
  with ok oc show ?thesis
    by (auto simp: flow_ok_def loop_outcome_def on_flush_def goes_def ends_io_def split: resp.splits)
next
  case (Finished res)
  with oc show ?thesis by (simp add: loop_outcome_def)
qed

lemma relay_flow_ok: "relay_reachable m s \<Longrightarrow> flow_ok (rl_flows s d)"
proof (induction rule: relay_reachable.induct)
  case start
  show ?case by (rule flow_ok_start)
next
  case (step s t)
  from step.hyps(2) obtain d' r oc where
    oc: "loop_outcome m d' (fl_pc (rl_flows s d')) r = Some oc" and t: "t = apply_outcome d' oc s"
    by (auto elim!: relay_stepE simp: relay_resume_def)
  show ?case
  proof (cases "d = d'")
    case True
    with step.IH oc show ?thesis by (simp add: t apply_outcome_def Let_def loop_outcome_flow)
  next
    case False
    with step.IH show ?thesis by (simp add: t apply_outcome_def Let_def)
  qed
qed

section \<open>Metering\<close>

text \<open>The bytes the reports of one direction stand for.\<close>

definition reported :: "direction \<Rightarrow> (i64 \<times> nat \<times> nat \<times> f64) list \<Rightarrow> nat" where
  "reported d calls = (\<Sum>(_, bin, bout, _) \<leftarrow> calls. case d of ToUpstream \<Rightarrow> bout | ToClient \<Rightarrow> bin)"

lemma reported_simps [simp]:
  "reported d [] = 0"
  "reported d (x @ y) = reported d x + reported d y"
  "reported d [usage_call d' aid n c] = (if d = d' then as_u64 n else 0)"
  by (auto simp: reported_def usage_call_def split: direction.split)

definition metered :: "meter \<Rightarrow> relay \<Rightarrow> bool" where
  "metered m s \<longleftrightarrow> (\<forall>d. reported d (rl_reports s) =
     (case mt_account m of None \<Rightarrow> 0 | Some _ \<Rightarrow> length (fl_received (rl_flows s d))))"

lemma loop_outcome_metered:
  assumes "loop_outcome m d pc r = Some oc"
  shows "reported d' (oc_calls oc) =
    (case mt_account m of None \<Rightarrow> 0 | Some _ \<Rightarrow> if d' = d then length (oc_read oc) else 0)"
proof -
  have "length bs \<le> buffer_size \<Longrightarrow> as_u64 (length bs) = length bs" for bs :: "byte list"
    by (simp add: as_u64_def buffer_size_def)
  then show ?thesis
    using assms
    by (auto simp: loop_outcome_def on_read_def on_report_def on_write_def on_flush_def goes_def
        ends_io_def split: relay_pc.splits resp.splits if_splits option.splits)
qed

lemma relay_metered: "relay_reachable m s \<Longrightarrow> metered m s"
proof (induction rule: relay_reachable.induct)
  case start
  show ?case by (simp add: metered_def relay_start_def split: option.split)
next
  case (step s t)
  from step.hyps(2) obtain d' r oc where
    oc: "loop_outcome m d' (fl_pc (rl_flows s d')) r = Some oc" and t: "t = apply_outcome d' oc s"
    by (auto elim!: relay_stepE simp: relay_resume_def)
  show ?case
    using step.IH loop_outcome_metered [OF oc]
    by (auto simp: metered_def t apply_outcome_def Let_def split: option.splits)
qed

lemma relay_run_from_start:
  "relay_run m relay_start rs = (res, s, rs') \<Longrightarrow> relay_reachable m s \<and> relay_result s = res"
  using relay_run_reachable [OF relay_reachable.start relay_result_start] .

section \<open>Properties\<close>


text \<open>A relay that copies three bytes to the upstream, in two writes, until the client ends.\<close>

definition sample_script :: "resp list" where
  "sample_script = map (R_Relay ToUpstream)
     [R_Bytes [1, 2, 3], R_Wrote 2, R_Wrote 1, R_Done, R_Bytes []]"

definition sample_meter :: "i64 option \<Rightarrow> meter" where
  "sample_meter account = \<lparr>mt_account = account, mt_cost = default_cost_per_byte, mt_peer = ''peer''\<rparr>"

lemma sample_run:
  "\<exists>s. relay_run (sample_meter None) relay_start sample_script = (Some (Inr ()), s, [])
     \<and> fl_delivered (rl_flows s ToUpstream) = [1, 2, 3]"
  by (simp add: sample_script_def sample_meter_def relay_resume_def loop_outcome_def on_read_def
      on_write_def on_flush_def goes_def apply_outcome_def relay_start_def relay_result_def
      buffer_size_def Let_def)


text \<open>
  C25. Every byte a metered relay reads is reported to the backend exactly once, in its
  direction; an unmetered relay reports nothing.
\<close>

theorem relay_reports_every_byte:
  "case relay_run m relay_start script of (res, s, rest) \<Rightarrow>
     reported d (rl_reports s) =
       (case mt_account m of None \<Rightarrow> 0 | Some _ \<Rightarrow> length (fl_received (rl_flows s d)))"
  using relay_metered relay_run_from_start [of m script]
  by (cases "relay_run m relay_start script") (auto simp: metered_def)



section \<open>The shortest relays\<close>

text \<open>The first thing to happen is an end of file, or a read error, on one side.\<close>

lemma proxy_data_eof:
  "proxy_data peer account cost \<lparr>w_script = R_Relay d (R_Bytes []) # rs, w_trace = tr\<rparr> =
     (Inr (), \<lparr>w_script = rs, w_trace = tr @ [DecActive, InfoLog (''Connection closed for '' @ peer)]\<rparr>)"
  by (cases d)
    (simp_all add: proxy_data_def select_loops_def relay_resume_def loop_outcome_def on_read_def
      goes_def apply_outcome_def relay_start_def relay_result_def await_def andthen_def emit_def
      lift_result_def ret_def Let_def)

lemma proxy_data_read_error:
  "proxy_data peer account cost \<lparr>w_script = R_Relay d (R_IoErr e) # rs, w_trace = tr\<rparr> =
     (Inl (Fail (Io e)), \<lparr>w_script = rs, w_trace = tr @ [ConnResult False (read_error d peer e),
        DecActive, InfoLog (''Connection closed for '' @ peer)]\<rparr>)"
  by (cases d)
    (simp_all add: proxy_data_def select_loops_def relay_resume_def loop_outcome_def on_read_def
      ends_io_def goes_def apply_outcome_def relay_start_def relay_result_def await_def andthen_def
      emit_def lift_result_def fault_with_def Let_def)

end
