(* ===== verification/Server.thy ===== *)
theory Server
  imports Inbound_Socks4 Relay
begin

text \<open>
  \<open>ProxyServer\<close> of \<open>src/protocols/proxy.rs\<close>: authentication of a request, the routing
  selection, the SOCKS5 handler, the multi-hop handlers, and a whole connection from its
  first bytes to the end of its task.
\<close>

section \<open>The context of a connection\<close>

text \<open>
  The upstream set is replaced concurrently, so each resolution of a connection sees its
  own snapshot of the server and its own random draws; \<open>cx_peer\<close> is the peer's address.
\<close>

record conn_ctx =
  cx_base64 :: base64
  cx_config :: router_config
  cx_server :: server
  cx_rand :: rand
  cx_server_socks5 :: server
  cx_rand_socks5 :: rand
  cx_peer :: string

definition auth_enabled :: "router_config \<Rightarrow> bool" where
  "auth_enabled cfg = (case rc_auth cfg of None \<Rightarrow> False | Some a \<Rightarrow> a)"

section \<open>authenticate_user\<close>

text \<open>\<open>map_err(|_| AuthFailed)?.ok_or(AuthFailed)?\<close>.\<close>

definition require_account :: "auth_error + account option \<Rightarrow> account io" where
  "require_account res =
     (case res of
        Inl _ \<Rightarrow> fail AuthFailed
      | Inr a \<Rightarrow> (case a of None \<Rightarrow> fail AuthFailed | Some acc \<Rightarrow> ret acc))"

definition authenticate_ip :: "conn_ctx \<Rightarrow> i64 option io" where
  "authenticate_ip cx =
     await (call_authenticate_by_ip (cx_peer cx)) (\<lambda>res.
     await (require_account res) (\<lambda>acc.
     andthen (check_bandwidth (acc_limit acc) ''<ip>'') (ret (Some (acc_id acc)))))"

text \<open>The user name and password of the header's base64 text.\<close>

definition basic_credentials :: "base64 \<Rightarrow> string \<Rightarrow> (string \<times> string) option" where
  "basic_credentials b line =
     (case b64_decode b (trim (drop 27 line)) of
        None \<Rightarrow> None
      | Some decoded \<Rightarrow>
          (case from_utf8 decoded of
             None \<Rightarrow> None
           | Some credentials \<Rightarrow>
               (case split_char CHR '':'' credentials of
                  raw_username # password # _ \<Rightarrow> Some (raw_username, password)
                | _ \<Rightarrow> None)))"

definition login :: "string \<Rightarrow> string \<Rightarrow> i64 option io" where
  "login username password =
     await (call_authenticate username password) (\<lambda>res.
     await (require_account res) (\<lambda>acc.
     andthen (check_bandwidth (acc_limit acc) username) (ret (Some (acc_id acc)))))"

definition authenticate_user :: "conn_ctx \<Rightarrow> byte list \<Rightarrow> i64 option io" where
  "authenticate_user cx request =
     (if auth_enabled (cx_config cx) then
        (case find (lower_starts_with auth_header_prefix) (lines (from_utf8_lossy request)) of
           None \<Rightarrow> authenticate_ip cx
         | Some line \<Rightarrow>
             (case basic_credentials (cx_base64 cx) line of
                None \<Rightarrow> fail AuthFailed
              | Some (raw_username, password) \<Rightarrow>
                  (case parse_username raw_username of
                     Inl _ \<Rightarrow> fail AuthFailed
                   | Inr (username, _) \<Rightarrow> login username password)))
      else ret None)"

section \<open>selection_for\<close>

text \<open>The account's stored selection, found by source address.\<close>

definition stored_selection :: "conn_ctx \<Rightarrow> selection \<Rightarrow> selection io" where
  "stored_selection cx sel =
     await (call_authenticate_by_ip (cx_peer cx)) (\<lambda>res.
       ret (case res of
              Inr (Some acc) \<Rightarrow>
                (case acc_default_selection acc of
                   None \<Rightarrow> sel
                 | Some def \<Rightarrow> (case parse_username def of Inl _ \<Rightarrow> sel | Inr (_, s) \<Rightarrow> s))
            | _ \<Rightarrow> sel))"

definition request_username :: "conn_ctx \<Rightarrow> protocol \<Rightarrow> byte list \<Rightarrow> string option" where
  "request_username cx proto request =
     (case proto of
        Http \<Rightarrow> http_proxy_username (cx_base64 cx) request
      | Https \<Rightarrow> http_proxy_username (cx_base64 cx) request
      | Socks4 \<Rightarrow> socks4_userid request
      | Socks5 \<Rightarrow> None)"

definition token_selection :: "string option \<Rightarrow> selection" where
  "token_selection username =
     (case username of
        None \<Rightarrow> selection_default
      | Some u \<Rightarrow> (case parse_username u of Inl _ \<Rightarrow> selection_default | Inr (_, s) \<Rightarrow> s))"

definition selection_for :: "conn_ctx \<Rightarrow> protocol \<Rightarrow> byte list \<Rightarrow> selection io" where
  "selection_for cx proto request =
     (let from_tokens = token_selection (request_username cx proto request)
      in if \<not> is_empty from_tokens then ret from_tokens
         else stored_selection cx from_tokens)"

section \<open>SOCKS5\<close>

definition socks5_methods :: "byte list \<Rightarrow> byte list io" where
  "socks5_methods initial_request =
     andthen (bytes_in (as_u64 (length initial_request)))
     (if length initial_request < 3 then fail (Protocol ''Invalid SOCKS5 greeting length'')
      else if initial_request ! 0 \<noteq> 0x05 then fail (Protocol ''Invalid SOCKS5 version'')
      else if length initial_request < 2 + unat (initial_request ! 1)
      then fail (Protocol ''Invalid SOCKS5 greeting: insufficient methods'')
      else ret (take (unat (initial_request ! 1)) (drop 2 initial_request)))"

definition socks5_credentials :: "byte list \<Rightarrow> proxy_error + (string \<times> string)" where
  "socks5_credentials a =
     (if length a < 3 \<or> a ! 0 \<noteq> 0x01 then Inl (Protocol ''Invalid SOCKS5 auth request'')
      else
        (let ulen = unat (a ! 1)
         in if length a < 2 + ulen + 1 then Inl (Protocol ''Invalid SOCKS5 auth username length'')
            else
              (let plen = unat (a ! (2 + ulen))
               in if length a < 2 + ulen + 1 + plen
                  then Inl (Protocol ''Invalid SOCKS5 auth password length'')
                  else Inr (from_utf8_lossy (take ulen (drop 2 a)),
                            from_utf8_lossy (take plen (drop (2 + ulen + 1) a))))))"

text \<open>The user/password sub-negotiation; the account and the username's selection.\<close>

definition socks5_user_auth :: "byte list \<Rightarrow> (i64 option \<times> selection) io" where
  "socks5_user_auth methods =
     (if 0x02 \<notin> set methods
      then andthen (write_all Client [0x05, 0xFF]) (andthen (bytes_out 2) (fail AuthFailed))
      else
        andthen (write_all Client [0x05, 0x02])
       (andthen (bytes_out 2)
       (await (read_some Client 513) (\<lambda>a.
        andthen (bytes_in (as_u64 (length a)))
       (await (lift_result (socks5_credentials a)) (\<lambda>(raw_username, password).
          (case parse_username raw_username of
             Inl _ \<Rightarrow> fail AuthFailed
           | Inr (username, sel) \<Rightarrow>
               await (login username password) (\<lambda>account.
               andthen (write_all Client [0x01, 0x00])
              (andthen (bytes_out 2) (ret (account, sel)))))))))))"

definition socks5_no_auth :: "byte list \<Rightarrow> (i64 option \<times> selection) io" where
  "socks5_no_auth methods =
     (if 0x00 \<notin> set methods
      then andthen (write_all Client [0x05, 0xFF])
          (andthen (bytes_out 2) (fail (Protocol ''Client does not support no authentication'')))
      else andthen (write_all Client [0x05, 0x00])
          (andthen (bytes_out 2) (ret (None, selection_default))))"

text \<open>The request's address.\<close>

definition hex_groups :: "byte list \<Rightarrow> string" where
  "hex_groups a =
     join '':'' (map (\<lambda>i. hex (unat (from_be_bytes (a ! (2 * i)) (a ! (2 * i + 1))))) [0..<8])"

definition socks5_target :: "(string \<times> u16) io" where
  "socks5_target =
     await (read_exact Client 4) (\<lambda>header.
     andthen (bytes_in 4)
     (if header ! 0 \<noteq> 0x05 then fail (Protocol ''Invalid SOCKS5 version in request'')
      else if header ! 3 = 0x01 then
        await (read_exact Client 6) (\<lambda>addr.
        andthen (bytes_in 6)
        (ret (dotted (take 4 addr), from_be_bytes (addr ! 4) (addr ! 5))))
      else if header ! 3 = 0x03 then
        await (read_exact Client 1) (\<lambda>len.
        andthen (bytes_in 1)
       (let domain_len = unat (len ! 0)
        in await (read_exact Client (domain_len + 2)) (\<lambda>domain.
           andthen (bytes_in (as_u64 domain_len + 2))
           (ret (from_utf8_lossy (take domain_len domain),
                 from_be_bytes (domain ! domain_len) (domain ! (domain_len + 1)))))))
      else if header ! 3 = 0x04 then
        await (read_exact Client 18) (\<lambda>addr.
        andthen (bytes_in 18)
        (ret (hex_groups addr, from_be_bytes (addr ! 16) (addr ! 17))))
      else fail (Protocol ''Unsupported address type'')))"

definition chain_cost :: "proxy_config list \<Rightarrow> f64" where
  "chain_cost hops = (case hops of [] \<Rightarrow> f64_one | p # _ \<Rightarrow> px_cost_per_byte p)"

definition socks5_success :: "byte list" where
  "socks5_success = [0x05, 0x00, 0x00, 0x01, 0x00, 0x00, 0x00, 0x00, 0x00, 0x00]"

definition socks5_negotiate :: "conn_ctx \<Rightarrow> byte list \<Rightarrow> (i64 option \<times> selection) io" where
  "socks5_negotiate cx initial_request =
     await (socks5_methods initial_request) (\<lambda>methods.
       if auth_enabled (cx_config cx) then socks5_user_auth methods else socks5_no_auth methods)"

definition socks5_open :: "conn_ctx \<Rightarrow> selection \<Rightarrow> f64 io" where
  "socks5_open cx sel =
     await socks5_target (\<lambda>(target_host, target_port).
     await (if is_empty sel then stored_selection cx sel else ret sel) (\<lambda>selection.
     await (lift_fault (resolve_proxy_chain (cx_rand_socks5 cx) (cx_server_socks5 cx) selection)) (\<lambda>hops.
     andthen (emit (Histogram ''purroute_chain_hops'' (length hops)))
    (andthen (connect_chain (cx_base64 cx) hops target_host target_port)
    (andthen (write_all Client socks5_success)
    (andthen (bytes_out (as_u64 (length socks5_success)))
    (andthen (emit (ConnResult True (''SOCKS5 Chain Connection successful for '' @ cx_peer cx)))
      (ret (chain_cost hops)))))))))"

definition handle_socks5 :: "conn_ctx \<Rightarrow> byte list \<Rightarrow> unit io" where
  "handle_socks5 cx initial_request =
     await (socks5_negotiate cx initial_request) (\<lambda>(user_account, sel).
     await (socks5_open cx sel) (\<lambda>cost_per_byte.
       proxy_data (cx_peer cx) user_account cost_per_byte))"

section \<open>Multi-hop handlers\<close>

definition socks4_chain_reply :: "byte list" where
  "socks4_chain_reply = [0x00, 0x5A, 0, 0, 0, 0, 0, 0]"

definition handle_socks4_chain :: "conn_ctx \<Rightarrow> byte list \<Rightarrow> proxy_config list \<Rightarrow> unit io" where
  "handle_socks4_chain cx initial_request hops =
     andthen (bytes_in (as_u64 (length initial_request)))
    (await (authenticate_user cx initial_request) (\<lambda>user_account.
     await (lift_result (parse_socks4_target initial_request)) (\<lambda>(target_host, target_port).
     andthen (connect_chain (cx_base64 cx) hops target_host target_port)
    (andthen (write_all Client socks4_chain_reply)
    (andthen (bytes_out (as_u64 (length socks4_chain_reply)))
    (andthen (emit (ConnResult True (''SOCKS4 chain connection successful for '' @ cx_peer cx)))
      (proxy_data (cx_peer cx) user_account (chain_cost hops))))))))"

definition handle_https_chain :: "conn_ctx \<Rightarrow> byte list \<Rightarrow> proxy_config list \<Rightarrow> unit io" where
  "handle_https_chain cx initial_request hops =
     andthen (bytes_in (as_u64 (length initial_request)))
    (await (authenticate_user cx initial_request) (\<lambda>user_account.
     await (lift_result (parse_connect_target initial_request)) (\<lambda>(target_host, target_port).
     andthen (connect_chain (cx_base64 cx) hops target_host target_port)
    (andthen (write_all Client (as_bytes established))
    (andthen (bytes_out (as_u64 (length established)))
    (andthen (emit (ConnResult True (''HTTPS chain connection successful for '' @ cx_peer cx)))
      (proxy_data (cx_peer cx) user_account (chain_cost hops))))))))"

definition handle_http_chain :: "conn_ctx \<Rightarrow> byte list \<Rightarrow> proxy_config list \<Rightarrow> unit io" where
  "handle_http_chain cx initial_request hops =
     (let forwarded = to_origin_form initial_request
      in andthen (bytes_in (as_u64 (length initial_request)))
    (await (authenticate_user cx initial_request) (\<lambda>user_account.
     await (lift_result (parse_http_target initial_request)) (\<lambda>(target_host, target_port).
     andthen (connect_chain (cx_base64 cx) hops target_host target_port)
    (andthen (write_all Upstream forwarded)
    (andthen (flush Upstream)
    (andthen (bytes_out (as_u64 (length forwarded)))
    (andthen (emit (ConnResult True (''HTTP chain connection successful for '' @ cx_peer cx)))
      (proxy_data (cx_peer cx) user_account (chain_cost hops))))))))))"

section \<open>A connection\<close>

text \<open>The single-hop handlers, with the relay as their closure.\<close>

definition single_hop ::
  "conn_ctx \<Rightarrow> string \<Rightarrow> (base64 \<Rightarrow> string \<Rightarrow> byte list \<Rightarrow> proxy_config \<Rightarrow> unit io \<Rightarrow> unit io) \<Rightarrow>
   byte list \<Rightarrow> proxy_config \<Rightarrow> f64 \<Rightarrow> unit io"
where
  "single_hop cx name handler initial_request target_proxy cost_per_byte =
     await (authenticate_user cx initial_request) (\<lambda>user_account.
       handler (cx_base64 cx) (get_upstream_addr target_proxy) initial_request target_proxy
         (andthen (emit (ConnResult True (name @ '' Connection successful for '' @ cx_peer cx)))
           (proxy_data (cx_peer cx) user_account cost_per_byte)))"

definition dispatch ::
  "conn_ctx \<Rightarrow> protocol \<Rightarrow> byte list \<Rightarrow> proxy_config list \<Rightarrow> proxy_config \<Rightarrow> unit io"
where
  "dispatch cx proto initial_request hops target_proxy =
     (let multi_hop = (1 < length hops); cost_per_byte = chain_cost hops
      in case proto of
           Socks5 \<Rightarrow> handle_socks5 cx initial_request
         | Socks4 \<Rightarrow>
             (if multi_hop then handle_socks4_chain cx initial_request hops
              else single_hop cx ''Socks4'' socks4_handle initial_request target_proxy cost_per_byte)
         | Https \<Rightarrow>
             (if multi_hop then handle_https_chain cx initial_request hops
              else single_hop cx ''HTTPS'' https_handle initial_request target_proxy cost_per_byte)
         | Http \<Rightarrow>
             (if multi_hop then handle_http_chain cx initial_request hops
              else single_hop cx ''HTTP'' http_handle initial_request target_proxy cost_per_byte))"

definition log_path :: "string option \<Rightarrow> string \<Rightarrow> proxy_config list \<Rightarrow> unit io" where
  "log_path label peer hops =
     (if 1 < length hops
      then emit (InfoLog (''Using chain: '' @ join '' -> '' (List.map_filter px_label hops)
             @ '' ('' @ dec (length hops) @ '' hops)''))
      else (case label of
              Some l \<Rightarrow> emit (InfoLog (''Using proxy '' @ CHR 0x27 # l @ CHR 0x27 #
                          '' for connection from '' @ peer))
            | None \<Rightarrow> ret ()))"

definition connection_body :: "conn_ctx \<Rightarrow> string option \<Rightarrow> unit io" where
  "connection_body cx label =
     await (timed_read Timeout Client 8192) (\<lambda>initial_request.
     await (lift_result (detect_protocol initial_request)) (\<lambda>proto.
     andthen (emit (Counter (''purroute_connections_total protocol='' @ protocol_as_str proto) 1))
    (andthen (emit (InfoLog (''Protocol '' @ protocol_debug proto @ '' detected from '' @ cx_peer cx)))
    (await (selection_for cx proto initial_request) (\<lambda>selection.
     await (lift_fault (resolve_proxy_chain (cx_rand cx) (cx_server cx) selection)) (\<lambda>hops.
       (case hops of
          [] \<Rightarrow> panic (index_panic 0 0)
        | target_proxy # _ \<Rightarrow>
            andthen (emit (Histogram ''purroute_chain_hops'' (length hops)))
           (andthen (log_path label (cx_peer cx) hops)
             (dispatch cx proto initial_request hops target_proxy)))))))))"

text \<open>
  The body runs in a task of its own: a panic becomes an error whose text the runtime makes
  (\<open>join_error\<close>).
\<close>

definition handle_connection :: "(string \<Rightarrow> string) \<Rightarrow> conn_ctx \<Rightarrow> string option \<Rightarrow> unit io" where
  "handle_connection join_error cx label w =
     (case connection_body cx label w of
        (Inl (Panic m), w') \<Rightarrow> (Inl (Fail (Protocol (join_error m))), w')
      | r \<Rightarrow> r)"

text \<open>The task \<open>run\<close> spawns for an accepted connection.\<close>

definition connection_task :: "(string \<Rightarrow> string) \<Rightarrow> conn_ctx \<Rightarrow> string option \<Rightarrow> unit io" where
  "connection_task join_error cx label w =
     (case handle_connection join_error cx label w of
        (Inl (Fail e), w') \<Rightarrow>
          andthen (emit (ConnResult False (''Connection error from '' @ cx_peer cx @ '': ''
                           @ proxy_error_display e)))
            (emit DecActive) w'
      | r \<Rightarrow> r)"

text \<open>
  The accept loop: what each accepted connection adds before its task starts.  A failed
  \<open>accept\<close> ends the loop, and with it the server.
\<close>

datatype accepted = Accepted string | Accept_Error string

definition accept_events :: "string \<Rightarrow> event list" where
  "accept_events peer = [IncActive, InfoLog (''New connection from '' @ peer)]"

fun accept_loop :: "accepted list \<Rightarrow> proxy_error option \<times> string list \<times> event list" where
  "accept_loop [] = (None, [], [])"
| "accept_loop (Accept_Error e # _) = (Some (Io e), [], [])"
| "accept_loop (Accepted peer # rest) =
     (let (res, peers, es) = accept_loop rest in (res, peer # peers, accept_events peer @ es))"

definition server_run ::
  "string option \<Rightarrow> string \<Rightarrow> accepted list \<Rightarrow> proxy_error option \<times> string list \<times> event list"
where
  "server_run bind_error addr accepts =
     (case bind_error of
        Some e \<Rightarrow> (Some (Io e), [], [])
      | None \<Rightarrow>
          (let (res, peers, es) = accept_loop accepts
           in (res, peers, InfoLog (''Proxy server listening on '' @ addr) # es)))"

definition first_label :: "server \<Rightarrow> string option" where
  "first_label s = (case sv_proxies s of [] \<Rightarrow> None | p # _ \<Rightarrow> px_label p)"

section \<open>Reading back what a SOCKS5 client sends\<close>

lemma take_as_bytes_len: "take (length s) (as_bytes s @ r) = as_bytes s"
  using append_eq_conv_conj [of "as_bytes s" r] by simp

lemma drop_as_bytes_len: "drop (length s) (as_bytes s @ r) = r"
  using append_eq_conv_conj [of "as_bytes s" r] by simp

lemma nth_as_bytes_len: "(as_bytes s @ b # r) ! length s = b"
  using nth_append_length [of "as_bytes s" b r] by simp

lemma unat_len_u8: "length s < 256 \<Longrightarrow> unat (len_u8 s) = length s"
  by (simp add: len_u8_def unat_of_nat take_bit_eq_mod)

lemma socks5_credentials_request:
  "length username < 256 \<Longrightarrow> length password < 256 \<Longrightarrow> valid_str username \<Longrightarrow> valid_str password \<Longrightarrow>
    socks5_credentials (socks5_auth_request username password) = Inr (username, password)"
  using nth_as_bytes_len [of username "len_u8 password" "as_bytes password"]
  by (simp add: socks5_credentials_def socks5_auth_request_def Let_def unat_len_u8
      take_as_bytes_len drop_as_bytes_len from_utf8_lossy_as_bytes)

text \<open>The request, cut the way \<open>socks5_target\<close> reads it.\<close>

definition socks5_request_reads :: "string \<Rightarrow> u16 \<Rightarrow> resp list" where
  "socks5_request_reads host port =
     [R_Bytes (take 4 (socks5_request host port)), R_Bytes (take 1 (drop 4 (socks5_request host port))),
      R_Bytes (drop 5 (socks5_request host port))]"

lemma socks5_target_request:
  assumes "length host < 256" and "valid_str host"
  shows "fst (socks5_target (started (socks5_request_reads host port))) = Inr (host, port)"
proof -
  obtain hi lo where hl: "to_be_bytes port = [hi, lo]" by (simp add: to_be_bytes_def)
  have port: "from_be_bytes hi lo = port"
    using from_be_bytes_to_be_bytes [of port] by (simp add: hl)
  have len: "length (as_bytes host @ [hi, lo]) = length host + 2" by simp
  have reads: "socks5_request_reads host port =
      [R_Bytes [0x05, 0x01, 0x00, 0x03], R_Bytes [len_u8 host], R_Bytes (as_bytes host @ [hi, lo])]"
    by (simp add: socks5_request_reads_def socks5_request_def hl)
  have "(as_bytes host @ [hi, lo]) ! length host = hi" "(as_bytes host @ [hi, lo]) ! Suc (length host) = lo"
    by (simp_all add: nth_append)
  then show ?thesis
    using assms port
    by (simp add: socks5_target_def started_def reads andthen_def io_simps Let_def unat_len_u8
        take_as_bytes_len from_utf8_lossy_as_bytes)
qed

lemma basic_credentials_header:
  assumes "base64_ok b" and "CHR '':'' \<notin> set username" and "valid_str (username @ '':'' @ password)"
  shows "lower_starts_with auth_header_prefix (''Proxy-Authorization: Basic '' @ encode_auth b username password)
     \<and> basic_credentials b (''Proxy-Authorization: Basic '' @ encode_auth b username password) =
         Some (username, hd (split_char CHR '':'' password))"
proof
  let ?line = "''Proxy-Authorization: Basic '' @ encode_auth b username password"
  have "map to_ascii_lower ''Proxy-Authorization: Basic '' = auth_header_prefix" by code_simp
  then show "lower_starts_with auth_header_prefix ?line"
    by (simp only: lower_starts_with_def to_ascii_lowercase_def map_append starts_with_append)
  have "drop 27 ?line = encode_auth b username password" by simp
  moreover have "graphic (encode_auth b username password)"
    and dec: "b64_decode b (encode_auth b username password) = Some (as_bytes (username @ '':'' @ password))"
    using assms(1) by (simp_all add: base64_ok_def encode_auth_def del: as_bytes_append)
  ultimately have "b64_decode b (trim (drop 27 ?line)) = Some (as_bytes (username @ '':'' @ password))"
    by (simp only: trim_graphic)
  moreover have "from_utf8 (as_bytes (username @ '':'' @ password)) = Some (username @ '':'' @ password)"
    using assms(3) by (simp add: from_utf8_def del: as_bytes_append)
  moreover have "split_char CHR '':'' (username @ '':'' @ password) = username # split_char CHR '':'' password"
    using split_char_sep [OF assms(2), of password] by simp
  ultimately show "basic_credentials b ?line = Some (username, hd (split_char CHR '':'' password))"
    unfolding basic_credentials_def
    by (cases "split_char CHR '':'' password") (simp_all del: as_bytes_append)
qed

text \<open>
  C33. The \<open>Proxy-Authorization\<close> header the program writes is the one it reads: the user name
  comes back, and the password up to its first colon (all of it when it has none).
\<close>

theorem basic_credentials_round_trip:
  assumes "base64_ok b" and "CHR '':'' \<notin> set username" and "valid_str (username @ '':'' @ password)"
  shows "lower_starts_with auth_header_prefix (''Proxy-Authorization: Basic '' @ encode_auth b username password)
     \<and> basic_credentials b (''Proxy-Authorization: Basic '' @ encode_auth b username password) =
         Some (username, hd (split_char CHR '':'' password))"
  using assms by (rule basic_credentials_header)

theorem basic_credentials_round_trip_witness:
  "basic_credentials nibble_codec (''Proxy-Authorization: Basic '' @ encode_auth nibble_codec ''bob'' ''a:b'') =
     Some (''bob'', ''a'')"
proof -
  have "list_all ascii_char (''bob'' @ '':'' @ ''a:b'')" by code_simp
  then have "valid_str (''bob'' @ '':'' @ ''a:b'')"
    by (intro valid_str_ascii) (simp only: list_all_iff)
  moreover have "hd (split_char CHR '':'' ''a:b'') = ''a''" by (simp add: split_char_def)
  ultimately show ?thesis
    using basic_credentials_round_trip [OF nibble_codec_ok, of "''bob''" "''a:b''"] by simp
qed

end
