(* ===== verification/Admission.thy ===== *)
theory Admission
  imports Server
begin

text \<open>
  Admission: with authentication on, nothing reaches an upstream before the account backend
  has accepted the request's own credentials (or, for a request without any, its source
  address) for an account whose allowance is not spent; here for each handler up to the
  dispatch, with the rules for traces that whole connections are proved by.
\<close>

section \<open>Guarded traces\<close>

text \<open>\<open>leaves T m\<close>: what a run of \<open>m\<close> appends, whatever its result, satisfies \<open>T\<close>.\<close>

definition leaves :: "(event list \<Rightarrow> bool) \<Rightarrow> 'a io \<Rightarrow> bool" where
  "leaves T m \<longleftrightarrow> (\<forall>w r w'. m w = (r, w') \<longrightarrow> (\<exists>es. w_trace w' = w_trace w @ es \<and> T es))"

lemma leaves_mono: "leaves T m \<Longrightarrow> (\<And>es. T es \<Longrightarrow> U es) \<Longrightarrow> leaves U m"
  unfolding leaves_def by meson

lemma leaves_emits: "emits P m \<Longrightarrow> (\<And>es. \<forall>e \<in> set es. P e \<Longrightarrow> T es) \<Longrightarrow> leaves T m"
  unfolding leaves_def emits_def by meson

lemma leaves_seq:
  assumes m: "leaves S m" and k: "\<And>x. leaves T (k x)"
    and stop: "\<And>es. S es \<Longrightarrow> T es" and go: "\<And>es fs. S es \<Longrightarrow> T fs \<Longrightarrow> T (es @ fs)"
  shows "leaves T (await m k)"
  unfolding leaves_def
proof (intro allI impI)
  fix w r w'
  assume "await m k w = (r, w')"
  then show "\<exists>es. w_trace w' = w_trace w @ es \<and> T es"
  proof (cases rule: await_split)
    case (stop f)
    with m assms(3) show ?thesis unfolding leaves_def by blast
  next
    case (go x v)
    from m go(1) obtain es where es: "w_trace v = w_trace w @ es" "S es"
      unfolding leaves_def by blast
    from k go(2) obtain fs where "w_trace w' = w_trace v @ fs" "T fs"
      unfolding leaves_def by blast
    with es assms(4) show ?thesis by (intro exI [of _ "es @ fs"]) simp
  qed
qed

lemma leaves_await:
  "leaves T m \<Longrightarrow> (\<And>x. leaves T (k x)) \<Longrightarrow> (\<And>es fs. T es \<Longrightarrow> T fs \<Longrightarrow> T (es @ fs)) \<Longrightarrow>
    leaves T (await m k)"
  by (rule leaves_seq)

text \<open>What follows a part may rely on what that part has done and returned.\<close>

lemma leaves_gate:
  assumes emits: "emits P m" and returns: "returns m R" and stop: "\<And>es. \<forall>e \<in> set es. P e \<Longrightarrow> T es"
    and k: "\<And>x es. R x es \<Longrightarrow> \<forall>e \<in> set es. P e \<Longrightarrow> leaves (\<lambda>fs. T (es @ fs)) (k x)"
  shows "leaves T (await m k)"
  unfolding leaves_def
proof (intro allI impI)
  fix w r w'
  assume "await m k w = (r, w')"
  then show "\<exists>es. w_trace w' = w_trace w @ es \<and> T es"
  proof (cases rule: await_split)
    case (stop f)
    with emitsD [OF emits stop(1)] assms(3) show ?thesis by blast
  next
    case (go x v)
    from emitsD [OF emits go(1)] obtain es
      where es: "w_trace v = w_trace w @ es" "\<forall>e \<in> set es. P e" by blast
    from returnsD [OF returns go(1)] es(1) have "R x es" by auto
    from k [OF this es(2)] go(2) obtain fs where "w_trace w' = w_trace v @ fs" "T (es @ fs)"
      unfolding leaves_def by blast
    with es(1) show ?thesis by (intro exI [of _ "es @ fs"]) simp
  qed
qed

lemma leaves_case_list:
  "leaves T n \<Longrightarrow> (\<And>x xs. leaves T (c x xs)) \<Longrightarrow> leaves T (case v of [] \<Rightarrow> n | x # xs \<Rightarrow> c x xs)"
  by (cases v) simp_all

lemma leaves_case_prod: "(\<And>x y. leaves T (f x y)) \<Longrightarrow> leaves T (case v of (x, y) \<Rightarrow> f x y)"
  by (cases v) simp

text \<open>Every \<open>bad\<close> event has an \<open>ok\<close> event before it.\<close>

definition guarded :: "(event \<Rightarrow> bool) \<Rightarrow> (event \<Rightarrow> bool) \<Rightarrow> event list \<Rightarrow> bool" where
  "guarded bad ok es \<longleftrightarrow>
     (\<forall>i < length es. bad (es ! i) \<longrightarrow> (\<exists>j < i. ok (es ! j)))"

definition guards :: "(event \<Rightarrow> bool) \<Rightarrow> (event \<Rightarrow> bool) \<Rightarrow> 'a io \<Rightarrow> bool" where
  "guards bad ok m \<longleftrightarrow>
     (\<forall>w r w'. m w = (r, w') \<longrightarrow> (\<exists>es. w_trace w' = w_trace w @ es \<and> guarded bad ok es))"

lemma guards_leaves: "guards bad ok m \<longleftrightarrow> leaves (guarded bad ok) m"
  by (simp add: guards_def leaves_def)

lemma guarded_none: "\<forall>e \<in> set es. \<not> bad e \<Longrightarrow> guarded bad ok es"
  by (simp add: guarded_def)

lemma guarded_append: "guarded bad ok es \<Longrightarrow> guarded bad ok fs \<Longrightarrow> guarded bad ok (es @ fs)"
  unfolding guarded_def
proof (intro allI impI)
  fix i
  assume es: "\<forall>i<length es. bad (es ! i) \<longrightarrow> (\<exists>j<i. ok (es ! j))"
    and fs: "\<forall>i<length fs. bad (fs ! i) \<longrightarrow> (\<exists>j<i. ok (fs ! j))"
    and i: "i < length (es @ fs)" "bad ((es @ fs) ! i)"
  show "\<exists>j<i. ok ((es @ fs) ! j)"
  proof (cases "i < length es")
    case True
    with es i obtain j where "j < i" "ok (es ! j)" by (auto simp: nth_append)
    with True show ?thesis by (intro exI [of _ j]) (simp add: nth_append)
  next
    case False
    then have "i - length es < length fs" "bad (fs ! (i - length es))"
      using i by (auto simp: nth_append)
    with fs obtain j where "j < i - length es" "ok (fs ! j)" by blast
    with False show ?thesis by (intro exI [of _ "length es + j"]) (simp add: nth_append)
  qed
qed

lemma guarded_after:
  "\<forall>e \<in> set es. \<not> bad e \<Longrightarrow> e \<in> set es \<Longrightarrow> ok e \<Longrightarrow> guarded bad ok (es @ fs)"
  unfolding guarded_def
proof (intro allI impI)
  fix i
  assume none: "\<forall>e \<in> set es. \<not> bad e" and e: "e \<in> set es" "ok e"
    and i: "i < length (es @ fs)" "bad ((es @ fs) ! i)"
  from e obtain j where j: "j < length es" "es ! j = e" by (auto simp: in_set_conv_nth)
  have "length es \<le> i"
    using none i nth_mem [of i es] by (auto simp: nth_append split: if_splits)
  with j e show "\<exists>j<i. ok ((es @ fs) ! j)" by (intro exI [of _ j]) (simp add: nth_append)
qed

lemma guards_emits: "emits (\<lambda>e. \<not> bad e) m \<Longrightarrow> guards bad ok m"
  unfolding emits_def guards_def using guarded_none by blast

lemma guards_await:
  "guards bad ok m \<Longrightarrow> (\<And>x. guards bad ok (k x)) \<Longrightarrow> guards bad ok (await m k)"
  unfolding guards_leaves by (rule leaves_await) (simp_all add: guarded_append)

text \<open>A part that does nothing bad and returns only with an \<open>ok\<close> event guards all that follows.\<close>

lemma guards_gate:
  assumes quiet: "emits (\<lambda>e. \<not> bad e) m" and gate: "returns m (\<lambda>x es. \<exists>e \<in> set es. ok e)"
    and rest: "\<And>x. emits (\<lambda>_. True) (k x)"
  shows "guards bad ok (await m k)"
  unfolding guards_leaves
  by (rule leaves_gate [OF quiet gate], erule guarded_none, rule leaves_emits [OF rest])
    (auto intro: guarded_after)

section \<open>Upstream use and admission\<close>

fun upstream_use :: "event \<Rightarrow> bool" where
  "upstream_use (Did (Connect _) _) \<longleftrightarrow> True"
| "upstream_use (Did (WriteAll s _) _) \<longleftrightarrow> s = Upstream"
| "upstream_use (Copied _ _) \<longleftrightarrow> True"
| "upstream_use _ \<longleftrightarrow> False"

definition admissible :: "account \<Rightarrow> bool" where
  "admissible acc \<longleftrightarrow> (case acc_limit acc of None \<Rightarrow> True | Some n \<Rightarrow> 0 < n)"

lemma returns_require_account [post_rules]:
  "(\<And>acc. res = Inr (Some acc) \<Longrightarrow> returns (k acc) Q) \<Longrightarrow> returns (await (require_account res) k) Q"
  by (cases res) (auto simp: require_account_def io_simps returns_fault split: option.split)

lemma emits_require_account [wp_rules]: "emits P (require_account res)"
  unfolding require_account_def by (intro wp_rules)

lemma check_bandwidth_returns [post_rules]:
  "((\<forall>n. lim = Some n \<longrightarrow> 0 < n) \<Longrightarrow> returns k Q) \<Longrightarrow> returns (andthen (check_bandwidth lim u) k) Q"
  by (cases lim) (auto simp: check_bandwidth_def andthen_def io_simps await_assoc returns_def run_Inr)

lemma check_bandwidth_emits [wp_rules]: "(\<And>m. P (InfoLog m)) \<Longrightarrow> emits P (check_bandwidth lim u)"
  unfolding check_bandwidth_def by (intro wp_rules)

lemma login_returns:
  "returns (login u p) (\<lambda>x es. \<exists>acc. x = Some (acc_id acc) \<and> admissible acc
     \<and> es = [Did (Authenticate u p) (Some (R_Account (Some acc)))])"
  unfolding login_def
  by (intro returns_await [OF returns_prims(10)] post_rules) (auto simp: admissible_def split: option.split)

lemma authenticate_ip_returns:
  "returns (authenticate_ip cx) (\<lambda>x es. \<exists>acc. x = Some (acc_id acc) \<and> admissible acc
     \<and> es = [Did (AuthenticateByIp (cx_peer cx)) (Some (R_Account (Some acc)))])"
  unfolding authenticate_ip_def
  by (intro returns_await [OF returns_prims(11)] post_rules) (auto simp: admissible_def split: option.split)

text \<open>Which credentials a request carries: the base name of the header's user, and its password.\<close>

definition request_login :: "conn_ctx \<Rightarrow> byte list \<Rightarrow> (string \<times> string) option" where
  "request_login cx request =
     (case find (lower_starts_with auth_header_prefix) (lines (from_utf8_lossy request)) of
        None \<Rightarrow> None
      | Some line \<Rightarrow>
          (case basic_credentials (cx_base64 cx) line of
             None \<Rightarrow> None
           | Some (raw_username, password) \<Rightarrow>
               (case parse_username raw_username of
                  Inl _ \<Rightarrow> None
                | Inr (username, _) \<Rightarrow> Some (username, password))))"

definition has_credentials :: "byte list \<Rightarrow> bool" where
  "has_credentials request \<longleftrightarrow>
     find (lower_starts_with auth_header_prefix) (lines (from_utf8_lossy request)) \<noteq> None"

definition admission_op :: "conn_ctx \<Rightarrow> byte list \<Rightarrow> op option" where
  "admission_op cx request =
     (if has_credentials request
      then map_option (\<lambda>(u, p). Authenticate u p) (request_login cx request)
      else Some (AuthenticateByIp (cx_peer cx)))"

lemma authenticate_user_returns:
  assumes "auth_enabled (cx_config cx)"
  shows "returns (authenticate_user cx request) (\<lambda>x es. \<exists>acc opn. x = Some (acc_id acc)
     \<and> admissible acc \<and> admission_op cx request = Some opn
     \<and> es = [Did opn (Some (R_Account (Some acc)))])"
proof (cases "find (lower_starts_with auth_header_prefix) (lines (from_utf8_lossy request))")
  case None
  then show ?thesis
    using assms returns_mono [OF authenticate_ip_returns]
    by (simp add: authenticate_user_def admission_op_def has_credentials_def)
next
  case (Some line)
  show ?thesis
  proof (cases "basic_credentials (cx_base64 cx) line")
    case None
    with Some assms show ?thesis by (simp add: authenticate_user_def returns_fault)
  next
    case cred: (Some cred)
    obtain u p where cred': "cred = (u, p)" by (cases cred)
    show ?thesis
    proof (cases "parse_username u")
      case (Inl e)
      with Some cred cred' assms show ?thesis by (simp add: authenticate_user_def returns_fault)
    next
      case (Inr r)
      obtain base sel where r: "r = (base, sel)" by (cases r)
      have run: "authenticate_user cx request = login base p"
        using Some cred cred' Inr r assms by (simp add: authenticate_user_def)
      have opn: "admission_op cx request = Some (Authenticate base p)"
        using Some cred cred' Inr r
        by (simp add: admission_op_def has_credentials_def request_login_def)
      show ?thesis unfolding run opn by (rule returns_mono [OF login_returns]) auto
    qed
  qed
qed

lemma emits_case_cred [wp_rules]:
  "emits P n \<Longrightarrow> (\<And>u p. emits P (s u p)) \<Longrightarrow> emits P (case v of None \<Rightarrow> n | Some (u, p) \<Rightarrow> s u p)"
  by (cases v) auto

lemma emits_case_named [wp_rules]:
  "(\<And>x. emits P (l x)) \<Longrightarrow> (\<And>u s. emits P (r u s)) \<Longrightarrow>
    emits P (case v of Inl x \<Rightarrow> l x | Inr (u, s) \<Rightarrow> r u s)"
  by (cases v) auto

fun auth_event :: "event \<Rightarrow> bool" where
  "auth_event (Did (Authenticate _ _) _) \<longleftrightarrow> True"
| "auth_event (Did (AuthenticateByIp _) _) \<longleftrightarrow> True"
| "auth_event (InfoLog _) \<longleftrightarrow> True"
| "auth_event _ \<longleftrightarrow> False"

lemma authenticate_user_emits: "emits auth_event (authenticate_user cx request)"
  unfolding authenticate_user_def authenticate_ip_def login_def
  by (intro wp_rules) simp_all

lemma auth_event_no_use: "auth_event e \<Longrightarrow> \<not> upstream_use e"
  by (cases e rule: auth_event.cases) auto

section \<open>Every part only appends\<close>

lemma emits_True: "emits P m \<Longrightarrow> emits (\<lambda>_. True) m"
  by (erule emits_mono) simp

text \<open>The relay performs no operation of the other parts; its own are these.\<close>

fun relay_event :: "event \<Rightarrow> bool" where
  "relay_event (Copied _ _) \<longleftrightarrow> True"
| "relay_event (Charge _ _ _ _) \<longleftrightarrow> True"
| "relay_event (Settled _ _ _ _ _) \<longleftrightarrow> True"
| "relay_event (BytesIn _) \<longleftrightarrow> True"
| "relay_event (BytesOut _) \<longleftrightarrow> True"
| "relay_event (Counter _ _) \<longleftrightarrow> True"
| "relay_event (ConnResult ok _) \<longleftrightarrow> \<not> ok"
| "relay_event _ \<longleftrightarrow> False"

lemma loop_outcome_events: "loop_outcome m d pc r = Some oc \<Longrightarrow> \<forall>e \<in> set (oc_events oc). relay_event e"
  by (auto simp: loop_outcome_def on_read_def on_report_def on_write_def on_flush_def goes_def
      ends_io_def count_bytes_def charge_event_def settled_events_def split: prod.splits relay_pc.splits resp.splits if_splits option.splits
      direction.splits)

lemma relay_reachable_events: "relay_reachable m s \<Longrightarrow> \<forall>e \<in> set (rl_events s). relay_event e"
proof (induction rule: relay_reachable.induct)
  case start
  show ?case by (simp add: relay_start_def)
next
  case (step s t)
  from step.hyps(2) obtain d' r oc where
    oc: "loop_outcome m d' (fl_pc (rl_flows s d')) r = Some oc" and t: "t = apply_outcome d' oc s"
    by (auto elim!: relay_stepE simp: relay_resume_def)
  show ?case using step.IH loop_outcome_events [OF oc] by (auto simp: t apply_outcome_def Let_def)
qed

lemma select_loops_events: "emits relay_event (select_loops m)"
proof (rule emitsI)
  fix w r w'
  assume "select_loops m w = (r, w')"
  moreover obtain res s rs where run: "relay_run m relay_start (w_script w) = (res, s, rs)"
    by (cases "relay_run m relay_start (w_script w)") auto
  moreover have "\<forall>e \<in> set (rl_events s). relay_event e"
    using relay_run_reachable [OF relay_reachable.start relay_result_start run] relay_reachable_events by blast
  ultimately show "\<exists>es. w_trace w' = w_trace w @ es \<and> (\<forall>e \<in> set es. relay_event e)"
    by (auto simp: select_loops_def split: option.splits)
qed

text \<open>No part of a task opens a connection: that is the accept loop's event.\<close>

abbreviation no_inc :: "event \<Rightarrow> bool" where "no_inc e \<equiv> e \<noteq> IncActive"

lemma relay_event_no_inc: "relay_event e \<Longrightarrow> no_inc e"
  by (cases e) simp_all

lemma auth_event_no_inc: "auth_event e \<Longrightarrow> no_inc e"
  by (cases e rule: auth_event.cases) auto

lemma upstream_event_no_inc: "upstream_event e \<Longrightarrow> no_inc e"
  by (cases e rule: upstream_event.cases) auto

lemma proxy_data_no_inc: "emits no_inc (proxy_data peer u c)"
  unfolding proxy_data_def
  by (intro wp_rules emits_mono [OF select_loops_events relay_event_no_inc]) simp_all

lemma connect_chain_no_inc: "emits no_inc (connect_chain b ps h q)"
  by (rule emits_mono [OF connect_chain_events]) (auto simp: chain_event_def upstream_event_no_inc)

lemma authenticate_no_inc: "emits no_inc (authenticate_user cx request)"
  by (rule emits_mono [OF authenticate_user_emits auth_event_no_inc])

lemma handshake_no_inc:
  "emits no_inc (http_socks5_connect p h q)" "emits no_inc (https_socks5_connect p h q)"
  by (rule emits_mono, rule http_socks5_upstream https_socks5_upstream, erule upstream_event_no_inc)+

lemma stored_selection_emits: "emits auth_event (stored_selection cx sel)"
  unfolding stored_selection_def by (intro wp_rules) simp_all

lemma handlers_no_inc:
  assumes "emits no_inc relay"
  shows "emits no_inc (http_handle b a request p relay)"
    and "emits no_inc (https_handle b a request p relay)"
    and "emits no_inc (socks4_handle b a request p relay)"
  unfolding http_handle_def http_via_http_def http_via_socks4_def http_via_socks5_def
    https_handle_def https_via_http_def https_via_socks4_def https_via_socks5_def
    socks4_handle_def socks4_parse_def byte_at_def socks4_via_http_def socks4_via_socks4_def
    socks4_via_socks5_def socks4_socks5_same Let_def
  by (intro wp_rules assms handshake_no_inc; simp)+

lemma single_hop_no_inc:
  assumes "\<And>b a r p relay. emits no_inc relay \<Longrightarrow> emits no_inc (handler b a r p relay)"
  shows "emits no_inc (single_hop cx name handler request p c)"
  unfolding single_hop_def by (intro wp_rules authenticate_no_inc assms proxy_data_no_inc) simp

lemma chain_handlers_no_inc:
  "emits no_inc (handle_socks4_chain cx request hops)"
  "emits no_inc (handle_https_chain cx request hops)"
  "emits no_inc (handle_http_chain cx request hops)"
  unfolding handle_socks4_chain_def handle_https_chain_def handle_http_chain_def Let_def
  by (intro wp_rules authenticate_no_inc connect_chain_no_inc proxy_data_no_inc; simp)+

lemma socks5_open_no_inc: "emits no_inc (socks5_open cx sel)"
  unfolding socks5_open_def socks5_target_def Let_def
  by (intro wp_rules emits_mono [OF stored_selection_emits auth_event_no_inc] connect_chain_no_inc) simp_all

lemma handle_socks5_no_inc: "emits no_inc (handle_socks5 cx request)"
  unfolding handle_socks5_def socks5_negotiate_def socks5_methods_def socks5_user_auth_def
    socks5_no_auth_def login_def Let_def
  by (intro wp_rules socks5_open_no_inc proxy_data_no_inc) simp_all

lemma dispatch_no_inc: "emits no_inc (dispatch cx proto request hops p)"
  by (cases proto)
    (simp_all add: dispatch_def handle_socks5_no_inc chain_handlers_no_inc single_hop_no_inc handlers_no_inc)

lemmas any_event = emits_True [OF proxy_data_no_inc] emits_True [OF connect_chain_no_inc]
  emits_True [OF socks5_open_no_inc]

section \<open>The gate of each handler\<close>

text \<open>
  The admission a request of its own obtains: the backend accepted the credentials it
  carries, or its source address when it carries none.
\<close>

definition own_admission :: "conn_ctx \<Rightarrow> byte list \<Rightarrow> event \<Rightarrow> bool" where
  "own_admission cx request e \<longleftrightarrow>
     (case e of
        Did opn (Some (R_Account (Some acc))) \<Rightarrow> admission_op cx request = Some opn \<and> admissible acc
      | _ \<Rightarrow> False)"

lemma gate_authenticate:
  assumes "auth_enabled (cx_config cx)" and "\<And>x. emits (\<lambda>_. True) (k x)"
  shows "guards upstream_use (own_admission cx request) (await (authenticate_user cx request) k)"
proof (rule guards_gate)
  show "emits (\<lambda>e. \<not> upstream_use e) (authenticate_user cx request)"
    by (rule emits_mono [OF authenticate_user_emits auth_event_no_use])
  show "returns (authenticate_user cx request) (\<lambda>x es. \<exists>e \<in> set es. own_admission cx request e)"
    by (rule returns_mono [OF authenticate_user_returns [OF assms(1)]]) (auto simp: own_admission_def)
qed (rule assms(2))

lemma guards_after_bytes_in:
  "guards bad ok m \<Longrightarrow> (\<And>n. \<not> bad (BytesIn n)) \<Longrightarrow> guards bad ok (andthen (bytes_in n) m)"
  unfolding andthen_def by (rule guards_await [OF guards_emits [OF emits_emit]])

lemma chain_handlers_guard:
  assumes "auth_enabled (cx_config cx)"
  shows "guards upstream_use (own_admission cx request) (handle_socks4_chain cx request hops)"
    and "guards upstream_use (own_admission cx request) (handle_https_chain cx request hops)"
    and "guards upstream_use (own_admission cx request) (handle_http_chain cx request hops)"
  unfolding handle_socks4_chain_def handle_https_chain_def handle_http_chain_def Let_def
  by (intro guards_after_bytes_in gate_authenticate assms wp_rules any_event; simp)+

lemma single_hop_guards:
  assumes "auth_enabled (cx_config cx)"
    and "\<And>b a r p relay. emits no_inc relay \<Longrightarrow> emits no_inc (handler b a r p relay)"
  shows "guards upstream_use (own_admission cx request) (single_hop cx name handler request p c)"
  unfolding single_hop_def
  by (intro gate_authenticate emits_True [OF assms(2)] assms(1) wp_rules proxy_data_no_inc) simp

lemma dispatch_own_admission:
  assumes "auth_enabled (cx_config cx)" and "proto \<noteq> Socks5"
  shows "guards upstream_use (own_admission cx request) (dispatch cx proto request hops p)"
  using assms
  by (cases proto) (simp_all add: dispatch_def chain_handlers_guard single_hop_guards handlers_no_inc)

text \<open>SOCKS5 negotiation: what it does to the client, and what it returns with.\<close>

lemma socks5_negotiate_quiet: "emits (\<lambda>e. \<not> upstream_use e) (socks5_negotiate cx request)"
  unfolding socks5_negotiate_def socks5_methods_def socks5_user_auth_def socks5_no_auth_def login_def
    Let_def
  by (intro wp_rules) simp_all

lemma returns_case_named [post_rules]:
  "(\<And>e. v = Inl e \<Longrightarrow> returns (l e) Q) \<Longrightarrow> (\<And>u s. v = Inr (u, s) \<Longrightarrow> returns (r u s) Q) \<Longrightarrow>
    returns (case v of Inl e \<Rightarrow> l e | Inr (u, s) \<Rightarrow> r u s) Q"
  by (cases v) auto

lemma socks5_user_auth_returns:
  "returns (socks5_user_auth methods) (\<lambda>x es. \<exists>a raw_username password username acc.
     0x02 \<in> set methods \<and> socks5_credentials a = Inr (raw_username, password)
     \<and> parse_username raw_username = Inr (username, snd x) \<and> fst x = Some (acc_id acc)
     \<and> admissible acc
     \<and> Did (ReadSome Client 513) (Some (R_Bytes a)) \<in> set es
     \<and> Did (Authenticate username password) (Some (R_Account (Some acc))) \<in> set es)"
  unfolding socks5_user_auth_def
  by (intro post_rules returns_await [OF login_returns]) auto

section \<open>Before the dispatch\<close>

text \<open>The part of a connection up to the dispatch, and what it hands over.\<close>

definition connection_prelude :: "conn_ctx \<Rightarrow> string option \<Rightarrow>
    (protocol \<times> byte list \<times> proxy_config list \<times> proxy_config) io" where
  "connection_prelude cx label =
     await (timed_read Timeout Client 8192) (\<lambda>initial_request.
     await (lift_result (detect_protocol initial_request)) (\<lambda>proto.
     andthen (emit (Counter (''purroute_connections_total protocol='' @ protocol_as_str proto) 1))
    (andthen (emit (InfoLog (''Protocol '' @ protocol_debug proto @ '' detected from '' @ cx_peer cx)))
    (await (selection_for cx proto initial_request) (\<lambda>selection.
     await (lift_fault (resolve_proxy_chain (cx_rand cx) (cx_server cx) selection)) (\<lambda>hops.
       (case hops of
          [] \<Rightarrow> panic (index_panic 0 0)
        | target_proxy # _ \<Rightarrow>
            andthen (emit (Histogram ''purroute_chain_hops'' (length hops)))
           (andthen (log_path label (cx_peer cx) hops)
             (ret (proto, initial_request, hops, target_proxy))))))))))"

lemma andthen_assoc: "await (andthen m k) g = andthen m (await k g)"
  by (simp add: andthen_def await_assoc)

lemma connection_body_split:
  "connection_body cx label =
     await (connection_prelude cx label) (\<lambda>(proto, request, hops, p). dispatch cx proto request hops p)"
proof -
  have case_await: "await (case v of [] \<Rightarrow> n | x # xs \<Rightarrow> c x xs) g =
      (case v of [] \<Rightarrow> await n g | x # xs \<Rightarrow> await (c x xs) g)"
    for v :: "'z list" and n :: "'y io" and c and g :: "'y \<Rightarrow> 'x io"
    by (cases v) simp_all
  show ?thesis
    unfolding connection_body_def connection_prelude_def
    by (simp add: await_assoc andthen_assoc case_await await_fault await_ret cong: list.case_cong)
qed

lemma selection_for_emits: "emits auth_event (selection_for cx proto request)"
  unfolding selection_for_def Let_def by (intro wp_rules stored_selection_emits)

lemma prelude_quiet: "emits (\<lambda>e. \<not> upstream_use e) (connection_prelude cx label)"
  unfolding connection_prelude_def log_path_def
  by (intro wp_rules emits_mono [OF selection_for_emits auth_event_no_use]) simp_all

lemma returns_case_list [post_rules]:
  "(v = [] \<Longrightarrow> returns n Q) \<Longrightarrow> (\<And>x xs. v = x # xs \<Longrightarrow> returns (c x xs) Q) \<Longrightarrow>
    returns (case v of [] \<Rightarrow> n | x # xs \<Rightarrow> c x xs) Q"
  by (cases v) simp_all

text \<open>What it hands over is a resolution of some selection by the live server.\<close>

lemma prelude_returns:
  "returns (connection_prelude cx label) (\<lambda>(proto, request, hops, p) _.
     detect_protocol request = Inr proto \<and> hops \<noteq> [] \<and> p = hd hops
     \<and> (\<exists>sel. resolve_proxy_chain (cx_rand cx) (cx_server cx) sel = Inr hops))"
proof -
  have log: "emits (\<lambda>_. True) (log_path label peer hops)" for peer hops
    unfolding log_path_def by (intro wp_rules) simp_all
  show ?thesis
    unfolding connection_prelude_def
    by (intro post_rules returns_await [OF returns_emits [OF selection_for_emits]]
        returns_andthen [OF returns_emits [OF log]]) auto
qed

section \<open>Closing a connection\<close>

text \<open>
  \<open>closes m\<close>: a run of \<open>m\<close> that returns has decremented the active connections exactly
  once; one that fails, at most once.
\<close>

definition decrements :: "event list \<Rightarrow> nat" where
  "decrements es = length (filter (\<lambda>e. e = DecActive) es)"

lemma decrements_simps [simp]:
  "decrements [] = 0"
  "decrements (e # es) = (if e = DecActive then 1 else 0) + decrements es"
  "decrements (es @ fs) = decrements es + decrements fs"
  by (simp_all add: decrements_def)

definition closes :: "'a io \<Rightarrow> bool" where
  "closes m \<longleftrightarrow> (\<forall>w r w'. m w = (r, w') \<longrightarrow>
     (\<exists>es. w_trace w' = w_trace w @ es
       \<and> (case r of Inr _ \<Rightarrow> decrements es = 1 | Inl Blocked \<Rightarrow> decrements es = 0
          | Inl _ \<Rightarrow> decrements es \<le> 1)))"

abbreviation no_dec :: "event \<Rightarrow> bool" where "no_dec e \<equiv> e \<noteq> DecActive"

lemma decrements_none: "\<forall>e \<in> set es. no_dec e \<Longrightarrow> decrements es = 0"
  by (simp add: decrements_def filter_empty_conv)

lemma closes_await:
  assumes m: "emits no_dec m" and k: "\<And>x. closes (k x)"
  shows "closes (await m k)"
  unfolding closes_def
proof (intro allI impI)
  fix w r w'
  assume run: "await m k w = (r, w')"
  then show "\<exists>es. w_trace w' = w_trace w @ es
       \<and> (case r of Inr _ \<Rightarrow> decrements es = 1 | Inl Blocked \<Rightarrow> decrements es = 0
          | Inl _ \<Rightarrow> decrements es \<le> 1)"
  proof (cases rule: await_split)
    case (stop f)
    from emitsD [OF m stop(1)] obtain es where "w_trace w' = w_trace w @ es" "decrements es = 0"
      using decrements_none by blast
    with stop show ?thesis by (intro exI [of _ es]) (simp split: fault.split)
  next
    case (go x v)
    from emitsD [OF m go(1)] obtain es where "w_trace v = w_trace w @ es" "decrements es = 0"
      using decrements_none by blast
    moreover from k go(2) obtain fs where "w_trace w' = w_trace v @ fs"
      "case r of Inr _ \<Rightarrow> decrements fs = 1 | Inl Blocked \<Rightarrow> decrements fs = 0
       | Inl _ \<Rightarrow> decrements fs \<le> 1" unfolding closes_def by blast
    ultimately show ?thesis
      by (intro exI [of _ "es @ fs"]) (auto split: sum.splits fault.splits)
  qed
qed

lemma closes_andthen: "emits no_dec m \<Longrightarrow> closes k \<Longrightarrow> closes (andthen m k)"
  unfolding andthen_def by (rule closes_await)

lemma closes_fault: "closes (fault_with f)"
  by (simp add: closes_def fault_with_def split: fault.split)

lemma closes_case_list:
  "closes n \<Longrightarrow> (\<And>x xs. closes (c x xs)) \<Longrightarrow> closes (case v of [] \<Rightarrow> n | x # xs \<Rightarrow> c x xs)"
  by (cases v) simp_all

lemma closes_case_prod: "(\<And>x y. closes (f x y)) \<Longrightarrow> closes (case v of (x, y) \<Rightarrow> f x y)"
  by (cases v) simp

lemma relay_event_no_dec: "relay_event e \<Longrightarrow> no_dec e"
  by (cases e) simp_all

lemmas select_loops_no_dec = emits_mono [OF select_loops_events relay_event_no_dec]

lemma closes_proxy_data: "closes (proxy_data peer u c)"
  unfolding proxy_data_def
proof (rule closes_await [OF select_loops_no_dec])
  fix result
  show "closes (andthen (emit DecActive)
      (andthen (emit (InfoLog (''Connection closed for '' @ peer))) (lift_result result)))"
    by (cases result)
      (auto simp: closes_def andthen_def await_def emit_def lift_result_def ret_def fault_with_def)
qed

text \<open>
  What every part but the relay, the accept loop and the end of a task does: it opens and
  closes no connection, copies nothing and charges nobody.
\<close>

fun plain_event :: "event \<Rightarrow> bool" where
  "plain_event IncActive \<longleftrightarrow> False"
| "plain_event DecActive \<longleftrightarrow> False"
| "plain_event (Copied _ _) \<longleftrightarrow> False"
| "plain_event (Charge _ _ _ _) \<longleftrightarrow> False"
| "plain_event (Settled _ _ _ _ _) \<longleftrightarrow> False"
| "plain_event _ \<longleftrightarrow> True"

lemma plain_no_dec: "plain_event e \<Longrightarrow> no_dec e"
  by (cases e) simp_all

lemma auth_event_plain: "auth_event e \<Longrightarrow> plain_event e"
  by (cases e rule: auth_event.cases) auto

lemma upstream_event_plain: "upstream_event e \<Longrightarrow> plain_event e"
  by (cases e rule: upstream_event.cases) auto

lemma plain_parts:
  "emits plain_event (authenticate_user cx request)" "emits plain_event (stored_selection cx sel)"
  "emits plain_event (selection_for cx proto request)" "emits plain_event (http_socks5_connect p h q)"
  "emits plain_event (https_socks5_connect p h q)" "emits plain_event (connect_chain b ps h q)"
  by (rule emits_mono, rule authenticate_user_emits stored_selection_emits selection_for_emits
      http_socks5_upstream https_socks5_upstream connect_chain_events,
      auto simp: chain_event_def intro: auth_event_plain upstream_event_plain)+

lemma branches_plain:
  "emits plain_event (http_via_http b request p)" "emits plain_event (http_via_socks4 request)"
  "emits plain_event (http_via_socks5 request p)" "emits plain_event (https_via_http b l p)"
  "emits plain_event (https_via_socks4 l)" "emits plain_event (https_via_socks5 l p)"
  "emits plain_event (socks4_via_http b h q p)" "emits plain_event (socks4_via_socks4 request)"
  "emits plain_event (socks4_via_socks5 h q p)" "emits plain_event (socks4_parse request)"
  unfolding http_via_http_def http_via_socks4_def http_via_socks5_def https_via_http_def
    https_via_socks4_def https_via_socks5_def socks4_via_http_def socks4_via_socks4_def
    socks4_via_socks5_def socks4_parse_def byte_at_def socks4_socks5_same Let_def
  by (intro wp_rules plain_parts; simp)+

lemma socks5_negotiate_plain: "emits plain_event (socks5_negotiate cx request)"
  unfolding socks5_negotiate_def socks5_methods_def socks5_user_auth_def socks5_no_auth_def login_def Let_def
  by (intro wp_rules) simp_all

lemma socks5_open_plain: "emits plain_event (socks5_open cx sel)"
  unfolding socks5_open_def socks5_target_def Let_def by (intro wp_rules plain_parts) simp_all

lemma prelude_plain: "emits plain_event (connection_prelude cx label)"
  unfolding connection_prelude_def log_path_def by (intro wp_rules plain_parts) simp_all

lemmas no_dec_parts = plain_parts [THEN emits_mono, OF plain_no_dec]
lemmas branches_no_dec = branches_plain [THEN emits_mono, OF plain_no_dec]

lemma handlers_close:
  assumes "closes relay"
  shows "closes (http_handle b a request p relay)"
    and "closes (https_handle b a request p relay)"
    and "closes (socks4_handle b a request p relay)"
  unfolding http_handle_def https_handle_def socks4_handle_def
  by (intro closes_await closes_andthen closes_case_list closes_case_prod closes_fault wp_rules
      branches_no_dec assms; simp)+

lemma single_hop_closes:
  assumes "\<And>b a r p relay. closes relay \<Longrightarrow> closes (handler b a r p relay)"
  shows "closes (single_hop cx name handler request p c)"
  unfolding single_hop_def
  by (intro closes_await closes_andthen no_dec_parts assms wp_rules closes_proxy_data) simp_all

lemma chain_handlers_close:
  "closes (handle_socks4_chain cx request hops)"
  "closes (handle_https_chain cx request hops)"
  "closes (handle_http_chain cx request hops)"
  unfolding handle_socks4_chain_def handle_https_chain_def handle_http_chain_def Let_def
  by (intro closes_await closes_andthen closes_case_prod no_dec_parts wp_rules closes_proxy_data; simp)+

lemma handle_socks5_closes: "closes (handle_socks5 cx request)"
  unfolding handle_socks5_def
  by (intro closes_await closes_case_prod closes_proxy_data emits_mono [OF socks5_negotiate_plain plain_no_dec]
      emits_mono [OF socks5_open_plain plain_no_dec])

lemma dispatch_closes: "closes (dispatch cx proto request hops p)"
  by (cases proto)
    (simp_all add: dispatch_def handle_socks5_closes chain_handlers_close single_hop_closes handlers_close)

lemma connection_body_closes: "closes (connection_body cx label)"
  unfolding connection_body_split
  by (intro closes_await closes_case_prod dispatch_closes emits_mono [OF prelude_plain plain_no_dec])

end
