(* ===== verification/Postgres_Backend.thy ===== *)
theory Postgres_Backend
  imports Auth_Backend
begin

text \<open>
  \<open>PostgresAuthBackend\<close> of \<open>src/auth.rs\<close>: its SQL statements as functions on a record of
  tables.  A query may fail before it takes effect (\<open>Some e\<close> as its first argument); a
  \<open>BIGINT\<close> result out of range is an error of the statement, which then changes nothing.
  \<open>query_opt\<close> reports an error when more than one row comes back.
\<close>

section \<open>The tables\<close>

record account_row =
  ac_account :: i64
  ac_username :: "string option"
  ac_password :: "string option"
  ac_bandwidth_limit :: "i64 option"
  ac_default_selection :: "string option"

record account_ip_row =
  ip_account :: "i64 option"
  ip_cidr :: string

record user_stats_row =
  us_id :: i64
  us_total_connections :: "i64 option"
  us_total_bytes_in :: "i64 option"
  us_total_bytes_out :: "i64 option"

record global_row =
  gl_total_connections :: "i64 option"
  gl_succeeded_connections :: "i64 option"
  gl_failed_connections :: "i64 option"
  gl_total_bytes_in :: "i64 option"
  gl_total_bytes_out :: "i64 option"

record pg_db =
  t_global :: "global_row list"
  t_accounts :: "account_row list"
  t_account_ips :: "account_ip_row list"
  t_user_stats :: "user_stats_row list"

definition query_opt :: "string \<Rightarrow> 'a list \<Rightarrow> auth_error + 'a option" where
  "query_opt row_count_error rows =
     (case rows of
        [] \<Rightarrow> Inr None
      | [r] \<Rightarrow> Inr (Some r)
      | _ # _ # _ \<Rightarrow> Inl (Backend row_count_error))"

definition account_of_row :: "account_row \<Rightarrow> account" where
  "account_of_row r =
     \<lparr>acc_id = ac_account r, acc_limit = ac_bandwidth_limit r,
      acc_default_selection = ac_default_selection r\<rparr>"

section \<open>authenticate\<close>

definition pg_authenticate ::
  "string option \<Rightarrow> string \<Rightarrow> pg_db \<Rightarrow> string \<Rightarrow> string \<Rightarrow> auth_error + account option"
where
  "pg_authenticate query_error row_count_error db username secret =
     (case query_error of
        Some e \<Rightarrow> Inl (Backend e)
      | None \<Rightarrow>
          map_sum (\<lambda>e. e) (map_option account_of_row)
            (query_opt row_count_error
               (filter (\<lambda>r. ac_username r = Some username \<and> ac_password r = Some secret)
                  (t_accounts db))))"

section \<open>authenticate_by_ip\<close>

text \<open>
  The join of \<open>account_ips\<close> with \<open>accounts\<close>, in the order the database produces it;
  \<open>cidr_contains cidr peer\<close> is \<open>peer <<= cidr\<close>, \<open>None\<close> when the cast of the text fails.
\<close>

definition ip_join :: "pg_db \<Rightarrow> (account_ip_row \<times> account_row) list" where
  "ip_join db = concat (map (\<lambda>i. map (\<lambda>a. (i, a))
     (filter (\<lambda>a. ip_account i = Some (ac_account a)) (t_accounts db))) (t_account_ips db))"

fun first_containing ::
  "(string \<Rightarrow> 'ip \<Rightarrow> bool option) \<Rightarrow> string \<Rightarrow> 'ip \<Rightarrow> (account_ip_row \<times> account_row) list \<Rightarrow>
   auth_error + account_row option"
where
  "first_containing contains_op cast_error peer [] = Inr None"
| "first_containing contains_op cast_error peer ((i, a) # rows) =
     (case contains_op (ip_cidr i) peer of
        None \<Rightarrow> Inl (Backend cast_error)
      | Some True \<Rightarrow> Inr (Some a)
      | Some False \<Rightarrow> first_containing contains_op cast_error peer rows)"

definition pg_authenticate_by_ip ::
  "(string \<Rightarrow> 'ip \<Rightarrow> bool option) \<Rightarrow> string option \<Rightarrow> string \<Rightarrow> pg_db \<Rightarrow> 'ip \<Rightarrow>
   auth_error + account option"
where
  "pg_authenticate_by_ip contains_op query_error cast_error db peer =
     (case query_error of
        Some e \<Rightarrow> Inl (Backend e)
      | None \<Rightarrow>
          map_sum (\<lambda>e. e) (map_option account_of_row)
            (first_containing contains_op cast_error peer (ip_join db)))"

section \<open>report_usage\<close>

text \<open>
  The one statement: the common table expression bumps \<open>user_stats\<close>, the outer update
  debits \<open>accounts\<close> where a limit is set.  Both run or neither does; \<open>query_opt\<close> counts
  the returned rows after that.
\<close>

definition add_bigint :: "i64 option \<Rightarrow> i64 \<Rightarrow> i64 option option" where
  "add_bigint x y =
     (case x of None \<Rightarrow> Some None | Some v \<Rightarrow> if in_i64 (v + y) then Some (Some (v + y)) else None)"

definition bump_stats :: "i64 \<Rightarrow> i64 \<Rightarrow> i64 \<Rightarrow> user_stats_row \<Rightarrow> user_stats_row option" where
  "bump_stats aid bin bout r =
     (if us_id r \<noteq> aid then Some r
      else (case (add_bigint (us_total_bytes_in r) bin, add_bigint (us_total_bytes_out r) bout) of
              (Some i, Some o') \<Rightarrow> Some (r\<lparr>us_total_bytes_in := i, us_total_bytes_out := o'\<rparr>)
            | _ \<Rightarrow> None))"

definition debit_row :: "i64 \<Rightarrow> i64 \<Rightarrow> account_row \<Rightarrow> account_row option" where
  "debit_row aid debit r =
     (case ac_bandwidth_limit r of
        None \<Rightarrow> Some r
      | Some b \<Rightarrow>
          if ac_account r \<noteq> aid then Some r
          else if in_i64 (b - debit) then Some (r\<lparr>ac_bandwidth_limit := Some (max (b - debit) 0)\<rparr>)
          else None)"

definition debited_limits :: "i64 \<Rightarrow> account_row list \<Rightarrow> i64 list" where
  "debited_limits aid rows =
     map (\<lambda>r. the (ac_bandwidth_limit r))
       (filter (\<lambda>r. ac_account r = aid \<and> ac_bandwidth_limit r \<noteq> None) rows)"

definition pg_report_usage ::
  "string option \<Rightarrow> string \<Rightarrow> string \<Rightarrow> pg_db \<Rightarrow> i64 \<Rightarrow> nat \<Rightarrow> nat \<Rightarrow> f64 \<Rightarrow>
   (auth_error + i64 option) \<times> pg_db"
where
  "pg_report_usage query_error range_error row_count_error db aid bytes_in bytes_out cost =
     (case query_error of
        Some e \<Rightarrow> (Inl (Backend e), db)
      | None \<Rightarrow>
          (let bin = to_i64 bytes_in; bout = to_i64 bytes_out;
               debit = usage_debit bytes_in bytes_out cost
           in case (those (map (bump_stats aid bin bout) (t_user_stats db)),
                    those (map (debit_row aid debit) (t_accounts db))) of
                (Some stats', Some accounts') \<Rightarrow>
                  (case query_opt row_count_error (debited_limits aid accounts') of
                     Inl e \<Rightarrow> (Inl e, db\<lparr>t_user_stats := stats', t_accounts := accounts'\<rparr>)
                   | Inr row \<Rightarrow> (Inr row, db\<lparr>t_user_stats := stats', t_accounts := accounts'\<rparr>))
              | _ \<Rightarrow> (Inl (Backend range_error), db)))"

section \<open>The trait's laws\<close>

text \<open>\<open>account\<close> is the primary key; balances are \<open>BIGINT\<close> values that one debit cannot
  take out of range.\<close>

definition pg_balance :: "pg_db \<Rightarrow> i64 \<Rightarrow> i64 option option" where
  "pg_balance db aid = map_option ac_bandwidth_limit (find (\<lambda>r. ac_account r = aid) (t_accounts db))"

definition pg_invar :: "pg_db \<Rightarrow> bool" where
  "pg_invar db \<longleftrightarrow> distinct (map ac_account (t_accounts db))"

lemma find_distinct:
  "distinct (map f xs) \<Longrightarrow> x \<in> set xs \<Longrightarrow> find (\<lambda>r. f r = f x) xs = Some x"
  by (induction xs) auto

lemma pg_balance_row: "pg_invar db \<Longrightarrow> r \<in> set (t_accounts db) \<Longrightarrow>
    pg_balance db (ac_account r) = Some (ac_bandwidth_limit r)"
  by (simp add: pg_balance_def pg_invar_def find_distinct)

lemma those_map_Cons:
  "those (map f (x # xs)) = Some ys \<Longrightarrow>
    \<exists>y zs. f x = Some y \<and> those (map f xs) = Some zs \<and> ys = y # zs"
  by (auto split: option.splits)

lemma debit_row_account: "debit_row aid d r = Some r' \<Longrightarrow> ac_account r' = ac_account r"
  by (auto simp: debit_row_def split: option.splits if_splits)

lemma debit_row_limit:
  "debit_row aid d r = Some r' \<Longrightarrow> ac_bandwidth_limit r' =
    (if ac_account r = aid then map_option (\<lambda>b. max 0 (b - d)) (ac_bandwidth_limit r)
     else ac_bandwidth_limit r)"
  by (auto simp: debit_row_def max.commute split: option.splits if_splits)

lemma debit_rows_accounts:
  "those (map (debit_row aid d) rows) = Some rows' \<Longrightarrow> map ac_account rows' = map ac_account rows"
proof (induction rows arbitrary: rows')
  case (Cons r rows)
  from those_map_Cons [OF Cons.prems] Cons.IH show ?case
    by (auto simp: debit_row_account)
qed simp

lemma debit_rows_balance:
  "those (map (debit_row aid d) rows) = Some rows' \<Longrightarrow>
    map_option ac_bandwidth_limit (find (\<lambda>r. ac_account r = j) rows') =
    map_option (\<lambda>lim. if j = aid then map_option (\<lambda>b. max 0 (b - d)) lim else lim)
      (map_option ac_bandwidth_limit (find (\<lambda>r. ac_account r = j) rows))"
proof (induction rows arbitrary: rows')
  case (Cons r rows)
  from those_map_Cons [OF Cons.prems] Cons.IH show ?case
    by (auto simp: debit_row_account debit_row_limit)
qed simp

lemma debited_limits_none: "aid \<notin> set (map ac_account rows) \<Longrightarrow> debited_limits aid rows = []"
  by (auto simp: debited_limits_def filter_empty_conv)

lemma debited_limits_find:
  "distinct (map ac_account rows) \<Longrightarrow>
    debited_limits aid rows =
      (case map_option ac_bandwidth_limit (find (\<lambda>r. ac_account r = aid) rows) of
         Some (Some b) \<Rightarrow> [b] | _ \<Rightarrow> [])"
proof (induction rows)
  case (Cons r rows)
  show ?case
  proof (cases "ac_account r = aid")
    case True
    with Cons.prems have "debited_limits aid rows = []" by (intro debited_limits_none) auto
    with True show ?thesis by (auto simp: debited_limits_def split: option.splits)
  next
    case False
    with Cons show ?thesis by (simp add: debited_limits_def)
  qed
qed (simp add: debited_limits_def)

text \<open>What an accepted report does to every balance, and what it returns.\<close>

lemma pg_report_Inr:
  assumes inv: "pg_invar db"
    and rep: "pg_report_usage qe re ce db aid bin bout c = (Inr r, db')"
  shows "pg_balance db' j =
      map_option (\<lambda>lim. if j = aid then map_option (\<lambda>b. max 0 (b - usage_debit bin bout c)) lim else lim)
        (pg_balance db j)"
    and "r = (case pg_balance db aid of
                Some (Some b) \<Rightarrow> Some (max 0 (b - usage_debit bin bout c)) | _ \<Rightarrow> None)"
    and "pg_invar db'"
proof -
  from rep obtain stats' accounts' where
    acc: "those (map (debit_row aid (usage_debit bin bout c)) (t_accounts db)) = Some accounts'"
    and row: "query_opt ce (debited_limits aid accounts') = Inr r"
    and db': "db' = db\<lparr>t_user_stats := stats', t_accounts := accounts'\<rparr>"
    by (auto simp: pg_report_usage_def Let_def split: option.splits sum.splits)
  show bal: "pg_balance db' j =
      map_option (\<lambda>lim. if j = aid then map_option (\<lambda>b. max 0 (b - usage_debit bin bout c)) lim else lim)
        (pg_balance db j)" for j
    using debit_rows_balance [OF acc] by (simp add: pg_balance_def db')
  have dist: "distinct (map ac_account accounts')"
    using debit_rows_accounts [OF acc] inv by (simp add: pg_invar_def)
  then show "pg_invar db'" by (simp add: pg_invar_def db')
  have "debited_limits aid accounts' =
      (case pg_balance db' aid of Some (Some b) \<Rightarrow> [b] | _ \<Rightarrow> [])"
    using debited_limits_find [OF dist] by (simp add: pg_balance_def db')
  then show "r = (case pg_balance db aid of
      Some (Some b) \<Rightarrow> Some (max 0 (b - usage_debit bin bout c)) | _ \<Rightarrow> None)"
    using row bal [of aid] by (auto simp: query_opt_def split: option.splits)
qed

lemma query_opt_SomeD: "query_opt e rows = Inr (Some r) \<Longrightarrow> r \<in> set rows"
  by (auto simp: query_opt_def split: list.splits)

lemma first_containing_SomeD:
  "first_containing co ce peer rows = Inr (Some a) \<Longrightarrow> a \<in> snd ` set rows"
  by (induction co ce peer rows rule: first_containing.induct)
    (auto split: option.splits bool.splits)

lemma ip_join_accounts: "snd ` set (ip_join db) \<subseteq> set (t_accounts db)"
  by (auto simp: ip_join_def)

lemma map_sum_Inr_SomeD:
  "map_sum (\<lambda>e. e) (map_option f) x = Inr (Some y) \<Longrightarrow> \<exists>z. x = Inr (Some z) \<and> y = f z"
  by (cases x) auto

lemma pg_account_balance:
  "pg_invar db \<Longrightarrow> r \<in> set (t_accounts db) \<Longrightarrow>
    pg_balance db (acc_id (account_of_row r)) = Some (acc_limit (account_of_row r))"
  by (simp add: account_of_row_def pg_balance_row)

lemma pg_report_error:
  assumes inv: "pg_invar db"
    and rep: "pg_report_usage qe re ce db aid bin bout c = (Inl e, db')"
  shows "db' = db"
proof -
  have "\<not> (\<exists>accounts' e'. those (map (debit_row aid (usage_debit bin bout c)) (t_accounts db)) = Some accounts'
      \<and> query_opt ce (debited_limits aid accounts') = Inl e')"
  proof
    assume "\<exists>accounts' e'. those (map (debit_row aid (usage_debit bin bout c)) (t_accounts db)) = Some accounts'
      \<and> query_opt ce (debited_limits aid accounts') = Inl e'"
    then obtain accounts' e' where
      acc: "those (map (debit_row aid (usage_debit bin bout c)) (t_accounts db)) = Some accounts'"
      and q: "query_opt ce (debited_limits aid accounts') = Inl e'" by blast
    have "distinct (map ac_account accounts')"
      using debit_rows_accounts [OF acc] inv by (simp add: pg_invar_def)
    from debited_limits_find [OF this, of aid] q show False
      by (auto simp: query_opt_def split: option.splits)
  qed
  with rep show ?thesis
    by (auto simp: pg_report_usage_def Let_def split: option.splits sum.splits)
qed

interpretation pg: auth_backend "pg_report_usage qe re ce" pg_balance pg_invar
  "pg_authenticate qe ce" "pg_authenticate_by_ip co qe te"
proof unfold_locales
  fix s u p a
  assume inv: "pg_invar s" and "pg_authenticate qe ce s u p = Inr (Some a)"
  then obtain r where q: "query_opt ce (filter (\<lambda>r. ac_username r = Some u \<and> ac_password r = Some p)
      (t_accounts s)) = Inr (Some r)" and a: "a = account_of_row r"
    by (auto simp: pg_authenticate_def split: option.splits dest!: map_sum_Inr_SomeD)
  have "r \<in> set (t_accounts s)" using query_opt_SomeD [OF q] by simp
  with a show "pg_balance s (acc_id a) = Some (acc_limit a)"
    using pg_account_balance [OF inv] by simp
next
  fix s ip a
  assume inv: "pg_invar s" and "pg_authenticate_by_ip co qe te s ip = Inr (Some a)"
  then obtain r where q: "first_containing co te ip (ip_join s) = Inr (Some r)"
    and a: "a = account_of_row r"
    by (auto simp: pg_authenticate_by_ip_def split: option.splits dest!: map_sum_Inr_SomeD)
  have "r \<in> set (t_accounts s)" using first_containing_SomeD [OF q] ip_join_accounts by blast
  with a show "pg_balance s (acc_id a) = Some (acc_limit a)"
    using pg_account_balance [OF inv] by simp
next
  fix s i bin bout c r s' b
  assume rep: "pg_invar s" "pg_report_usage qe re ce s i bin bout c = (Inr r, s')"
    and "pg_balance s i = Some (Some b)"
  then show "r = Some (max 0 (b - usage_debit bin bout c))
      \<and> pg_balance s' i = Some (Some (max 0 (b - usage_debit bin bout c)))"
    using pg_report_Inr(1) [OF rep, of i] pg_report_Inr(2) [OF rep] by simp
next
  fix s i bin bout c r s'
  assume rep: "pg_invar s" "pg_report_usage qe re ce s i bin bout c = (Inr r, s')"
    and "pg_balance s i = Some None \<or> pg_balance s i = None"
  then show "r = None \<and> pg_balance s' i = pg_balance s i"
    using pg_report_Inr(1) [OF rep, of i] pg_report_Inr(2) [OF rep] by auto
next
  fix s i j bin bout c r s'
  assume "pg_invar s" and "pg_report_usage qe re ce s i bin bout c = (Inr r, s')" and "j \<noteq> i"
  then show "pg_balance s' j = pg_balance s j"
    using pg_report_Inr(1) [of s qe re ce i bin bout c r s' j] by (cases "pg_balance s j") simp_all
qed (auto dest: pg_report_error pg_report_Inr(3))

text \<open>
  A connection that fails now and then: the state carries, for each coming statement, whether
  it fails and with which message; when the list is used up they succeed.
\<close>

definition pg_report_flaky :: "string \<Rightarrow> string \<Rightarrow> (string option list \<times> pg_db) reporter" where
  "pg_report_flaky range_error row_count_error s aid bytes_in bytes_out cost =
     (let (result, db) = pg_report_usage (case fst s of [] \<Rightarrow> None | e # _ \<Rightarrow> e)
            range_error row_count_error (snd s) aid bytes_in bytes_out cost
      in (result, tl (fst s), db))"

interpretation pg_flaky: metering "pg_report_flaky re ce" "\<lambda>s. pg_balance (snd s)" "\<lambda>s. pg_invar (snd s)"
proof unfold_locales
  fix s i bin bout c r s' b
  assume "pg_invar (snd s)" and "in_i64 i" and "pg_report_flaky re ce s i bin bout c = (Inr r, s')"
    and "pg_balance (snd s) i = Some (Some b)"
  then show "r = Some (max 0 (b - usage_debit bin bout c))
      \<and> pg_balance (snd s') i = Some (Some (max 0 (b - usage_debit bin bout c)))"
    by (auto simp: pg_report_flaky_def dest: pg.report_limited split: prod.splits)
next
  fix s i bin bout c r s'
  assume "pg_invar (snd s)" and "in_i64 i" and "pg_report_flaky re ce s i bin bout c = (Inr r, s')"
    and "pg_balance (snd s) i = Some None \<or> pg_balance (snd s) i = None"
  then show "r = None \<and> pg_balance (snd s') i = pg_balance (snd s) i"
    by (auto simp: pg_report_flaky_def dest: pg.report_unlimited split: prod.splits)
next
  fix s i j bin bout c r s'
  assume "pg_invar (snd s)" and "in_i64 i" and "in_i64 j"
    and "pg_report_flaky re ce s i bin bout c = (Inr r, s')" and "j \<noteq> i"
  then show "pg_balance (snd s') j = pg_balance (snd s) j"
    by (auto simp: pg_report_flaky_def dest: pg.report_other split: prod.splits)
qed (auto simp: pg_report_flaky_def dest: pg.report_error pg_report_Inr(3) split: prod.splits)

section \<open>Properties\<close>

text \<open>
  C16. The same accounting on PostgreSQL: the single update statement and the key on
  \<open>account\<close> give the in-memory backend's balance law, for the reports that the database
  executes; one that fails (\<open>fails\<close> says which do) takes nothing.
\<close>

theorem pg_reports_balance:
  assumes "pg_invar db" and "\<forall>r \<in> set rs. in_i64 (fst r)" and "in_i64 aid"
    and "pg_balance db aid = Some (Some b)" and "0 \<le> b"
    and "run_reports (pg_report_flaky re ce) rs (fails, db) = (fails', db')"
  shows "pg_balance db' aid =
    Some (Some (max 0 (b - spent aid (accepted_reports (pg_report_flaky re ce) rs (fails, db)))))"
  using pg_flaky.run_reports_balance [of "(fails, db)" rs aid b re ce] assms by simp

definition sample_row :: "i64 \<Rightarrow> i64 option \<Rightarrow> account_row" where
  "sample_row aid lim = \<lparr>ac_account = aid, ac_username = Some ''u'', ac_password = Some ''p'',
     ac_bandwidth_limit = lim, ac_default_selection = None\<rparr>"

definition sample_db :: pg_db where
  "sample_db = \<lparr>t_global = [], t_accounts = [sample_row 4 (Some 9), sample_row 6 None],
     t_account_ips = [], t_user_stats = [\<lparr>us_id = 4, us_total_connections = None,
       us_total_bytes_in = Some 0, us_total_bytes_out = Some 0\<rparr>]\<rparr>"

definition sample_reports :: "(i64 \<times> nat \<times> nat \<times> f64) list" where
  "sample_reports = [(4, 2, 1, default_cost_per_byte), (4, 5, 0, default_cost_per_byte),
     (6, 1, 1, default_cost_per_byte)]"

theorem pg_reports_balance_witness:
  "\<exists>fails' db'. run_reports (pg_report_flaky ''range'' ''rows'') sample_reports ([None, Some ''gone''], sample_db)
      = (fails', db') \<and> pg_balance db' 4 = Some (Some 6)"
proof -
  let ?start = "([None, Some ''gone''], sample_db)"
  have acc: "accepted_reports (pg_report_flaky ''range'' ''rows'') sample_reports ?start
      = [(4, 2, 1, default_cost_per_byte), (6, 1, 1, default_cost_per_byte)]"
    by (simp add: sample_db_def sample_row_def sample_reports_def pg_report_flaky_def pg_report_usage_def
        bump_stats_def add_bigint_def debit_row_def debited_limits_def query_opt_def in_i64_def to_i64_def
        usage_debit_one Let_def)
  obtain fails' db' where run: "run_reports (pg_report_flaky ''range'' ''rows'') sample_reports ?start
      = (fails', db')" by (meson surj_pair)
  have "pg_invar sample_db" "pg_balance sample_db 4 = Some (Some 9)"
    by (simp_all add: pg_invar_def pg_balance_def sample_db_def sample_row_def)
  from pg_reports_balance [OF this(1) _ _ this(2) _ run] acc run show ?thesis
    by (simp add: sample_reports_def in_i64_def usage_debit_one)
qed

end
