(* ===== verification/Stats.thy ===== *)
theory Stats
  imports Admission Postgres_Backend
begin

text \<open>
  \<open>src/stats/global.rs\<close>: the global counters, the gating of log messages, byte counting with
  its panic on a count beyond \<open>i64\<close>, the snapshot with its reset after a quiet second, and
  loading from the database.  \<open>apply_events\<close> folds a handler's trace into the counters.
  Instants are nanoseconds.  The broadcast channel (\<open>tokio\<close>) is its queue as the one
  receiver that reads it sees it: beyond the capacity the oldest message is lost and the
  next receive reports a lag.
\<close>

datatype log_level = Info | Error | Success

text \<open>By how readily a level is logged.\<close>

instantiation log_level :: linorder
begin

definition rank :: "log_level \<Rightarrow> nat" where
  "rank l = (case l of Success \<Rightarrow> 0 | Info \<Rightarrow> 1 | Error \<Rightarrow> 2)"

definition less_eq_log_level :: "log_level \<Rightarrow> log_level \<Rightarrow> bool" where
  "less_eq_log_level l m \<longleftrightarrow> rank l \<le> rank m"

definition less_log_level :: "log_level \<Rightarrow> log_level \<Rightarrow> bool" where
  "less_log_level l m \<longleftrightarrow> rank l < rank m"

instance
  by intro_classes
    (auto simp: less_eq_log_level_def less_log_level_def rank_def split: log_level.splits)

end

record user_counters =
  ustat_bytes_in :: i64
  ustat_bytes_out :: i64
  ustat_connections :: i64

record channel =
  chan_queue :: "(string \<times> log_level) list"
  chan_lagged :: bool

record global_stats =
  gs_current_bytes_in :: i64
  gs_current_bytes_out :: i64
  gs_total_bytes_in :: i64
  gs_total_bytes_out :: i64
  gs_active_connections :: i64
  gs_total_connections :: i64
  gs_failed_connections :: i64
  gs_succeeded_connections :: i64
  gs_user_stats :: "nat \<rightharpoonup> user_counters"
  gs_last_activity :: nat
  gs_log :: channel

definition global_stats_new :: "nat \<Rightarrow> global_stats" where
  "global_stats_new now =
     \<lparr>gs_current_bytes_in = 0, gs_current_bytes_out = 0, gs_total_bytes_in = 0,
      gs_total_bytes_out = 0, gs_active_connections = 0, gs_total_connections = 0,
      gs_failed_connections = 0, gs_succeeded_connections = 0, gs_user_stats = (\<lambda>_. None),
      gs_last_activity = now, gs_log = \<lparr>chan_queue = [], chan_lagged = False\<rparr>\<rparr>"

section \<open>The channel\<close>

definition channel_capacity :: nat where
  "channel_capacity = 128"

definition chan_send :: "string \<times> log_level \<Rightarrow> channel \<Rightarrow> channel" where
  "chan_send m c =
     (if length (chan_queue c) < channel_capacity then c\<lparr>chan_queue := chan_queue c @ [m]\<rparr>
      else \<lparr>chan_queue = tl (chan_queue c) @ [m], chan_lagged = True\<rparr>)"

definition chan_try_recv :: "channel \<Rightarrow> (string \<times> log_level) option \<times> channel" where
  "chan_try_recv c =
     (if chan_lagged c then (None, c\<lparr>chan_lagged := False\<rparr>)
      else (case chan_queue c of
              [] \<Rightarrow> (None, c)
            | m # ms \<Rightarrow> (Some m, c\<lparr>chan_queue := ms\<rparr>)))"

section \<open>Counters\<close>

definition increment_active_connections :: "global_stats \<Rightarrow> global_stats" where
  "increment_active_connections s =
     s\<lparr>gs_active_connections := wrap_i64 (gs_active_connections s + 1),
       gs_total_connections := wrap_i64 (gs_total_connections s + 1)\<rparr>"

definition decrement_active_connections :: "global_stats \<Rightarrow> global_stats" where
  "decrement_active_connections s =
     s\<lparr>gs_active_connections := wrap_i64 (gs_active_connections s - 1)\<rparr>"

definition flag :: "bool option \<Rightarrow> bool" where
  "flag v = (case v of None \<Rightarrow> False | Some b \<Rightarrow> b)"

definition log_wanted :: "router_config \<Rightarrow> log_level \<Rightarrow> bool" where
  "log_wanted cfg level =
     (case rc_log cfg of
        None \<Rightarrow> False
      | Some log \<Rightarrow>
          if log then
            (case level of
               Info \<Rightarrow> flag (rc_verbose cfg) \<or> flag (rc_debug cfg)
             | Error \<Rightarrow> True
             | Success \<Rightarrow> flag (rc_verbose cfg))
          else False)"

definition log_message :: "router_config \<Rightarrow> string \<Rightarrow> log_level \<Rightarrow> global_stats \<Rightarrow> global_stats" where
  "log_message cfg message level s =
     (if log_wanted cfg level then s\<lparr>gs_log := chan_send (message, level) (gs_log s)\<rparr> else s)"

definition record_connection_result ::
  "router_config \<Rightarrow> bool \<Rightarrow> string \<Rightarrow> global_stats \<Rightarrow> global_stats"
where
  "record_connection_result cfg success message s =
     (if success then
        log_message cfg message Success
          (s\<lparr>gs_succeeded_connections := wrap_i64 (gs_succeeded_connections s + 1)\<rparr>)
      else
        log_message cfg message Error
          (s\<lparr>gs_failed_connections := wrap_i64 (gs_failed_connections s + 1)\<rparr>))"

definition log_info :: "router_config \<Rightarrow> string \<Rightarrow> global_stats \<Rightarrow> global_stats" where
  "log_info cfg message s = log_message cfg message Info s"

text \<open>\<open>bytes.try_into().unwrap()\<close>: \<open>None\<close> is the panic.\<close>

definition add_bytes_in :: "nat \<Rightarrow> nat \<Rightarrow> global_stats \<Rightarrow> global_stats option" where
  "add_bytes_in now bytes s =
     (if i64_max < int bytes then None
      else Some (s\<lparr>gs_last_activity := now,
             gs_current_bytes_in := wrap_i64 (gs_current_bytes_in s + int bytes),
             gs_total_bytes_in := wrap_i64 (gs_total_bytes_in s + int bytes)\<rparr>))"

definition add_bytes_out :: "nat \<Rightarrow> nat \<Rightarrow> global_stats \<Rightarrow> global_stats option" where
  "add_bytes_out now bytes s =
     (if i64_max < int bytes then None
      else Some (s\<lparr>gs_last_activity := now,
             gs_current_bytes_out := wrap_i64 (gs_current_bytes_out s + int bytes),
             gs_total_bytes_out := wrap_i64 (gs_total_bytes_out s + int bytes)\<rparr>))"

section \<open>Snapshots\<close>

record snapshot =
  sn_current_bytes_in :: i64
  sn_current_bytes_out :: i64
  sn_total_bytes_in :: i64
  sn_total_bytes_out :: i64
  sn_active_connections :: i64
  sn_total_connections :: i64
  sn_failed_connections :: i64
  sn_succeeded_connections :: i64

definition one_second :: nat where
  "one_second = 1000000000"

definition get_stats :: "nat \<Rightarrow> global_stats \<Rightarrow> snapshot \<times> global_stats" where
  "get_stats now s =
     (\<lparr>sn_current_bytes_in = gs_current_bytes_in s, sn_current_bytes_out = gs_current_bytes_out s,
       sn_total_bytes_in = gs_total_bytes_in s, sn_total_bytes_out = gs_total_bytes_out s,
       sn_active_connections = gs_active_connections s,
       sn_total_connections = gs_total_connections s,
       sn_failed_connections = gs_failed_connections s,
       sn_succeeded_connections = gs_succeeded_connections s\<rparr>,
      if one_second < now - gs_last_activity s
      then s\<lparr>gs_current_bytes_in := 0, gs_current_bytes_out := 0\<rparr> else s)"

section \<open>Loading from the database\<close>

datatype db_fault = Db_Error string | Db_Panic string

definition get_i64 :: "i64 option \<Rightarrow> db_fault + i64" where
  "get_i64 v = (case v of None \<Rightarrow> Inl (Db_Panic ''error retrieving column'') | Some x \<Rightarrow> Inr x)"

text \<open>The five stores, in order; a \<open>NULL\<close> panics after the stores before it.\<close>

definition load_global_row :: "global_row \<Rightarrow> global_stats \<Rightarrow> (db_fault + unit) \<times> global_stats" where
  "load_global_row r s =
     (case get_i64 (gl_total_connections r) of Inl f \<Rightarrow> (Inl f, s) | Inr v0 \<Rightarrow>
       (let s0 = s\<lparr>gs_total_connections := v0\<rparr> in
      case get_i64 (gl_succeeded_connections r) of Inl f \<Rightarrow> (Inl f, s0) | Inr v1 \<Rightarrow>
       (let s1 = s0\<lparr>gs_succeeded_connections := v1\<rparr> in
      case get_i64 (gl_failed_connections r) of Inl f \<Rightarrow> (Inl f, s1) | Inr v2 \<Rightarrow>
       (let s2 = s1\<lparr>gs_failed_connections := v2\<rparr> in
      case get_i64 (gl_total_bytes_in r) of Inl f \<Rightarrow> (Inl f, s2) | Inr v3 \<Rightarrow>
       (let s3 = s2\<lparr>gs_total_bytes_in := v3\<rparr> in
      case get_i64 (gl_total_bytes_out r) of Inl f \<Rightarrow> (Inl f, s3) | Inr v4 \<Rightarrow>
       (Inr (), s3\<lparr>gs_total_bytes_out := v4\<rparr>))))))"

definition load_user_row :: "user_stats_row \<Rightarrow> global_stats \<Rightarrow> (db_fault + unit) \<times> global_stats" where
  "load_user_row r s =
     (case (get_i64 (us_total_bytes_in r), get_i64 (us_total_bytes_out r),
            get_i64 (us_total_connections r)) of
        (Inr i, Inr o', Inr c) \<Rightarrow>
          (if us_id r < 0 then (Inl (Db_Panic ''called `Result::unwrap()` on an `Err` value''), s)
           else (Inr (), s\<lparr>gs_user_stats := (gs_user_stats s)(nat (us_id r) \<mapsto>
                   \<lparr>ustat_bytes_in = i, ustat_bytes_out = o', ustat_connections = c\<rparr>)\<rparr>))
      | _ \<Rightarrow> (Inl (Db_Panic ''error retrieving column''), s))"

fun load_user_rows :: "user_stats_row list \<Rightarrow> global_stats \<Rightarrow> (db_fault + unit) \<times> global_stats" where
  "load_user_rows [] s = (Inr (), s)"
| "load_user_rows (r # rs) s =
     (case load_user_row r s of
        (Inl f, s') \<Rightarrow> (Inl f, s')
      | (Inr (), s') \<Rightarrow> load_user_rows rs s')"

text \<open>The two queries may fail (\<open>Some e\<close>); more than one row of \<open>global\<close> is an error.\<close>

definition load_from_db ::
  "string option \<Rightarrow> string \<Rightarrow> string option \<Rightarrow> pg_db \<Rightarrow> global_stats \<Rightarrow> (db_fault + unit) \<times> global_stats"
where
  "load_from_db query_error row_count_error user_query_error db s =
     (case query_error of
        Some e \<Rightarrow> (Inl (Db_Error e), s)
      | None \<Rightarrow>
          (let users = (\<lambda>s'. case user_query_error of
                               Some e \<Rightarrow> (Inl (Db_Error e), s')
                             | None \<Rightarrow> load_user_rows (t_user_stats db) s')
           in case t_global db of
                [] \<Rightarrow> users s
              | [r] \<Rightarrow>
                  (case load_global_row r s of
                     (Inl f, s') \<Rightarrow> (Inl f, s')
                   | (Inr (), s') \<Rightarrow> users s')
              | _ \<Rightarrow> (Inl (Db_Error row_count_error), s)))"

section \<open>Applying a trace\<close>

definition apply_event :: "router_config \<Rightarrow> nat \<Rightarrow> event \<Rightarrow> global_stats \<Rightarrow> global_stats option" where
  "apply_event cfg now e s =
     (case e of
        BytesIn n \<Rightarrow> add_bytes_in now n s
      | BytesOut n \<Rightarrow> add_bytes_out now n s
      | ConnResult ok m \<Rightarrow> Some (record_connection_result cfg ok m s)
      | InfoLog m \<Rightarrow> Some (log_info cfg m s)
      | IncActive \<Rightarrow> Some (increment_active_connections s)
      | DecActive \<Rightarrow> Some (decrement_active_connections s)
      | _ \<Rightarrow> Some s)"

fun apply_events :: "router_config \<Rightarrow> (nat \<times> event) list \<Rightarrow> global_stats \<Rightarrow> global_stats option" where
  "apply_events cfg [] s = Some s"
| "apply_events cfg ((now, e) # es) s =
     (case apply_event cfg now e s of None \<Rightarrow> None | Some s' \<Rightarrow> apply_events cfg es s')"


section \<open>What the counters count\<close>

definition increments :: "event list \<Rightarrow> nat" where
  "increments es = length (filter (\<lambda>e. e = IncActive) es)"

definition count_in :: "event list \<Rightarrow> nat" where
  "count_in es = (\<Sum>e \<leftarrow> es. case e of BytesIn n \<Rightarrow> n | _ \<Rightarrow> 0)"

definition count_out :: "event list \<Rightarrow> nat" where
  "count_out es = (\<Sum>e \<leftarrow> es. case e of BytesOut n \<Rightarrow> n | _ \<Rightarrow> 0)"

lemma count_simps [simp]:
  "increments [] = 0" "increments (e # es) = (if e = IncActive then 1 else 0) + increments es"
  "count_in [] = 0" "count_in (e # es) = (case e of BytesIn n \<Rightarrow> n | _ \<Rightarrow> 0) + count_in es"
  "count_out [] = 0" "count_out (e # es) = (case e of BytesOut n \<Rightarrow> n | _ \<Rightarrow> 0) + count_out es"
  by (simp_all add: increments_def count_in_def count_out_def)

text \<open>Connections counted as succeeded or as failed.\<close>

definition results :: "bool \<Rightarrow> event list \<Rightarrow> nat" where
  "results ok es = (\<Sum>e \<leftarrow> es. case e of ConnResult b _ \<Rightarrow> if b = ok then 1 else 0 | _ \<Rightarrow> 0)"

lemma results_simps [simp]:
  "results ok [] = 0"
  "results ok (e # es) = (case e of ConnResult b _ \<Rightarrow> if b = ok then 1 else 0 | _ \<Rightarrow> 0) + results ok es"
  by (simp_all add: results_def)

lemma log_message_counters [simp]:
  "gs_active_connections (log_message cfg m l s) = gs_active_connections s"
  "gs_total_connections (log_message cfg m l s) = gs_total_connections s"
  "gs_total_bytes_in (log_message cfg m l s) = gs_total_bytes_in s"
  "gs_total_bytes_out (log_message cfg m l s) = gs_total_bytes_out s"
  "gs_succeeded_connections (log_message cfg m l s) = gs_succeeded_connections s"
  "gs_failed_connections (log_message cfg m l s) = gs_failed_connections s"
  by (simp_all add: log_message_def)

lemma apply_event_counters:
  assumes "apply_event cfg now e s = Some s'"
  shows "gs_active_connections s' =
      (if e = IncActive then wrap_i64 (gs_active_connections s + 1)
       else if e = DecActive then wrap_i64 (gs_active_connections s - 1) else gs_active_connections s)"
    and "gs_total_bytes_in s' =
      (case e of BytesIn n \<Rightarrow> wrap_i64 (gs_total_bytes_in s + int n) | _ \<Rightarrow> gs_total_bytes_in s)"
    and "gs_total_bytes_out s' =
      (case e of BytesOut n \<Rightarrow> wrap_i64 (gs_total_bytes_out s + int n) | _ \<Rightarrow> gs_total_bytes_out s)"
    and "gs_total_connections s' =
      (if e = IncActive then wrap_i64 (gs_total_connections s + 1) else gs_total_connections s)"
    and "gs_succeeded_connections s' = (case e of
        ConnResult b _ \<Rightarrow> if b then wrap_i64 (gs_succeeded_connections s + 1) else gs_succeeded_connections s
      | _ \<Rightarrow> gs_succeeded_connections s)"
    and "gs_failed_connections s' = (case e of
        ConnResult b _ \<Rightarrow> if b then gs_failed_connections s else wrap_i64 (gs_failed_connections s + 1)
      | _ \<Rightarrow> gs_failed_connections s)"
  using assms
  by (auto simp: apply_event_def add_bytes_in_def add_bytes_out_def record_connection_result_def
      log_info_def increment_active_connections_def decrement_active_connections_def
      split: event.splits if_splits)

text \<open>
  A counter that every event moves by a fixed amount ends at the sum of those amounts,
  reduced to 64 bits once.
\<close>

lemma apply_events_total:
  assumes step: "\<And>now e s s'. apply_event cfg now e s = Some s' \<Longrightarrow> in_i64 (c s) \<Longrightarrow>
      c s' = wrap_i64 (c s + d e)"
  shows "apply_events cfg es s = Some s' \<Longrightarrow> in_i64 (c s) \<Longrightarrow>
    c s' = wrap_i64 (c s + (\<Sum>e \<leftarrow> map snd es. d e))"
proof (induction es arbitrary: s)
  case (Cons x es)
  obtain now e where x: "x = (now, e)" by (cases x)
  from Cons.prems(1) x obtain t where t: "apply_event cfg now e s = Some t"
    and rest: "apply_events cfg es t = Some s'" by (auto split: option.splits)
  have ct: "c t = wrap_i64 (c s + d e)" using step [OF t Cons.prems(2)] .
  then have "in_i64 (c t)" by simp
  from Cons.IH [OF rest this] ct show ?case by (simp add: x add.assoc)
qed simp

text \<open>
  The counters after any interleaving of the traces of any number of connections: the
  active connections are those opened less those closed, the totals are sums.
\<close>

lemma sum_list_events:
  "(\<Sum>e \<leftarrow> es. (if e = IncActive then 1 else if e = DecActive then - 1 else 0)) =
     int (increments es) - int (decrements es)"
  "(\<Sum>e \<leftarrow> es. (if e = IncActive then 1 else 0)) = int (increments es)"
  "(\<Sum>e \<leftarrow> es. case e of BytesIn n \<Rightarrow> int n | _ \<Rightarrow> 0) = int (count_in es)"
  "(\<Sum>e \<leftarrow> es. case e of BytesOut n \<Rightarrow> int n | _ \<Rightarrow> 0) = int (count_out es)"
  "(\<Sum>e \<leftarrow> es. case e of ConnResult b _ \<Rightarrow> (if b = ok then 1 else 0) | _ \<Rightarrow> 0) = int (results ok es)"
  by (induction es) (auto simp: decrements_def split: event.split)

lemma apply_events_counters:
  assumes "apply_events cfg es s = Some s'"
  shows "in_i64 (gs_active_connections s) \<Longrightarrow> gs_active_connections s' =
      wrap_i64 (gs_active_connections s + int (increments (map snd es)) - int (decrements (map snd es)))"
    and "in_i64 (gs_total_bytes_in s) \<Longrightarrow>
      gs_total_bytes_in s' = wrap_i64 (gs_total_bytes_in s + int (count_in (map snd es)))"
    and "in_i64 (gs_total_bytes_out s) \<Longrightarrow>
      gs_total_bytes_out s' = wrap_i64 (gs_total_bytes_out s + int (count_out (map snd es)))"
    and "in_i64 (gs_total_connections s) \<Longrightarrow>
      gs_total_connections s' = wrap_i64 (gs_total_connections s + int (increments (map snd es)))"
    and "in_i64 (gs_succeeded_connections s) \<Longrightarrow>
      gs_succeeded_connections s' = wrap_i64 (gs_succeeded_connections s + int (results True (map snd es)))"
    and "in_i64 (gs_failed_connections s) \<Longrightarrow>
      gs_failed_connections s' = wrap_i64 (gs_failed_connections s + int (results False (map snd es)))"
  using apply_events_total [where c = gs_active_connections, OF _ assms,
      of "\<lambda>e. if e = IncActive then 1 else if e = DecActive then - 1 else 0"]
    apply_events_total [where c = gs_total_bytes_in, OF _ assms, of "\<lambda>e. case e of BytesIn n \<Rightarrow> int n | _ \<Rightarrow> 0"]
    apply_events_total [where c = gs_total_bytes_out, OF _ assms, of "\<lambda>e. case e of BytesOut n \<Rightarrow> int n | _ \<Rightarrow> 0"]
    apply_events_total [where c = gs_total_connections, OF _ assms, of "\<lambda>e. if e = IncActive then 1 else 0"]
    apply_events_total [where c = gs_succeeded_connections, OF _ assms,
      of "\<lambda>e. case e of ConnResult b _ \<Rightarrow> if b = True then 1 else 0 | _ \<Rightarrow> 0"]
    apply_events_total [where c = gs_failed_connections, OF _ assms,
      of "\<lambda>e. case e of ConnResult b _ \<Rightarrow> if b = False then 1 else 0 | _ \<Rightarrow> 0"]
  unfolding sum_list_events
  by (simp_all add: apply_event_counters add_diff_eq split: event.split)

section \<open>Properties\<close>

text \<open>
  C28. The counters after any interleaving of the traces of any number of connections: the
  active connections are those opened less those closed; the others are the connections
  opened, succeeded and failed and the sums of the bytes counted (in 64-bit arithmetic).
\<close>

theorem counters_after_any_interleaving:
  assumes "apply_events cfg es (global_stats_new now) = Some s'"
  shows "gs_active_connections s' = wrap_i64 (int (increments (map snd es)) - int (decrements (map snd es)))
     \<and> gs_total_connections s' = wrap_i64 (int (increments (map snd es)))
     \<and> gs_succeeded_connections s' = wrap_i64 (int (results True (map snd es)))
     \<and> gs_failed_connections s' = wrap_i64 (int (results False (map snd es)))
     \<and> gs_total_bytes_in s' = wrap_i64 (int (count_in (map snd es)))
     \<and> gs_total_bytes_out s' = wrap_i64 (int (count_out (map snd es)))"
  using apply_events_counters [OF assms] by (simp add: global_stats_new_def in_i64_def)

theorem counters_after_any_interleaving_witness:
  "\<exists>s'. apply_events sample_config [(1, IncActive), (2, BytesIn 10), (3, IncActive), (4, BytesOut 4), (5, DecActive), (6, BytesIn 5)]
       (global_stats_new 0) = Some s'
     \<and> gs_active_connections s' = 1 \<and> gs_total_bytes_in s' = 15 \<and> gs_total_bytes_out s' = 4"
proof -
  let ?es = "[(1, IncActive), (2, BytesIn 10), (3, IncActive), (4, BytesOut 4), (5, DecActive), (6, BytesIn 5)]
      :: (nat \<times> event) list"
  obtain s' where run: "apply_events sample_config ?es (global_stats_new 0) = Some s'"
    by (simp add: apply_event_def add_bytes_in_def add_bytes_out_def)
  from counters_after_any_interleaving [OF run] run show ?thesis
    by (intro exI [of _ s']) (simp add: in_i64_def)
qed

end
