(* ===== verification/Display.thy ===== *)
theory Display
  imports Stats
begin

text \<open>
  \<open>src/stats/display.rs\<close>: the statistics screen.  Drawing is the list of terminal commands
  it queues; the clock's text (\<open>chrono\<close>) is an argument.  \<open>display_tick\<close> is one turn of the
  loop of \<open>run\<close>: drain the log channel into a ring of ten entries, redraw when something
  changed, and write the counters to the database at most every fifth tick or on change.
\<close>

definition MAX_LOG_LINES :: nat where
  "MAX_LOG_LINES = 10"

record log_entry =
  le_timestamp :: i64
  le_message :: string
  le_level :: log_level

datatype color = Grey | Cyan | Green | Blue | Red | Yellow | Magenta | DarkGrey

datatype term_cmd =
    MoveToOrigin
  | ClearDown
  | SetColor color
  | Print string
  | HideCursor
  | ShowCursor
  | FlushOut

section \<open>Text\<close>

definition units :: "string list" where
  "units = [''B'', ''KB'', ''MB'', ''GB'', ''TB'']"

text \<open>The loop divides by 1024 while the value is at least 1024 and a larger unit is left.\<close>

fun scale_bytes :: "nat \<Rightarrow> f64 \<Rightarrow> nat \<Rightarrow> f64 \<times> nat" where
  "scale_bytes 0 bytes unit_index = (bytes, unit_index)"
| "scale_bytes (Suc left) bytes unit_index =
     (if f64_less bytes f64_1024 \<or> bytes = NaN then (bytes, unit_index)
      else scale_bytes left (f64_div_1024 bytes) (Suc unit_index))"

definition format_bytes :: "i64 \<Rightarrow> bool \<Rightarrow> string" where
  "format_bytes bytes is_rate =
     (let (v, unit_index) = scale_bytes (length units - 1) (f64_of_int bytes) 0
      in if is_rate then f64_fmt2 v @ '' '' @ units ! unit_index @ ''/s''
         else f64_fmt2 v @ '' '' @ units ! unit_index)"

definition pad25 :: "string \<Rightarrow> string" where
  "pad25 s = s @ replicate (25 - length s) CHR '' ''"

definition newline :: string where
  "newline = [LF]"

definition print_stat :: "string \<Rightarrow> string \<Rightarrow> color \<Rightarrow> term_cmd list" where
  "print_stat label v c =
     [SetColor Grey, Print (pad25 label), SetColor c, Print v, Print newline]"

definition print_log_entry ::
  "(i64 \<Rightarrow> string option) \<Rightarrow> router_config \<Rightarrow> log_entry \<Rightarrow> term_cmd list"
where
  "print_log_entry clock_text cfg entry =
     (let c = (case le_level entry of Info \<Rightarrow> Blue | Error \<Rightarrow> Red | Success \<Rightarrow> Green);
          timestamp = (case clock_text (le_timestamp entry) of None \<Rightarrow> ''??:??:??'' | Some t \<Rightarrow> t);
          line = [SetColor DarkGrey, Print (''['' @ timestamp @ ''] ''), SetColor c,
                  Print (le_message entry), Print newline]
      in case rc_log cfg of
           None \<Rightarrow> []
         | Some log \<Rightarrow>
             if log then
               (case le_level entry of
                  Info \<Rightarrow> if flag (rc_verbose cfg) \<or> flag (rc_debug cfg) then line else []
                | Error \<Rightarrow> line
                | Success \<Rightarrow> if flag (rc_verbose cfg) then line else [])
             else [])"

definition refresh_display ::
  "(i64 \<Rightarrow> string option) \<Rightarrow> log_entry list \<Rightarrow> snapshot \<Rightarrow> router_config \<Rightarrow> term_cmd list"
where
  "refresh_display clock_text logs stats cfg =
     [MoveToOrigin, ClearDown, SetColor Cyan,
      Print (''=== Purroute Proxy Statistics ==='' @ newline @ newline)]
     @ print_stat ''Active Connections:'' (dec_int (sn_active_connections stats)) Green
     @ print_stat ''Total Connections:'' (dec_int (sn_total_connections stats)) Blue
     @ print_stat ''Succeeded Connections:'' (dec_int (sn_succeeded_connections stats)) Green
     @ print_stat ''Failed Connections:'' (dec_int (sn_failed_connections stats)) Red
     @ [Print newline]
     @ print_stat ''Current Download:'' (format_bytes (sn_current_bytes_in stats) True) Yellow
     @ print_stat ''Current Upload:'' (format_bytes (sn_current_bytes_out stats) True) Yellow
     @ [Print newline]
     @ print_stat ''Total Download:'' (format_bytes (sn_total_bytes_in stats) False) Magenta
     @ print_stat ''Total Upload:'' (format_bytes (sn_total_bytes_out stats) False) Magenta
     @ [Print newline, SetColor Cyan, Print (''=== Connection Logs ==='' @ newline)]
     @ concat (map (print_log_entry clock_text cfg) logs)
     @ [Print newline, SetColor Grey, Print ''Press Ctrl+C to exit'', FlushOut]"

section \<open>State\<close>

record display =
  dp_logs :: "log_entry list"
  dp_last_stats :: "snapshot option"
  dp_last_db_stats :: "snapshot option"
  dp_has_new_logs :: bool
  dp_ticks_since_db_update :: nat
  dp_db_client :: bool

definition display_new :: "bool \<Rightarrow> display" where
  "display_new db_client =
     \<lparr>dp_logs = [], dp_last_stats = None, dp_last_db_stats = None, dp_has_new_logs = False,
      dp_ticks_since_db_update = 0, dp_db_client = db_client\<rparr>"

definition DB_UPDATE_INTERVAL_TICKS :: nat where
  "DB_UPDATE_INTERVAL_TICKS = 5"

definition push_log :: "log_entry \<Rightarrow> log_entry list \<Rightarrow> log_entry list" where
  "push_log entry logs =
     (if MAX_LOG_LINES \<le> length logs then tl logs @ [entry] else logs @ [entry])"

text \<open>\<open>while let Ok(..) = try_recv()\<close>: a lag ends the loop for this tick.\<close>

function drain_logs :: "i64 \<Rightarrow> channel \<Rightarrow> display \<Rightarrow> channel \<times> display" where
  "drain_logs clock c s =
     (case chan_try_recv c of
        (None, c') \<Rightarrow> (c', s)
      | (Some (message, level), c') \<Rightarrow>
          drain_logs clock c'
            (s\<lparr>dp_has_new_logs := True,
               dp_logs := push_log \<lparr>le_timestamp = clock, le_message = message, le_level = level\<rparr>
                            (dp_logs s)\<rparr>))"
  by pat_completeness auto
termination
  by (relation "measure (\<lambda>(_, c, _). length (chan_queue c))")
    (auto simp: chan_try_recv_def split: if_splits list.splits)

declare drain_logs.simps [simp del]

definition stats_changed :: "snapshot option \<Rightarrow> snapshot \<Rightarrow> bool" where
  "stats_changed prev stats =
     (case prev of
        None \<Rightarrow> True
      | Some l \<Rightarrow>
          sn_current_bytes_in l \<noteq> sn_current_bytes_in stats
          \<or> sn_current_bytes_out l \<noteq> sn_current_bytes_out stats
          \<or> sn_total_bytes_in l \<noteq> sn_total_bytes_in stats
          \<or> sn_total_bytes_out l \<noteq> sn_total_bytes_out stats
          \<or> sn_active_connections l \<noteq> sn_active_connections stats
          \<or> sn_total_connections l \<noteq> sn_total_connections stats
          \<or> sn_failed_connections l \<noteq> sn_failed_connections stats
          \<or> sn_succeeded_connections l \<noteq> sn_succeeded_connections stats)"

definition db_stats_changed :: "snapshot option \<Rightarrow> snapshot \<Rightarrow> bool" where
  "db_stats_changed prev stats =
     (case prev of
        None \<Rightarrow> True
      | Some l \<Rightarrow>
          sn_total_connections l \<noteq> sn_total_connections stats
          \<or> sn_failed_connections l \<noteq> sn_failed_connections stats
          \<or> sn_succeeded_connections l \<noteq> sn_succeeded_connections stats
          \<or> sn_total_bytes_in l \<noteq> sn_total_bytes_in stats
          \<or> sn_total_bytes_out l \<noteq> sn_total_bytes_out stats)"

section \<open>The database update\<close>

text \<open>One \<open>UPDATE\<close> of every row of \<open>global\<close>, or an error that changes nothing.\<close>

definition record_stats_in_db ::
  "string option \<Rightarrow> display \<Rightarrow> snapshot \<Rightarrow> pg_db \<Rightarrow> (string + unit) \<times> pg_db"
where
  "record_stats_in_db execute_error s stats db =
     (if \<not> dp_db_client s then (Inr (), db)
      else (case execute_error of
              Some e \<Rightarrow> (Inl e, db)
            | None \<Rightarrow>
                (Inr (), db\<lparr>t_global := map (\<lambda>r.
                   \<lparr>gl_total_connections = Some (sn_total_connections stats),
                    gl_succeeded_connections = Some (sn_succeeded_connections stats),
                    gl_failed_connections = Some (sn_failed_connections stats),
                    gl_total_bytes_in = Some (sn_total_bytes_in stats),
                    gl_total_bytes_out = Some (sn_total_bytes_out stats)\<rparr>) (t_global db)\<rparr>)))"

section \<open>One turn of the loop\<close>

text \<open>
  What surrounds a tick: the clocks, what drawing and the database answer, and what the other
  tasks have done to the shared counters since the tick before.
\<close>

record tick_env =
  te_now :: nat
  te_clock :: i64
  te_draw_error :: "string option"
  te_db_error :: "string option"
  te_others :: "global_stats \<Rightarrow> global_stats"

record tick_output =
  to_drawn :: "term_cmd list"
  to_db_written :: bool
  to_stderr :: "string option"

text \<open>The result is \<open>Inl\<close> when drawing failed, which ends \<open>run\<close>.\<close>

definition display_tick ::
  "(i64 \<Rightarrow> string option) \<Rightarrow> router_config \<Rightarrow> tick_env \<Rightarrow> display \<times> global_stats \<times> pg_db \<Rightarrow>
   string + tick_output \<times> display \<times> global_stats \<times> pg_db"
where
  "display_tick clock_text cfg env =
     (\<lambda>(s0, gs0, db).
       (let s1 = s0\<lparr>dp_ticks_since_db_update := dp_ticks_since_db_update s0 + 1\<rparr>;
            (chan, s2) = drain_logs (te_clock env) (gs_log gs0) s1;
            (stats, gs) = get_stats (te_now env) (gs0\<lparr>gs_log := chan\<rparr>);
            redraw = (dp_has_new_logs s2 \<or> stats_changed (dp_last_stats s2) stats);
            s3 = (if redraw then s2\<lparr>dp_last_stats := Some stats, dp_has_new_logs := False\<rparr> else s2);
            drawn = (if redraw then refresh_display clock_text (dp_logs s2) stats cfg else [])
        in if redraw \<and> te_draw_error env \<noteq> None then Inl (the (te_draw_error env))
           else if DB_UPDATE_INTERVAL_TICKS \<le> dp_ticks_since_db_update s3
                   \<or> db_stats_changed (dp_last_db_stats s3) stats
           then (let (res, db') = record_stats_in_db (te_db_error env) s3 stats db;
                     s4 = s3\<lparr>dp_last_db_stats := Some stats, dp_ticks_since_db_update := 0\<rparr>
                 in Inr (\<lparr>to_drawn = drawn, to_db_written = True,
                          to_stderr = (case res of Inl e \<Rightarrow> Some (''Failed to update database: '' @ e)
                                       | Inr _ \<Rightarrow> None)\<rparr>, s4, gs, db'))
           else Inr (\<lparr>to_drawn = drawn, to_db_written = False, to_stderr = None\<rparr>, s3, gs, db)))"

fun display_run ::
  "(i64 \<Rightarrow> string option) \<Rightarrow> router_config \<Rightarrow> tick_env list \<Rightarrow> display \<times> global_stats \<times> pg_db \<Rightarrow>
   string option \<times> term_cmd list \<times> display \<times> global_stats \<times> pg_db"
where
  "display_run clock_text cfg [] (s, gs, db) = (None, [], s, gs, db)"
| "display_run clock_text cfg (env # envs) (s, gs, db) =
     (case display_tick clock_text cfg env (s, te_others env gs, db) of
        Inl e \<Rightarrow> (Some e, [], s, te_others env gs, db)
      | Inr (out, y) \<Rightarrow>
          (let (res, cmds, z) = display_run clock_text cfg envs y in (res, to_drawn out @ cmds, z)))"

text \<open>\<open>run\<close> hides the cursor first; dropping the display shows it again.\<close>

definition display_drop :: "term_cmd list" where
  "display_drop = [ShowCursor, FlushOut]"

definition run_display ::
  "(i64 \<Rightarrow> string option) \<Rightarrow> router_config \<Rightarrow> tick_env list \<Rightarrow> display \<times> global_stats \<times> pg_db \<Rightarrow>
   string option \<times> term_cmd list \<times> display \<times> global_stats \<times> pg_db"
where
  "run_display clock_text cfg envs x =
     (let (res, cmds, y) = display_run clock_text cfg envs x
      in (res, HideCursor # cmds @ (case res of Some _ \<Rightarrow> display_drop | None \<Rightarrow> []), y))"

section \<open>The ring\<close>

lemma push_log_length: "length logs \<le> MAX_LOG_LINES \<Longrightarrow> length (push_log e logs) \<le> MAX_LOG_LINES"
  by (auto simp: push_log_def MAX_LOG_LINES_def)

lemma drain_logs_length:
  "length (dp_logs s) \<le> MAX_LOG_LINES \<Longrightarrow> length (dp_logs (snd (drain_logs clock c s))) \<le> MAX_LOG_LINES"
proof (induction clock c s rule: drain_logs.induct)
  case (1 clock c s)
  show ?case
    by (subst drain_logs.simps)
      (use 1 in \<open>auto simp: push_log_length split: prod.splits option.splits\<close>)
qed

lemma drain_logs_ticks [simp]:
  "dp_ticks_since_db_update (snd (drain_logs clock c s)) = dp_ticks_since_db_update s"
proof (induction clock c s rule: drain_logs.induct)
  case (1 clock c s)
  show ?case
    by (subst drain_logs.simps) (use 1 in \<open>auto split: prod.splits option.splits\<close>)
qed

text \<open>The drained entries are the last ten of what was there and what arrived.\<close>

definition entry_of :: "i64 \<Rightarrow> string \<times> log_level \<Rightarrow> log_entry" where
  "entry_of clock m = \<lparr>le_timestamp = clock, le_message = fst m, le_level = snd m\<rparr>"

definition last_n :: "nat \<Rightarrow> 'a list \<Rightarrow> 'a list" where
  "last_n n xs = drop (length xs - n) xs"

lemma push_log_last_n:
  "length logs \<le> MAX_LOG_LINES \<Longrightarrow> push_log e logs = last_n MAX_LOG_LINES (logs @ [e])"
  by (cases "length logs = MAX_LOG_LINES")
    (auto simp: push_log_def last_n_def MAX_LOG_LINES_def drop_Suc)

lemma last_n_last_n: "last_n n (last_n n xs @ ys) = last_n n (xs @ ys)"
proof (cases "length xs \<le> n")
  case False
  then show ?thesis by (simp add: last_n_def) (simp add: add.commute)
qed (simp add: last_n_def)

lemma last_n_length [simp]: "length (last_n n xs) \<le> n"
  by (simp add: last_n_def)

lemma drain_logs_all:
  "\<not> chan_lagged c \<Longrightarrow> length (dp_logs s) \<le> MAX_LOG_LINES \<Longrightarrow>
     dp_logs (snd (drain_logs clock c s)) =
       last_n MAX_LOG_LINES (dp_logs s @ map (entry_of clock) (chan_queue c))
     \<and> chan_queue (fst (drain_logs clock c s)) = []"
proof (induction clock c s rule: drain_logs.induct)
  case (1 clock c s)
  show ?case
  proof (cases "chan_queue c")
    case Nil
    with 1 show ?thesis
      by (subst (1 2) drain_logs.simps) (simp add: chan_try_recv_def last_n_def)
  next
    case (Cons m ms)
    obtain message level where m: "m = (message, level)" by (cases m)
    have recv: "chan_try_recv c = (Some (message, level), c\<lparr>chan_queue := ms\<rparr>)"
      using 1 Cons m by (simp add: chan_try_recv_def)
    show ?thesis
      using 1 recv Cons
      by (subst (1 2) drain_logs.simps)
        (simp add: push_log_last_n last_n_last_n m entry_of_def [abs_def])
  qed
qed

section \<open>The invariant of the display\<close>

definition display_invar :: "display \<Rightarrow> bool" where
  "display_invar s \<longleftrightarrow> length (dp_logs s) \<le> MAX_LOG_LINES
     \<and> dp_ticks_since_db_update s < DB_UPDATE_INTERVAL_TICKS"

lemma display_tick_invar:
  assumes "display_tick clock_text cfg env (s, gs, db) = Inr (out, s', gs', db')" and "display_invar s"
  shows "display_invar s'"
proof -
  let ?s1 = "s\<lparr>dp_ticks_since_db_update := dp_ticks_since_db_update s + 1\<rparr>"
  obtain c s2 where d: "drain_logs (te_clock env) (gs_log gs) ?s1 = (c, s2)"
    by (cases "drain_logs (te_clock env) (gs_log gs) ?s1")
  have "length (dp_logs s2) \<le> MAX_LOG_LINES" "dp_ticks_since_db_update s2 = dp_ticks_since_db_update s + 1"
    using drain_logs_length [of ?s1 "te_clock env" "gs_log gs", unfolded d snd_conv]
      drain_logs_ticks [of "te_clock env" "gs_log gs" ?s1, unfolded d snd_conv] assms(2)
    by (simp_all add: display_invar_def)
  with assms show ?thesis
    by (auto simp: display_tick_def d [simplified] display_invar_def DB_UPDATE_INTERVAL_TICKS_def Let_def
        split: prod.splits if_splits)
qed

lemma display_run_invar:
  "display_run clock_text cfg envs (s, gs, db) = (res, cmds, s', gs', db') \<Longrightarrow> display_invar s \<Longrightarrow>
     display_invar s'"
proof (induction envs arbitrary: s gs db res cmds)
  case (Cons env envs)
  show ?case
  proof (cases "display_tick clock_text cfg env (s, te_others env gs, db)")
    case (Inr y)
    obtain out s1 gs1 db1 where y: "y = (out, s1, gs1, db1)" by (cases y)
    from Inr y Cons.prems(2) have "display_invar s1" using display_tick_invar by blast
    with Cons.prems(1) Inr y Cons.IH [of s1 gs1 db1] show ?thesis
      by (auto split: prod.splits)
  qed (use Cons.prems in simp)
qed simp

section \<open>The database follows the counters\<close>

definition row_of :: "global_stats \<Rightarrow> global_row" where
  "row_of gs = \<lparr>gl_total_connections = Some (gs_total_connections gs),
     gl_succeeded_connections = Some (gs_succeeded_connections gs),
     gl_failed_connections = Some (gs_failed_connections gs),
     gl_total_bytes_in = Some (gs_total_bytes_in gs), gl_total_bytes_out = Some (gs_total_bytes_out gs)\<rparr>"

definition row_of_snapshot :: "snapshot \<Rightarrow> global_row" where
  "row_of_snapshot st = \<lparr>gl_total_connections = Some (sn_total_connections st),
     gl_succeeded_connections = Some (sn_succeeded_connections st),
     gl_failed_connections = Some (sn_failed_connections st),
     gl_total_bytes_in = Some (sn_total_bytes_in st), gl_total_bytes_out = Some (sn_total_bytes_out st)\<rparr>"

text \<open>What the display believes it wrote last is what the table holds.\<close>

definition db_current :: "display \<Rightarrow> pg_db \<Rightarrow> bool" where
  "db_current s db \<longleftrightarrow>
     (case dp_last_db_stats s of
        None \<Rightarrow> True
      | Some st \<Rightarrow> \<forall>r \<in> set (t_global db). r = row_of_snapshot st)"

lemma db_stats_same:
  "\<not> db_stats_changed prev st \<Longrightarrow> \<exists>l. prev = Some l \<and> row_of_snapshot l = row_of_snapshot st"
  by (auto simp: db_stats_changed_def row_of_snapshot_def split: option.splits)

lemma get_stats_row: "get_stats now gs = (st, gs') \<Longrightarrow> row_of_snapshot st = row_of gs \<and> row_of gs' = row_of gs"
  by (auto simp: get_stats_def row_of_snapshot_def row_of_def)

lemma drain_logs_keeps [simp]:
  "dp_last_db_stats (snd (drain_logs clock c s)) = dp_last_db_stats s"
  "dp_db_client (snd (drain_logs clock c s)) = dp_db_client s"
  by (induction clock c s rule: drain_logs.induct; subst drain_logs.simps;
      auto split: prod.split option.split)+

lemma record_stats_write:
  "dp_db_client s \<Longrightarrow> record_stats_in_db None s st db =
     (Inr (), db\<lparr>t_global := map (\<lambda>_. row_of_snapshot st) (t_global db)\<rparr>)"
  by (simp add: record_stats_in_db_def row_of_snapshot_def)

lemma display_tick_current:
  assumes tick: "display_tick clock_text cfg env (s, gs, db) = Inr (out, s', gs', db')"
    and ok: "te_db_error env = None" "dp_db_client s" "db_current s db"
  shows "(\<forall>r \<in> set (t_global db'). r = row_of gs') \<and> length (t_global db') = length (t_global db)
     \<and> dp_db_client s' \<and> db_current s' db'"
proof -
  let ?s1 = "s\<lparr>dp_ticks_since_db_update := dp_ticks_since_db_update s + 1\<rparr>"
  obtain c s2 where d: "drain_logs (te_clock env) (gs_log gs) ?s1 = (c, s2)"
    by (cases "drain_logs (te_clock env) (gs_log gs) ?s1")
  have s2: "dp_last_db_stats s2 = dp_last_db_stats s" "dp_db_client s2"
    using drain_logs_keeps [of "te_clock env" "gs_log gs" ?s1, unfolded d snd_conv] ok(2) by simp_all
  obtain st gs1 where st: "get_stats (te_now env) (gs\<lparr>gs_log := c\<rparr>) = (st, gs1)"
    by (cases "get_stats (te_now env) (gs\<lparr>gs_log := c\<rparr>)")
  have row: "row_of_snapshot st = row_of gs1" using get_stats_row [OF st] by simp
  have kept: "\<not> db_stats_changed (dp_last_db_stats s) st \<Longrightarrow>
      (\<forall>r \<in> set (t_global db). r = row_of_snapshot st) \<and> db_current s db"
    using ok(3) db_stats_same [of "dp_last_db_stats s" st] by (auto simp: db_current_def)
  show ?thesis
    using tick kept s2
    by (auto simp: display_tick_def d [simplified] st ok(1,2) row Let_def record_stats_write db_current_def
        split: if_splits)
qed

section \<open>Byte counts as text\<close>

lemma rne_0 [simp]: "rne m 0 = m"
  by (simp add: rne_def)

text \<open>Below \<open>2^53\<close> every division by 1024 is exact: it only moves the exponent.\<close>

lemma scale_bytes_exact:
  assumes "0 \<le> n" and "n < 2 ^ 53" and "j + left \<le> 4" and "j = 0 \<or> 1024 ^ j \<le> n"
  shows "\<exists>i \<le> j + left. scale_bytes left (Finite n (- 10 * int j)) j = (Finite n (- 10 * int i), i)
     \<and> (i = 0 \<or> 1024 ^ i \<le> n) \<and> (i = j + left \<or> n < 1024 ^ Suc i)"
  using assms(3,4)
proof (induction left arbitrary: j)
  case (Suc left)
  have pow: "(2 :: int) ^ (10 + 10 * j) = 1024 ^ Suc j" by (simp add: power_add power_mult)
  have e: "10 + 10 * int j = int (10 + 10 * j)" by simp
  have less: "f64_less (Finite n (- 10 * int j)) f64_1024 \<longleftrightarrow> n < 1024 ^ Suc j"
    unfolding pow [symmetric] by (simp add: f64_1024_def Let_def e del: of_nat_add of_nat_mult)
  show ?case
  proof (cases "n < 1024 ^ Suc j")
    case True
    with less Suc.prems show ?thesis by (intro exI [of _ j]) simp
  next
    case False
    then have n: "1024 ^ Suc j \<le> n" by simp
    then have "0 < n" by (rule less_le_trans [rotated]) simp
    then have "f64_div_1024 (Finite n (- 10 * int j)) = Finite n (- 10 * int (Suc j))"
      using assms(2) Suc.prems(1) by (simp add: f64_nearest_exact algebra_simps)
    with Suc.IH [of "Suc j"] Suc.prems n False less show ?thesis by simp
  qed
qed simp

text \<open>A number of hundredths as \<open>{:.2}\<close> prints it.\<close>

definition decimal2 :: "int \<Rightarrow> string" where
  "decimal2 h = dec (nat h div 100) @ ''.'' @ two_digits (nat h mod 100)"

lemma fmt2_scaled: "0 \<le> n \<Longrightarrow> f64_fmt2 (Finite n (- 10 * int i)) = decimal2 (rne (n * 100) (10 * i))"
proof -
  assume n: "0 \<le> n"
  have e: "nat (- (- 10 * int i)) = 10 * i" by simp
  show ?thesis
  proof (cases "i = 0")
    case False
    then have "\<not> 0 \<le> - 10 * int i" by simp
    with n show ?thesis by (simp only: f64_fmt2.simps e Let_def) (simp add: decimal2_def)
  qed (use n in \<open>simp add: decimal2_def Let_def\<close>)
qed

section \<open>Properties\<close>

text \<open>
  C36. A byte count below \<open>2^53\<close> is shown in the unit it fits: the largest of B, KB, MB, GB and TB
  that is not larger than the count, with the exact quotient rounded to hundredths.
\<close>

theorem format_bytes_scales:
  assumes "0 \<le> n" and "n < 2 ^ 53"
  shows "\<exists>i \<le> 4. (i = 0 \<or> 1024 ^ i \<le> n) \<and> (i = 4 \<or> n < 1024 ^ Suc i)
     \<and> format_bytes n rate = decimal2 (rne (n * 100) (10 * i)) @ '' '' @ units ! i
         @ (if rate then ''/s'' else [])"
proof -
  from scale_bytes_exact [of n 0 4] assms obtain i
    where "i \<le> 4" "scale_bytes 4 (Finite n 0) 0 = (Finite n (- 10 * int i), i)"
      "i = 0 \<or> 1024 ^ i \<le> n" "i = 4 \<or> n < 1024 ^ Suc i" by auto
  moreover have "length units - 1 = 4" by (simp add: units_def)
  ultimately show ?thesis
    using assms fmt2_scaled [OF assms(1), of i]
    by (intro exI [of _ i]) (simp add: format_bytes_def f64_of_int_exact)
qed

theorem format_bytes_scales_witness: "format_bytes 1572864 True = ''1.50 MB/s''"
proof -
  from format_bytes_scales [of 1572864 True] obtain i
    where i: "i \<le> 4" "i = 0 \<or> 1024 ^ i \<le> (1572864 :: int)" "i = 4 \<or> (1572864 :: int) < 1024 ^ Suc i"
      and shown: "format_bytes 1572864 True = decimal2 (rne (1572864 * 100) (10 * i)) @ '' '' @ units ! i @ ''/s''"
    by auto
  have "i \<in> {0, 1, 2, 3, 4}" using i(1) by auto
  with i have "i = 2" by auto
  moreover have "decimal2 (rne (1572864 * 100) (10 * 2)) = ''1.50''" by code_simp
  ultimately show ?thesis using shown by (simp add: units_def)
qed


text \<open>Six ticks; before the second one a connection has been accepted and 10 bytes counted.\<close>

definition sample_ticks :: "tick_env list" where
  "sample_ticks = map (\<lambda>f. \<lparr>te_now = 0, te_clock = 0, te_draw_error = None, te_db_error = None, te_others = f\<rparr>)
     [\<lambda>gs. gs, \<lambda>gs. increment_active_connections (gs\<lparr>gs_total_bytes_in := 10\<rparr>)]"


end
