(* ===== verification/Schema.thy ===== *)
theory Schema
  imports Postgres_Backend
begin

text \<open>
  \<open>PostgresAuthBackend::initialize_schema\<close>: the DDL batch as statements over a catalog.
  Each statement is what PostgreSQL does with it, \<open>IF NOT EXISTS\<close> included; the batch runs
  in one transaction, so an error leaves the catalog as it was.
\<close>

section \<open>Catalog and statements\<close>

type_synonym column = "string \<times> string"

record catalog =
  cat_sequences :: "string list"
  cat_tables :: "string \<rightharpoonup> column list"
  cat_indexes :: "string list"
  cat_global :: "global_row list"

datatype stmt =
    AdvisoryLock int
  | CreateSequence string
  | CreateTable string "column list" "string list"
  | AddColumn string column
  | CreateIndex string string string
  | SeedGlobal

definition zero_row :: global_row where
  "zero_row = \<lparr>gl_total_connections = Some 0, gl_succeeded_connections = Some 0,
     gl_failed_connections = Some 0, gl_total_bytes_in = Some 0, gl_total_bytes_out = Some 0\<rparr>"

definition named :: "string \<Rightarrow> column list \<Rightarrow> bool" where
  "named col cols \<longleftrightarrow> col \<in> set (map fst cols)"

lemma named_append [simp]: "named col (cols @ [c]) \<longleftrightarrow> named col cols \<or> col = fst c"
  by (auto simp: named_def)

definition has_column :: "catalog \<Rightarrow> string \<Rightarrow> string \<Rightarrow> bool" where
  "has_column c t col =
     (case cat_tables c t of None \<Rightarrow> False | Some cols \<Rightarrow> named col cols)"

text \<open>
  \<open>CreateTable t cols refs\<close>: \<open>refs\<close> are the tables it references, which must exist when the
  table is created.  \<open>CreateIndex i t col\<close> needs the column only when the index is new.
\<close>

fun exec_stmt :: "stmt \<Rightarrow> catalog \<Rightarrow> catalog option" where
  "exec_stmt (AdvisoryLock k) c = Some c"
| "exec_stmt (CreateSequence s) c =
     Some (if s \<in> set (cat_sequences c) then c else c\<lparr>cat_sequences := cat_sequences c @ [s]\<rparr>)"
| "exec_stmt (CreateTable t cols refs) c =
     (if cat_tables c t \<noteq> None then Some c
      else if list_all (\<lambda>r. cat_tables c r \<noteq> None) refs
      then Some (c\<lparr>cat_tables := (cat_tables c)(t \<mapsto> cols)\<rparr>)
      else None)"
| "exec_stmt (AddColumn t col) c =
     (case cat_tables c t of
        None \<Rightarrow> None
      | Some cols \<Rightarrow>
          Some (if named (fst col) cols then c
                else c\<lparr>cat_tables := (cat_tables c)(t \<mapsto> cols @ [col])\<rparr>))"
| "exec_stmt (CreateIndex i t col) c =
     (if i \<in> set (cat_indexes c) then Some c
      else if has_column c t col then Some (c\<lparr>cat_indexes := cat_indexes c @ [i]\<rparr>)
      else None)"
| "exec_stmt SeedGlobal c =
     (if cat_tables c ''public.global'' = None then None
      else Some (if cat_global c = [] then c\<lparr>cat_global := [zero_row]\<rparr> else c))"

fun exec_batch :: "stmt list \<Rightarrow> catalog \<Rightarrow> catalog option" where
  "exec_batch [] c = Some c"
| "exec_batch (s # ss) c = (case exec_stmt s c of None \<Rightarrow> None | Some c' \<Rightarrow> exec_batch ss c')"

section \<open>The batch\<close>

definition counter_columns :: "column list" where
  "counter_columns = map (\<lambda>n. (n, ''BIGINT''))
     [''total_connections'', ''succeeded_connections'', ''failed_connections'',
      ''total_bytes_in'', ''total_bytes_out'']"

definition upstreams_columns :: "column list" where
  "upstreams_columns =
     [(''id'', ''BIGSERIAL''), (''product_id'', ''TEXT''), (''label'', ''TEXT''),
      (''proxy_type'', ''TEXT''), (''address'', ''TEXT''), (''port'', ''INTEGER''),
      (''username'', ''TEXT''), (''password'', ''TEXT''), (''country'', ''TEXT''),
      (''state'', ''TEXT''), (''city'', ''TEXT''), (''isp'', ''TEXT''), (''kind'', ''TEXT''),
      (''cost_per_byte'', ''DOUBLE PRECISION''), (''mode'', ''TEXT''), (''enabled'', ''BOOLEAN''),
      (''expires_at'', ''TIMESTAMPTZ''), (''created_at'', ''TIMESTAMPTZ'')]"

definition schema_batch :: "stmt list" where
  "schema_batch =
     [AdvisoryLock 4503599627370497,
      CreateSequence ''account_id_seq'',
      CreateTable ''public.global'' counter_columns [],
      CreateTable ''public.accounts''
        [(''account'', ''BIGINT''), (''registered'', ''TIMESTAMP''), (''username'', ''TEXT''),
         (''password'', ''TEXT'')] [],
      AddColumn ''public.accounts'' (''bandwidth_limit'', ''BIGINT''),
      AddColumn ''public.accounts'' (''default_selection'', ''TEXT''),
      CreateTable ''public.account_ips'' [(''account'', ''BIGINT''), (''cidr'', ''TEXT'')]
        [''public.accounts''],
      CreateIndex ''idx_account_ips_account'' ''public.account_ips'' ''account'',
      CreateTable ''public.user_stats'' ((''id'', ''BIGINT'') # counter_columns) [''public.accounts''],
      SeedGlobal,
      CreateIndex ''idx_accounts_username'' ''public.accounts'' ''username'',
      CreateIndex ''idx_user_stats_id'' ''public.user_stats'' ''id'',
      CreateTable ''public.upstreams'' upstreams_columns [],
      CreateIndex ''idx_upstreams_enabled'' ''public.upstreams'' ''enabled'',
      AddColumn ''public.upstreams'' (''state'', ''TEXT'')]"

definition initialize_schema :: "catalog \<Rightarrow> bool \<times> catalog" where
  "initialize_schema c =
     (case exec_batch schema_batch c of None \<Rightarrow> (False, c) | Some c' \<Rightarrow> (True, c'))"

definition empty_catalog :: catalog where
  "empty_catalog = \<lparr>cat_sequences = [], cat_tables = (\<lambda>_. None), cat_indexes = [], cat_global = []\<rparr>"

section \<open>Idempotence\<close>

text \<open>\<open>done_by s c\<close>: executing \<open>s\<close> on \<open>c\<close> has nothing left to do.\<close>

fun done_by :: "stmt \<Rightarrow> catalog \<Rightarrow> bool" where
  "done_by (AdvisoryLock k) c \<longleftrightarrow> True"
| "done_by (CreateSequence s) c \<longleftrightarrow> s \<in> set (cat_sequences c)"
| "done_by (CreateTable t cols refs) c \<longleftrightarrow> cat_tables c t \<noteq> None"
| "done_by (AddColumn t col) c \<longleftrightarrow> has_column c t (fst col)"
| "done_by (CreateIndex i t col) c \<longleftrightarrow> i \<in> set (cat_indexes c)"
| "done_by SeedGlobal c \<longleftrightarrow> cat_tables c ''public.global'' \<noteq> None \<and> cat_global c \<noteq> []"

lemma exec_done: "done_by s c \<Longrightarrow> exec_stmt s c = Some c"
  by (cases s) (auto simp: has_column_def split: option.splits)

lemma exec_makes_done: "exec_stmt s c = Some c' \<Longrightarrow> done_by s c'"
  by (cases s) (auto simp: has_column_def split: option.splits if_splits)

text \<open>No statement drops a table, a column, an index or a row.\<close>

lemma exec_keeps_column: "exec_stmt s c = Some c' \<Longrightarrow> has_column c t col \<Longrightarrow> has_column c' t col"
  by (cases s) (auto simp: has_column_def split: option.splits if_splits)

lemma exec_keeps_done: "exec_stmt s c = Some c' \<Longrightarrow> done_by s' c \<Longrightarrow> done_by s' c'"
proof (cases s')
  case (AddColumn t col)
  assume "exec_stmt s c = Some c'" and "done_by s' c"
  with AddColumn show ?thesis by (simp add: exec_keeps_column)
qed (cases s; auto split: option.splits if_splits)+

lemma batch_keeps_done: "exec_batch ss c = Some c' \<Longrightarrow> done_by s c \<Longrightarrow> done_by s c'"
  by (induction ss arbitrary: c) (auto split: option.splits dest: exec_keeps_done)

lemma batch_makes_done: "exec_batch ss c = Some c' \<Longrightarrow> s \<in> set ss \<Longrightarrow> done_by s c'"
  by (induction ss arbitrary: c)
    (auto split: option.splits dest: exec_makes_done batch_keeps_done)

lemma batch_done: "\<forall>s \<in> set ss. done_by s c \<Longrightarrow> exec_batch ss c = Some c"
  by (induction ss) (auto simp: exec_done)

section \<open>Properties\<close>

lemma schema_idempotent:
  "initialize_schema (snd (initialize_schema c)) = initialize_schema c"
proof (cases "exec_batch schema_batch c")
  case None
  then show ?thesis by (simp add: initialize_schema_def)
next
  case (Some c')
  then have "exec_batch schema_batch c' = Some c'"
    by (intro batch_done) (blast intro: batch_makes_done)
  with Some show ?thesis by (simp add: initialize_schema_def)
qed

definition queried_columns :: "(string \<times> string) list" where
  "queried_columns =
     map (Pair ''public.accounts'') [''account'', ''username'', ''password'', ''bandwidth_limit'', ''default_selection'']
     @ map (Pair ''public.account_ips'') [''account'', ''cidr'']
     @ map (Pair ''public.global'') (map fst counter_columns)
     @ map (Pair ''public.user_stats'') [''id'', ''total_bytes_in'', ''total_bytes_out'', ''total_connections'']
     @ map (Pair ''public.upstreams'')
         [''label'', ''proxy_type'', ''address'', ''port'', ''username'', ''password'', ''country'', ''state'',
          ''city'', ''isp'', ''kind'', ''cost_per_byte'', ''enabled'', ''expires_at'']"

lemma schema_fresh:
  "fst (initialize_schema empty_catalog)
     \<and> list_all (\<lambda>(t, col). has_column (snd (initialize_schema empty_catalog)) t col) queried_columns
     \<and> cat_global (snd (initialize_schema empty_catalog)) = [zero_row]"
  by code_simp

text \<open>
  C37. Schema creation is idempotent: run again on what it left, it has the same outcome and
  changes nothing, whatever catalog it first ran on; a run that fails changes nothing.  On a
  fresh database it succeeds and leaves every column that the program's queries name, and one
  row of zero counters.
\<close>

theorem initialize_schema_idempotent:
  "initialize_schema (snd (initialize_schema c)) = initialize_schema c
     \<and> (case initialize_schema empty_catalog of (succeeded, fresh) \<Rightarrow>
          succeeded \<and> list_all (\<lambda>(t, col). has_column fresh t col) queried_columns
          \<and> cat_global fresh = [zero_row])"
  using schema_idempotent schema_fresh by (simp add: case_prod_unfold)

end
