(* ===== verification/Pricing.thy ===== *)
theory Pricing
  imports Complex_Main Auth_Backend
begin

text \<open>
  The debit of a report at prices other than the default: rounding to the nearest double
  never takes a product below an integer it was not below, so at every finite price of at
  least one a report takes no less than its bytes from the account.
\<close>

section \<open>Values and order\<close>

definition f64_val :: "int \<Rightarrow> int \<Rightarrow> real" where
  "f64_val m e = real_of_int m * 2 powr real_of_int e"

lemma two_powr_nat: "0 \<le> k \<Longrightarrow> 2 powr real_of_int k = 2 ^ nat k"
  using powr_realpow [of "2 :: real" "nat k"] by simp

lemma f64_val_shift: "b \<le> e \<Longrightarrow> f64_val m e = real_of_int (m * 2 ^ nat (e - b)) * 2 powr real_of_int b"
  using two_powr_nat [of "e - b"] by (simp add: f64_val_def powr_diff field_simps)

lemma f64_less_val: "f64_less (Finite m e) (Finite n f) \<longleftrightarrow> f64_val m e < f64_val n f"
proof -
  let ?b = "min e f"
  have "f64_val m e < f64_val n f \<longleftrightarrow>
      real_of_int (m * 2 ^ nat (e - ?b)) < real_of_int (n * 2 ^ nat (f - ?b))"
    by (simp only: f64_val_shift [of ?b e] f64_val_shift [of ?b f] min.cobounded1 min.cobounded2
        mult_less_cancel_right_disj) simp
  then show ?thesis by (simp only: f64_less.simps Let_def of_int_less_iff)
qed

lemma f64_val_int: "0 \<le> e \<Longrightarrow> f64_val m e = real_of_int (m * 2 ^ nat e)"
  by (simp add: f64_val_def two_powr_nat)

section \<open>Rounding keeps integer bounds\<close>

lemma bit_len_ge: "0 < n \<Longrightarrow> 2 ^ (bit_len n - 1) \<le> n \<and> 0 < bit_len n"
proof (induction n rule: bit_len.induct)
  case (1 n)
  show ?case
  proof (cases "n = 1")
    case False
    then have "0 < n div 2" using "1.prems" by simp
    with "1.IH" "1.prems" have IH: "2 ^ (bit_len (n div 2) - 1) \<le> n div 2" "0 < bit_len (n div 2)"
      by simp_all
    have "bit_len n = Suc (bit_len (n div 2))" using "1.prems" by (simp add: bit_len.simps [of n])
    moreover have "(2 :: int) ^ bit_len (n div 2) = 2 * 2 ^ (bit_len (n div 2) - 1)"
      using IH(2) by (cases "bit_len (n div 2)") simp_all
    ultimately show ?thesis using IH(1) by simp
  qed (simp add: bit_len.simps)
qed

lemma bit_len_bound:
  assumes "0 < m" and "f64_val m e < 2 powr real_of_int x"
  shows "int (bit_len m) + e \<le> x"
proof -
  from bit_len_ge [OF assms(1)] have b: "2 ^ (bit_len m - 1) \<le> m" "0 < bit_len m" by simp_all
  have "2 powr real_of_int (int (bit_len m) - 1 + e) = real_of_int (2 ^ (bit_len m - 1)) * 2 powr real_of_int e"
    using two_powr_nat [of "int (bit_len m) - 1"] b(2) by (simp add: powr_add nat_diff_distrib)
  also have "\<dots> \<le> f64_val m e"
    using b(1) unfolding f64_val_def by (intro mult_right_mono) (simp_all only: of_int_le_iff powr_ge_zero)
  also note assms(2)
  finally show ?thesis by simp
qed

lemma rne_ge: "q * 2 ^ k \<le> a \<Longrightarrow> q \<le> rne a k"
proof -
  assume "q * 2 ^ k \<le> a"
  then have "q * 2 ^ k div 2 ^ k \<le> a div 2 ^ k" by (rule zdiv_mono1) simp
  then show ?thesis by (simp add: rne_def Let_def)
qed

lemma rne_le: "real_of_int (rne a k) \<le> real_of_int a / 2 ^ k + 1"
proof -
  have "rne a k \<le> a div 2 ^ k + 1" by (simp add: rne_def Let_def)
  moreover have "real_of_int (a div 2 ^ k) \<le> real_of_int a / 2 ^ k"
    using real_of_int_div4 [of a "2 ^ k"] by simp
  ultimately show ?thesis by linarith
qed

text \<open>Rounded at the last bit the format keeps, when bits are dropped at all.\<close>

lemma rne_val_ge:
  assumes a: "0 < a" and n: "0 < n" "n < 2 ^ 53" and ge: "real_of_int n \<le> f64_val a e"
    and k: "0 < k" "e + k \<le> 0 \<or> k = int (bit_len a) - 53"
  shows "0 < rne a (nat k) \<and> real_of_int n \<le> f64_val (rne a (nat k)) (e + k)"
proof (cases "e + k \<le> 0")
  case True
  define q where "q = n * 2 ^ nat (- (e + k))"
  have pow: "2 powr real_of_int k = 2 ^ nat k" using k(1) by (simp add: two_powr_nat)
  have p2: "2 powr - real_of_int (e + k) = 2 ^ nat (- (e + k))"
    using two_powr_nat [of "- (e + k)"] True by simp
  have qn: "real_of_int q = real_of_int n * 2 powr - real_of_int (e + k)" unfolding p2 by (simp add: q_def)
  have "real_of_int (q * 2 ^ nat k) = real_of_int n * (2 powr - real_of_int (e + k) * 2 powr real_of_int k)"
    unfolding pow p2 by (simp add: q_def)
  also have "\<dots> = real_of_int n * 2 powr - real_of_int e" by (simp add: powr_add [symmetric])
  also have "\<dots> \<le> f64_val a e * 2 powr - real_of_int e" by (intro mult_right_mono ge) simp
  also have "\<dots> = real_of_int a" by (simp add: f64_val_def powr_minus field_simps)
  finally have q: "q \<le> rne a (nat k)" by (intro rne_ge) (simp only: of_int_le_iff)
  then have "real_of_int q * 2 powr real_of_int (e + k) \<le> f64_val (rne a (nat k)) (e + k)"
    unfolding f64_val_def by (intro mult_right_mono) simp_all
  moreover have "real_of_int q * 2 powr real_of_int (e + k) = real_of_int n"
    unfolding qn by (simp add: mult.assoc powr_add [symmetric])
  moreover have "0 < q" using n by (simp add: q_def)
  ultimately show ?thesis using q by simp
next
  case False
  from bit_len_ge [OF a] have "2 ^ (bit_len a - 1) \<le> a" by simp
  moreover have "bit_len a - 1 = 52 + nat k" using k False by linarith
  ultimately have m52: "2 ^ 52 \<le> rne a (nat k)" by (intro rne_ge) (simp add: power_add)
  moreover have "2 \<le> 2 powr real_of_int (e + k)"
    using False powr_mono [of 1 "real_of_int (e + k)" 2] by simp
  moreover have "(2 :: real) ^ 52 \<le> real_of_int (rne a (nat k))"
    using m52 by (simp only: numeral_power_le_of_int_cancel_iff)
  ultimately have "2 ^ 52 * 2 \<le> f64_val (rne a (nat k)) (e + k)"
    unfolding f64_val_def by (intro mult_mono) simp_all
  moreover have "real_of_int n < 2 ^ 53"
    using n(2) by (simp only: of_int_less_numeral_power_cancel_iff)
  ultimately show ?thesis using m52 by simp
qed

lemma f64_nearest_ge:
  assumes a: "0 < a" and n: "0 < n" "n < 2 ^ 53" and ge: "real_of_int n \<le> f64_val a e"
    and lt: "f64_val a e < 2 powr real_of_int 1000"
  shows "\<exists>m f. f64_nearest a e = Finite m f \<and> 0 < m \<and> real_of_int n \<le> f64_val m f"
proof -
  define k where "k = max (int (bit_len a) - 53) (- 1074 - e)"
  have bl: "int (bit_len a) + e \<le> 1000" using bit_len_bound [OF a lt] .
  show ?thesis
  proof (cases "k \<le> 0")
    case True
    then have "f64_nearest a e = Finite a e"
      using a bl by (simp add: f64_nearest_def finite_or_inf_def Let_def k_def)
    then show ?thesis using a ge by simp
  next
    case False
    define m where "m = rne a (nat k)"
    have run: "f64_nearest a e = finite_or_inf m (e + k)"
      using False a by (simp add: f64_nearest_def Let_def m_def flip: k_def) (auto simp: k_def)
    have "e + k \<le> 0 \<or> k = int (bit_len a) - 53" unfolding k_def by linarith
    with rne_val_ge [OF a n ge, of k] False
    have m: "0 < m" "real_of_int n \<le> f64_val m (e + k)" by (simp_all add: m_def)
    have pow: "2 powr real_of_int k = 2 ^ nat k" using False by (simp add: two_powr_nat)
    have "real_of_int (e + k) \<le> real_of_int 1000" using bl unfolding of_int_le_iff k_def by linarith
    then have le: "2 powr real_of_int (e + k) \<le> 2 powr real_of_int 1000" by (rule powr_mono) simp
    have "f64_val m (e + k) \<le> (real_of_int a / 2 ^ nat k + 1) * 2 powr real_of_int (e + k)"
      unfolding f64_val_def m_def by (intro mult_right_mono rne_le) simp
    also have "\<dots> = f64_val a e + 2 powr real_of_int (e + k)"
      using pow by (simp add: f64_val_def powr_add field_simps)
    also have "\<dots> < 2 powr real_of_int 1000 + 2 powr real_of_int 1000" using lt le by (rule add_less_le_mono)
    also have "\<dots> = 2 powr real_of_int 1001" using powr_add [of 2 "real_of_int 1000" 1] by simp
    finally have "int (bit_len m) + (e + k) \<le> 1001" by (rule bit_len_bound [OF m(1)])
    then have "finite_or_inf m (e + k) = Finite m (e + k)" using m(1) by (simp add: finite_or_inf_def)
    with run m show ?thesis by auto
  qed
qed

lemma f64_round_ge:
  assumes "0 < m" and "0 < n" and "real_of_int n \<le> f64_val m e"
  shows "\<exists>p f. f64_round (Finite m e) = Finite p f \<and> 0 \<le> f \<and> n \<le> p * 2 ^ nat f \<and> 0 < p"
proof (cases "0 \<le> e")
  case True
  then have "n \<le> m * 2 ^ nat e" using assms(3) by (simp only: f64_val_int of_int_le_iff)
  with True assms(1) show ?thesis by simp
next
  case False
  define d :: int where "d = 2 ^ nat (- e)"
  have d: "0 < d" "real_of_int d = 2 powr - real_of_int e"
    using False two_powr_nat [of "- e"] by (simp_all add: d_def)
  have "real_of_int (n * d) \<le> f64_val m e * 2 powr - real_of_int e"
    using assms(3) by (simp add: d(2) mult_right_mono)
  also have "\<dots> = real_of_int m" by (simp add: f64_val_def powr_minus field_simps)
  finally have "n * d \<le> m" by (simp only: of_int_le_iff)
  then have "n * (2 * d) \<le> 2 * m + d" using d(1) by (simp add: algebra_simps)
  then have "n * (2 * d) div (2 * d) \<le> (2 * m + d) div (2 * d)" using d(1) by (intro zdiv_mono1) simp_all
  then have "n \<le> (2 * m + d) div (2 * d)" using d(1) by simp
  then show ?thesis using False assms(1,2) by (simp add: Let_def d_def [symmetric])
qed

section \<open>Prices\<close>

text \<open>A price of at least one per byte, and not so large that a product overflows.\<close>

definition full_price :: "f64 \<Rightarrow> bool" where
  "full_price c \<longleftrightarrow> \<not> f64_less c f64_one \<and> f64_less c (Finite 1 900)"

lemma full_price_one: "full_price f64_one"
  by (simp add: full_price_def f64_one_def Let_def)

lemma usage_debit_full:
  assumes "full_price c" and n: "i + b < 2 ^ 53"
  shows "int (i + b) \<le> usage_debit i b c"
proof (cases "i + b = 0")
  case False
  define n where "n = int (i + b)"
  have n: "0 < n" "n < 2 ^ 53" using assms(2) False unfolding n_def by (simp_all del: of_nat_add)
  have s: "sat_i64 (to_i64 i + to_i64 b) = n" using assms(2) by (simp add: to_i64_def sat_i64_def n_def)
  obtain m e where c: "c = Finite m e"
  proof (cases c)
    case (Infinite s)
    with assms(1) show ?thesis by (cases s) (simp_all add: full_price_def f64_one_def)
  qed (use assms(1) that in \<open>simp_all add: full_price_def\<close>)
  have one: "1 \<le> f64_val m e" and lim: "f64_val m e < 2 powr 900"
    using assms(1) f64_less_val [of m e 1 0] f64_less_val [of m e 1 900]
    by (simp_all add: full_price_def c f64_one_def f64_val_def)
  have "0 < m"
  proof (rule ccontr)
    assume "\<not> 0 < m"
    then have "f64_val m e \<le> 0" by (simp add: f64_val_def mult_nonpos_nonneg)
    with one show False by simp
  qed
  have prod: "f64_val (n * m) e = real_of_int n * f64_val m e" by (simp add: f64_val_def)
  have "real_of_int n \<le> f64_val (n * m) e"
    using one n(1) unfolding prod by (simp add: mult_le_cancel_left1)
  moreover have "f64_val (n * m) e < 2 powr real_of_int 1000"
  proof -
    have "real_of_int n * f64_val m e < 2 powr 53 * 2 powr 900"
    proof (rule mult_strict_mono)
      have "real_of_int n < real_of_int (2 ^ 53)" using n(2) by (simp only: of_int_less_iff)
      then show "real_of_int n < 2 powr 53" by simp
    qed (use lim one in simp_all)
    also have "\<dots> < 2 powr real_of_int 1000" by (simp add: powr_add [symmetric])
    finally show ?thesis by (simp only: prod)
  qed
  ultimately obtain p f where p: "f64_nearest (n * m) e = Finite p f" "0 < p" "real_of_int n \<le> f64_val p f"
    using f64_nearest_ge [of "n * m" n e] n \<open>0 < m\<close> by auto
  from f64_round_ge [OF p(2) n(1) p(3)] obtain q g where
    q: "f64_round (Finite p f) = Finite q g" "0 \<le> g" "n \<le> q * 2 ^ nat g" "0 < q" by blast
  have round: "f64_round (f64_mul (f64_of_int n) c) = Finite q g"
    using n by (simp add: f64_of_int_exact c p(1) q(1) del: f64_round.simps)
  have pos: "f64_less f64_zero (Finite q g)" using q(2,4) by (simp add: f64_zero_def)
  have "n \<le> f64_to_i64 (f64_min (Finite q g) (f64_of_int i64_max))"
    using n q(2,3) by (auto simp: f64_min_def f64_of_i64_max sat_i64_def)
  then show ?thesis unfolding n_def [symmetric] by (simp add: usage_debit_def s round pos)
qed simp

section \<open>Property\<close>



end
