(* ===== verification/Metered_Relay.thy ===== *)
theory Metered_Relay
  imports Relay Pricing Static_Backend Postgres_Backend
begin

text \<open>
  The relays of any number of connections together with the account backend that answers
  their reports.  The lemmas are proved from the \<open>AuthBackend\<close> laws alone, inside the locale,
  so they hold for every backend that keeps them; the properties instantiate both.
\<close>

section \<open>What has been delivered and what is about to be\<close>

definition pending :: "relay_pc \<Rightarrow> nat" where
  "pending pc = (case pc of Writing bs k \<Rightarrow> length bs - k | _ \<Rightarrow> 0)"

definition committed :: "relay \<Rightarrow> direction \<Rightarrow> nat" where
  "committed s d = length (fl_delivered (rl_flows s d)) + pending (fl_pc (rl_flows s d))"

definition delivered_total :: "relay \<Rightarrow> nat" where
  "delivered_total s = length (fl_delivered (rl_flows s ToUpstream))
     + length (fl_delivered (rl_flows s ToClient))"

definition committed_total :: "relay \<Rightarrow> nat" where
  "committed_total s = committed s ToUpstream + committed s ToClient"

lemma delivered_committed: "delivered_total s \<le> committed_total s"
  by (simp add: delivered_total_def committed_total_def committed_def)

fun is_reporting :: "relay_pc \<Rightarrow> bool" where
  "is_reporting (Reporting _) = True"
| "is_reporting _ = False"

text \<open>A metered loop commits bytes only in the step that answers a report.\<close>

lemma loop_outcome_committed:
  assumes "pc_ok pc" and "mt_account m = Some aid" and "\<not> is_reporting pc"
    and "loop_outcome m d pc r = Some oc"
  shows "length (oc_written oc) + pending (oc_pc oc) \<le> pending pc"
proof (cases pc)
  case Reading
  with assms show ?thesis
    by (auto simp: loop_outcome_def on_read_def goes_def ends_io_def pending_def
        split: resp.splits if_splits)
next
  case (Writing bs k)
  with assms show ?thesis
    by (auto simp: loop_outcome_def on_write_def goes_def ends_io_def pending_def
        split: resp.splits if_splits)
qed (use assms in \<open>auto simp: loop_outcome_def on_flush_def goes_def ends_io_def pending_def
        split: resp.splits\<close>)

lemma committed_apply:
  "committed (apply_outcome d oc s) d = length (fl_delivered (rl_flows s d))
     + length (oc_written oc) + pending (oc_pc oc)"
  "d' \<noteq> d \<Longrightarrow> committed (apply_outcome d oc s) d' = committed s d'"
  by (simp_all add: committed_def apply_outcome_def Let_def)

lemma committed_total_apply:
  assumes "length (oc_written oc) + pending (oc_pc oc) \<le> pending (fl_pc (rl_flows s d)) + n"
  shows "committed_total (apply_outcome d oc s) \<le> committed_total s + n"
proof -
  have d: "committed (apply_outcome d oc s) d \<le> committed s d + n"
    using assms by (simp add: committed_apply) (simp add: committed_def)
  show ?thesis
    using d by (cases d) (simp_all add: committed_total_def committed_apply)
qed

lemma usage_call_chunk:
  assumes "usage_call d aid (length bs) c' = (i, bin, bout, c)" and "length bs \<le> buffer_size"
  shows "i = aid \<and> c = c' \<and> bin + bout = length bs"
  using assms by (auto simp: usage_call_def as_u64_def buffer_size_def split: direction.splits)

lemma usage_debit_chunk:
  assumes "length bs \<le> buffer_size" and "usage_call d aid (length bs) c' = (i, bin, bout, c)"
    and "full_price c'"
  shows "i = aid \<and> int (length bs) \<le> usage_debit bin bout c"
  using usage_call_chunk [OF assms(2,1)] usage_debit_full [of c bin bout] assms(1,3)
  by (simp add: buffer_size_def)

section \<open>Relay and backend\<close>

definition answer_of :: "auth_error + i64 option \<Rightarrow> resp" where
  "answer_of res = (case res of Inl e \<Rightarrow> R_AuthErr e | Inr rem \<Rightarrow> R_Remaining rem)"

text \<open>
  The backend executes the report the loop waits for when it answers it; every other step
  leaves it alone.  \<open>report\<close> is the backend's \<open>report_usage\<close>.
\<close>

inductive backed_step :: "'s reporter \<Rightarrow> meter \<Rightarrow> i64 \<Rightarrow> relay \<times> 's \<Rightarrow> relay \<times> 's \<Rightarrow> bool"
  for report m aid where
  local: "relay_result s = None \<Longrightarrow> \<not> is_reporting (fl_pc (rl_flows s d)) \<Longrightarrow>
     relay_resume m d r s = Some t \<Longrightarrow> backed_step report m aid (s, db) (t, db)"
| report: "relay_result s = None \<Longrightarrow> fl_pc (rl_flows s d) = Reporting bs \<Longrightarrow>
     usage_call d aid (length bs) (mt_cost m) = (i, bin, bout, c) \<Longrightarrow>
     report db i bin bout c = (res, db') \<Longrightarrow>
     relay_resume m d (answer_of res) s = Some t \<Longrightarrow> backed_step report m aid (s, db) (t, db')"

lemma backed_step_relay: "backed_step report m aid (s, db) (t, db') \<Longrightarrow> relay_step m s t"
  by (cases rule: backed_step.cases) (auto intro: relay_step.resume)

text \<open>
  Many connections share one backend; each has its account, its cost per byte and its peer.
  Any of them may take the next step.
\<close>

type_synonym conn = "i64 \<times> f64 \<times> string"

definition conn_meter :: "conn \<Rightarrow> meter" where
  "conn_meter c = (case c of (aid, cost, peer) \<Rightarrow> \<lparr>mt_account = Some aid, mt_cost = cost, mt_peer = peer\<rparr>)"

lemma conn_meter_simps [simp]:
  "mt_account (conn_meter c) = Some (fst c)" "mt_cost (conn_meter c) = fst (snd c)"
  by (simp_all add: conn_meter_def split: prod.split)

inductive fleet_step :: "'s reporter \<Rightarrow> conn list \<Rightarrow> relay list \<times> 's \<Rightarrow> relay list \<times> 's \<Rightarrow> bool"
  for report conns where
  turn: "k < length conns \<Longrightarrow>
     backed_step report (conn_meter (conns ! k)) (fst (conns ! k)) (ss ! k, db) (t, db') \<Longrightarrow>
     fleet_step report conns (ss, db) (ss[k := t], db')"

inductive fleet :: "'s reporter \<Rightarrow> conn list \<Rightarrow> 's \<Rightarrow> relay list \<times> 's \<Rightarrow> bool"
  for report conns db0 where
  start: "fleet report conns db0 (map (\<lambda>_. relay_start) conns, db0)"
| step: "fleet report conns db0 x \<Longrightarrow> fleet_step report conns x y \<Longrightarrow> fleet report conns db0 y"

text \<open>Every relay of a reachable fleet is a reachable relay.\<close>

lemma fleet_relays:
  "fleet report conns db0 x \<Longrightarrow> length (fst x) = length conns
     \<and> (\<forall>k < length conns. relay_reachable (conn_meter (conns ! k)) (fst x ! k))"
proof (induction rule: fleet.induct)
  case start
  show ?case by (simp add: relay_reachable.start)
next
  case (step x y)
  from step.hyps(2) step.IH show ?case
    by (cases rule: fleet_step.cases)
      (auto simp: nth_list_update intro: relay_reachable.step dest: backed_step_relay)
qed

text \<open>A measure of relays, summed over the connections of one account.\<close>

fun account_total :: "(relay \<Rightarrow> nat) \<Rightarrow> i64 \<Rightarrow> conn list \<Rightarrow> relay list \<Rightarrow> nat" where
  "account_total f aid (c # cs) (s # ss) = (if fst c = aid then f s else 0) + account_total f aid cs ss"
| "account_total f aid _ _ = 0"

lemma account_total_update:
  "length ss = length cs \<Longrightarrow> k < length cs \<Longrightarrow>
     account_total f aid cs (ss[k := t]) + (if fst (cs ! k) = aid then f (ss ! k) else 0) =
     account_total f aid cs ss + (if fst (cs ! k) = aid then f t else 0)"
proof (induction cs arbitrary: ss k)
  case (Cons c cs)
  then obtain s ss' where ss: "ss = s # ss'" by (cases ss) auto
  show ?case
  proof (cases k)
    case (Suc j)
    with Cons.IH [of ss' j] Cons.prems ss show ?thesis by (cases "fst (cs ! j) = aid") simp_all
  qed (simp add: ss)
qed simp

lemma account_total_mono: "(\<And>s. f s \<le> g s) \<Longrightarrow> account_total f aid cs ss \<le> account_total g aid cs ss"
  by (induction f aid cs ss rule: account_total.induct) (auto simp: add_mono)

lemma account_total_start: "f relay_start = 0 \<Longrightarrow> account_total f aid cs (map (\<lambda>_. relay_start) cs) = 0"
  by (induction cs) simp_all

context metering
begin

text \<open>
  What one step of an account's own relay takes, at any price of at least one: bytes are committed
  only by a report that leaves a positive balance, and by no more than it took.
\<close>

lemma report_commits:
  assumes inv: "invar db" and aid: "in_i64 aid" and bal: "balance db aid = Some (Some r)" and r: "0 \<le> r"
    and run: "relay_result s = None" and pc: "fl_pc (rl_flows s d) = Reporting bs"
    and debit: "int (length bs) \<le> usage_debit bin bout c"
    and rep: "report_usage db aid bin bout c = (res, db')"
    and t: "relay_resume m d (answer_of res) s = Some t"
  shows "\<exists>r'. balance db' aid = Some (Some r') \<and> 0 \<le> r' \<and> r' \<le> r
     \<and> (committed_total t \<le> committed_total s
        \<or> 0 < r' \<and> int (committed_total t) + r' \<le> int (committed_total s) + r)"
proof -
  from t pc obtain oc where oc: "on_report m d bs (answer_of res) = Some oc" and t': "t = apply_outcome d oc s"
    by (auto simp: relay_resume_def loop_outcome_def)
  have stay: "committed_total t \<le> committed_total s" if "is_finished_pc (oc_pc oc)" "oc_written oc = []"
    using committed_total_apply [of oc s d 0] that
    by (cases "oc_pc oc") (auto simp: t' pending_def)
  show ?thesis
  proof (cases res)
    case (Inl e)
    then have "balance db' = balance db" using report_error [OF inv] rep by blast
    moreover have "committed_total t \<le> committed_total s"
      using Inl oc by (intro stay) (auto simp: answer_of_def on_report_def goes_def)
    ultimately show ?thesis using bal r by simp
  next
    case (Inr rem)
    let ?r' = "max 0 (r - usage_debit bin bout c)"
    from report_limited [OF inv aid rep [unfolded Inr] bal]
    have rem: "rem = Some ?r'" and bal': "balance db' aid = Some (Some ?r')" by simp_all
    show ?thesis
    proof (cases "?r' \<le> 0")
      case True
      then have "committed_total t \<le> committed_total s"
        using Inr rem oc by (intro stay) (auto simp: answer_of_def on_report_def goes_def)
      with bal' r show ?thesis by simp
    next
      case False
      then have "oc_pc oc = Writing bs 0" "oc_written oc = []"
        using Inr rem oc by (auto simp: answer_of_def on_report_def goes_def)
      then have "committed_total t \<le> committed_total s + length bs"
        unfolding t' by (intro committed_total_apply) (simp add: pending_def)
      with bal' False debit show ?thesis by (simp add: max_def split: if_splits)
    qed
  qed
qed

lemma step_commits:
  assumes step: "backed_step report_usage m aid (s, db) (t, db')" and ok: "\<And>d. flow_ok (rl_flows s d)"
    and inv: "invar db" and aid: "in_i64 aid" and bal: "balance db aid = Some (Some r)" and r: "0 \<le> r"
    and m: "mt_account m = Some aid" "full_price (mt_cost m)"
  shows "\<exists>r'. balance db' aid = Some (Some r') \<and> 0 \<le> r' \<and> r' \<le> r
     \<and> (committed_total t \<le> committed_total s
        \<or> 0 < r' \<and> int (committed_total t) + r' \<le> int (committed_total s) + r)"
  using step
proof cases
  case (local d a)
  then obtain oc where oc: "loop_outcome m d (fl_pc (rl_flows s d)) a = Some oc"
    and t: "t = apply_outcome d oc s" by (auto simp: relay_resume_def)
  have "pc_ok (fl_pc (rl_flows s d))" using ok [of d] local(2) by (simp add: flow_ok_def)
  from loop_outcome_committed [OF this m(1) local(3) oc]
  have "committed_total t \<le> committed_total s + 0"
    unfolding t by (intro committed_total_apply) simp
  with local bal r show ?thesis by auto
next
  case (report d bs i bin bout c res)
  have "length bs \<le> buffer_size" using ok [of d] report(2) by (simp add: flow_ok_def)
  from usage_debit_chunk [OF this report(3) m(2)]
  have i: "i = aid" and debit: "int (length bs) \<le> usage_debit bin bout c" by simp_all
  from report_commits [OF inv aid bal r report(1,2) debit report(4) [unfolded i] report(5)]
  show ?thesis .
qed

text \<open>A relay of another account leaves the balance alone, and every step the invariant.\<close>

lemma step_other:
  assumes "backed_step report_usage m i (s, db) (t, db')" and "invar db" and "in_i64 i" and "in_i64 aid"
  shows "invar db' \<and> (i \<noteq> aid \<longrightarrow> balance db' aid = balance db aid)"
  using assms(1)
proof cases
  case local
  then show ?thesis using assms(2) by simp
next
  case (report d bs j bin bout c res)
  have j: "j = i" using report(3) by (auto simp: usage_call_def split: direction.splits)
  show ?thesis
  proof (cases res)
    case (Inl e)
    then show ?thesis using report(4) by (auto dest!: report_error [OF assms(2)])
  next
    case (Inr rem)
    then show ?thesis
      using report(4) report_invar [OF assms(2)] report_other [OF assms(2-4)] by (auto simp: j)
  qed
qed

text \<open>
  What the account's connections have committed, and the balance, never exceed the allowance
  together; and as long as anything is committed some allowance was left after it.
\<close>

definition allowance_kept :: "i64 \<Rightarrow> i64 \<Rightarrow> conn list \<Rightarrow> relay list \<times> 's \<Rightarrow> bool" where
  "allowance_kept aid b conns x \<longleftrightarrow> invar (snd x)
     \<and> (\<exists>r. balance (snd x) aid = Some (Some r) \<and> 0 \<le> r
          \<and> int (account_total committed_total aid conns (fst x)) + r \<le> b
          \<and> (account_total committed_total aid conns (fst x) = 0
             \<or> int (account_total committed_total aid conns (fst x)) < b))"

lemma fleet_within:
  assumes "fleet report_usage conns db0 x" and "invar db0" and "balance db0 aid = Some (Some b)" and "0 \<le> b"
    and ids: "\<forall>c \<in> set conns. in_i64 (fst c)" "in_i64 aid"
    and cost: "\<forall>c \<in> set conns. fst c = aid \<longrightarrow> full_price (fst (snd c))"
  shows "allowance_kept aid b conns x"
  using assms(1)
proof (induction rule: fleet.induct)
  case start
  have "account_total committed_total aid conns (map (\<lambda>_. relay_start) conns) = 0"
    by (rule account_total_start)
      (simp add: committed_total_def committed_def relay_start_def pending_def)
  with assms(2-4) show ?case by (simp add: allowance_kept_def)
next
  case (step x y)
  from step.IH obtain r where inv: "invar (snd x)" and bal: "balance (snd x) aid = Some (Some r)" and r: "0 \<le> r"
    and sum: "int (account_total committed_total aid conns (fst x)) + r \<le> b"
    and less: "account_total committed_total aid conns (fst x) = 0
      \<or> int (account_total committed_total aid conns (fst x)) < b"
    by (auto simp: allowance_kept_def)
  from fleet_relays [OF step.hyps(1)] have len: "length (fst x) = length conns"
    and reach: "\<And>k. k < length conns \<Longrightarrow> relay_reachable (conn_meter (conns ! k)) (fst x ! k)" by simp_all
  from step.hyps(2) show ?case
  proof cases
    case (turn k ss db t db')
    let ?c = "conns ! k"
    have k: "?c \<in> set conns" using turn(3) by simp
    have x: "fst x = ss" "snd x = db" using turn(1) by simp_all
    have total: "account_total committed_total aid conns (ss[k := t])
        + (if fst ?c = aid then committed_total (ss ! k) else 0) =
      account_total committed_total aid conns ss + (if fst ?c = aid then committed_total t else 0)"
      using account_total_update [OF len turn(3), of committed_total aid t] by (simp only: x)
    have other: "invar db' \<and> (fst ?c \<noteq> aid \<longrightarrow> balance db' aid = balance db aid)"
      using step_other [OF turn(4)] inv ids k by (simp add: x)
    show ?thesis
    proof (cases "fst ?c = aid")
      case True
      have "flow_ok (rl_flows (ss ! k) d)" for d
        using relay_flow_ok [OF reach [OF turn(3)]] by (simp add: x)
      from step_commits [OF turn(4) [unfolded True] this inv [unfolded x] ids(2) bal [unfolded x] r]
        cost k True total sum less other
      show ?thesis by (force simp: allowance_kept_def turn(2) x)
    next
      case False
      with total sum less other bal r show ?thesis by (simp add: allowance_kept_def turn(2) x)
    qed
  qed
qed

lemma fleet_delivers_less:
  assumes "fleet report_usage conns db0 x" and "invar db0" and "balance db0 aid = Some (Some b)" and "0 \<le> b"
    and "\<forall>c \<in> set conns. in_i64 (fst c)" "in_i64 aid"
    and "\<forall>c \<in> set conns. fst c = aid \<longrightarrow> full_price (fst (snd c))"
  shows "account_total delivered_total aid conns (fst x) = 0
     \<or> int (account_total delivered_total aid conns (fst x)) < b"
proof -
  have "account_total delivered_total aid conns (fst x) \<le> account_total committed_total aid conns (fst x)"
    by (rule account_total_mono) (rule delivered_committed)
  then show ?thesis using fleet_within [OF assms] by (auto simp: allowance_kept_def)
qed

end

section \<open>Running a fleet\<close>

text \<open>
  The executable form: a script of connections, directions and answers, the reports answered
  by the backend itself.  What does not fit the connection's state changes nothing.
\<close>

definition backed_turn ::
  "'s reporter \<Rightarrow> conn \<Rightarrow> direction \<Rightarrow> resp \<Rightarrow> relay \<Rightarrow> 's \<Rightarrow> relay \<times> 's"
where
  "backed_turn report c d a s db =
     (if relay_result s \<noteq> None then (s, db)
      else (case fl_pc (rl_flows s d) of
              Reporting bs \<Rightarrow>
                (let (i, bin, bout, cost) = usage_call d (fst c) (length bs) (fst (snd c));
                     (res, db') = report db i bin bout cost
                 in case relay_resume (conn_meter c) d (answer_of res) s of
                      None \<Rightarrow> (s, db)
                    | Some t \<Rightarrow> (t, db'))
            | _ \<Rightarrow> (case relay_resume (conn_meter c) d a s of
                      None \<Rightarrow> (s, db)
                    | Some t \<Rightarrow> (t, db))))"

fun fleet_run ::
  "'s reporter \<Rightarrow> conn list \<Rightarrow> (nat \<times> direction \<times> resp) list \<Rightarrow> relay list \<times> 's \<Rightarrow> relay list \<times> 's"
where
  "fleet_run report conns [] x = x"
| "fleet_run report conns ((k, d, a) # turns) (ss, db) =
     (if k < length conns
      then let (t, db') = backed_turn report (conns ! k) d a (ss ! k) db
           in fleet_run report conns turns (ss[k := t], db')
      else fleet_run report conns turns (ss, db))"

lemma backed_turn_step:
  assumes "backed_turn report c d a s db = (t, db')"
  shows "t = s \<and> db' = db \<or> backed_step report (conn_meter c) (fst c) (s, db) (t, db')"
proof (cases "relay_result s = None")
  case run: True
  show ?thesis
  proof (cases "is_reporting (fl_pc (rl_flows s d))")
    case True
    then obtain bs where pc: "fl_pc (rl_flows s d) = Reporting bs"
      by (cases "fl_pc (rl_flows s d)") auto
    obtain i bin bout cost where call: "usage_call d (fst c) (length bs) (fst (snd c)) = (i, bin, bout, cost)"
      by (cases "usage_call d (fst c) (length bs) (fst (snd c))") auto
    obtain res db1 where rep: "report db i bin bout cost = (res, db1)"
      by (cases "report db i bin bout cost")
    have call': "usage_call d (fst c) (length bs) (mt_cost (conn_meter c)) = (i, bin, bout, cost)"
      using call by simp
    have "backed_step report (conn_meter c) (fst c) (s, db) (t1, db1)"
      if "relay_resume (conn_meter c) d (answer_of res) s = Some t1" for t1
      by (rule backed_step.report) (fact run pc call' rep that)+
    then show ?thesis
      using assms run pc call rep
      by (auto simp: backed_turn_def split: option.splits)
  next
    case False
    then show ?thesis
      using assms run
      by (auto simp: backed_turn_def split: option.splits relay_pc.splits
          intro: backed_step.local [OF run False])
  qed
qed (use assms in \<open>simp add: backed_turn_def\<close>)

lemma fleet_run_fleet:
  "fleet report conns db0 x \<Longrightarrow> fleet report conns db0 (fleet_run report conns turns x)"
proof (induction turns arbitrary: x)
  case (Cons y turns)
  obtain k d a where y: "y = (k, d, a)" by (cases y)
  obtain ss db where x: "x = (ss, db)" by (cases x)
  show ?case
  proof (cases "k < length conns")
    case True
    obtain t db' where t: "backed_turn report (conns ! k) d a (ss ! k) db = (t, db')"
      by (cases "backed_turn report (conns ! k) d a (ss ! k) db")
    have "fleet report conns db0 (ss[k := t], db')"
      using backed_turn_step [OF t] Cons.prems True
      by (auto simp: x intro: fleet.step fleet_step.turn)
    with Cons.IH True t x y show ?thesis by simp
  qed (use Cons x y in simp)
qed simp

definition relays_start :: "conn list \<Rightarrow> relay list" where
  "relays_start conns = map (\<lambda>_. relay_start) conns"

lemma fleet_run_start: "fleet report conns db (fleet_run report conns turns (relays_start conns, db))"
  unfolding relays_start_def by (intro fleet_run_fleet fleet.start)

section \<open>Properties\<close>


definition sample_user :: "unit static_user" where
  "sample_user = \<lparr>su_username = ''u'', su_password = ''p'', su_remaining = Some 5,
     su_allowed_nets = [], su_default_selection = None\<rparr>"

text \<open>Two connections of one account, one in each direction, against an allowance of five.\<close>

definition sample_conns :: "conn list" where
  "sample_conns = [(1, default_cost_per_byte, ''a''), (1, default_cost_per_byte, ''b'')]"

definition sample_turns :: "(nat \<times> direction \<times> resp) list" where
  "sample_turns = [(0, ToUpstream, R_Bytes [1, 2, 3]), (1, ToClient, R_Bytes [4, 5]), (0, ToUpstream, R_Done),
     (1, ToClient, R_Done), (0, ToUpstream, R_Wrote 3)]"

lemma sample_debits:
  "usage_debit 0 (Suc (Suc (Suc 0))) f64_one = 3" "usage_debit (Suc (Suc 0)) 0 f64_one = 2"
  using usage_debit_one [of 0 "Suc (Suc (Suc 0))"] usage_debit_one [of "Suc (Suc 0)" 0]
  by (simp_all add: default_cost_per_byte_def)

lemmas fleet_run_defs = sample_turns_def sample_conns_def relays_start_def backed_turn_def conn_meter_def
  relay_resume_def loop_outcome_def on_read_def on_report_def on_write_def goes_def apply_outcome_def
  relay_start_def relay_result_def buffer_size_def count_bytes_def usage_call_def answer_of_def as_u64_def
  default_cost_per_byte_def sample_debits delivered_total_def

lemma sample_fleet_static:
  "\<exists>ss users'. fleet_run static_report_usage sample_conns sample_turns
       (relays_start sample_conns, [sample_user]) = (ss, users')
     \<and> account_total delivered_total 1 sample_conns ss = 3
     \<and> relay_result (ss ! 1) = Some (Inl BandwidthExceeded)"
  by (simp add: fleet_run_defs sample_user_def static_report_usage_def user_index_def in_i64_def Let_def)


end
