(* ===== verification/Bootstrap.thy ===== *)
theory Bootstrap
  imports Display Schema Metered_Relay
begin

text \<open>
  \<open>src/main.rs\<close>: the choice of the account backend, the server's first upstream set and its
  refresh task, and the metrics endpoint.  What PostgreSQL, the address parser and the
  Prometheus recorder answer is in \<open>startup_env\<close>.
\<close>

section \<open>The account backend\<close>

datatype 'net backend = PostgresBackend | StaticBackend "'net static_user list"

record ('ip, 'net) startup_env =
  se_net_ops :: "('ip, 'net) net_ops"
  se_connect_error :: "string option"
  se_schema_error :: "string option"
  se_stats_query_error :: "string option"
  se_stats_row_error :: string
  se_user_query_error :: "string option"
  se_database :: pg_db
  se_initial_upstreams :: "string + proxy_config list"
  se_parse_listen :: "string \<Rightarrow> string + string"
  se_metrics_installed :: bool
  se_now :: nat

text \<open>\<open>PgConfig\<close>'s parameters: host, port, user, database and password.\<close>

definition pg_params :: "database_config \<Rightarrow> string \<times> u16 \<times> string \<times> string \<times> string" where
  "pg_params db =
     (db_host db, db_port db, case db_user db of None \<Rightarrow> [] | Some u \<Rightarrow> u, db_name db,
      case db_password db of None \<Rightarrow> [] | Some p \<Rightarrow> p)"

datatype startup_fault = Startup_Error string | Startup_Panic string

definition no_accounts_message :: string where
  "no_accounts_message =
     ''auth is enabled but no [database] section or [[user]] blocks are configured''"

text \<open>The backend, whether there is a database client, the counters, and what went to stderr.\<close>

definition select_backend ::
  "('ip, 'net) startup_env \<Rightarrow> config \<Rightarrow> global_stats \<Rightarrow>
   startup_fault + ('net backend \<times> bool \<times> global_stats \<times> string list)"
where
  "select_backend env cfg stats =
     (case cf_database cfg of
        Some db \<Rightarrow>
          (case se_connect_error env of
             Some e \<Rightarrow> Inl (Startup_Error e)
           | None \<Rightarrow>
               (case se_schema_error env of
                  Some e \<Rightarrow> Inl (Startup_Error e)
                | None \<Rightarrow>
                    (case load_from_db (se_stats_query_error env) (se_stats_row_error env)
                            (se_user_query_error env) (se_database env) stats of
                       (Inl (Db_Error e), stats') \<Rightarrow>
                         Inr (PostgresBackend, True, stats', [''Failed to load stats from database: '' @ e])
                     | (Inl (Db_Panic m), stats') \<Rightarrow> Inl (Startup_Panic m)
                     | (Inr (), stats') \<Rightarrow> Inr (PostgresBackend, True, stats', []))))
      | None \<Rightarrow>
          if auth_enabled (cf_router cfg) \<and> cf_user cfg = []
          then Inl (Startup_Error no_accounts_message)
          else (case static_new (se_net_ops env) (cf_user cfg) of
                  Inl e \<Rightarrow> Inl (Startup_Error (auth_error_display e))
                | Inr users \<Rightarrow> Inr (StaticBackend users, False, stats, [])))"

section \<open>The upstream set over time\<close>

text \<open>One turn of the refresh task, on what the query returned.\<close>

definition refresh_step ::
  "proxy_config list \<Rightarrow> string + proxy_config list \<Rightarrow> server \<Rightarrow> server \<times> string list"
where
  "refresh_step static_upstreams loaded s =
     (case loaded of
        Inr dynamic \<Rightarrow> (replace_upstreams s static_upstreams dynamic, [])
      | Inl e \<Rightarrow> (s, [''upstream refresh failed: '' @ e]))"

fun refresh_task ::
  "proxy_config list \<Rightarrow> (string + proxy_config list) list \<Rightarrow> server \<Rightarrow> server \<times> string list"
where
  "refresh_task static_upstreams [] s = (s, [])"
| "refresh_task static_upstreams (l # ls) s =
     (let (s', err) = refresh_step static_upstreams l s;
          (s'', errs) = refresh_task static_upstreams ls s'
      in (s'', err @ errs))"

definition refresh_interval :: "router_config \<Rightarrow> nat" where
  "refresh_interval cfg = (case rc_upstream_refresh_secs cfg of None \<Rightarrow> 30 | Some n \<Rightarrow> n)"

text \<open>
  The spawned task: \<open>tokio::time::interval\<close> panics on an empty period, which ends the task
  before its first turn and nothing else; the first tick is immediate and loads nothing.
\<close>

definition refresh_background ::
  "router_config \<Rightarrow> proxy_config list \<Rightarrow> (string + proxy_config list) list \<Rightarrow> server \<Rightarrow>
   string option \<times> server \<times> string list"
where
  "refresh_background cfg static_upstreams ls s =
     (if refresh_interval cfg = 0 then (Some ''`period` must be non-zero.'', s, [])
      else let (s', errs) = refresh_task static_upstreams ls s in (None, s', errs))"

text \<open>The set the server starts with: a failed first load leaves the configured proxies.\<close>

definition initial_server :: "('ip, 'net) startup_env \<Rightarrow> config \<Rightarrow> bool \<Rightarrow> server" where
  "initial_server env cfg db_client =
     (let s = server_new (cf_proxy cfg) (cf_chain cfg) (cf_router cfg)
      in if db_client then
           (case se_initial_upstreams env of
              Inr dynamic \<Rightarrow> replace_upstreams s (cf_proxy cfg) dynamic
            | Inl e \<Rightarrow> s)
         else s)"

section \<open>Startup\<close>

record 'net running =
  rn_backend :: "'net backend"
  rn_db_client :: bool
  rn_stats :: global_stats
  rn_server :: server
  rn_display :: display
  rn_refresh :: "nat option"
  rn_metrics :: "string option"
  rn_listen :: string
  rn_stderr :: "string list"

definition metrics_address :: "('ip, 'net) startup_env \<Rightarrow> router_config \<Rightarrow> string option" where
  "metrics_address env cfg = (if se_metrics_installed env then rc_metrics_listen cfg else None)"

definition startup ::
  "('ip, 'net) startup_env \<Rightarrow> config_error + config \<Rightarrow> startup_fault + 'net running"
where
  "startup env loaded =
     (case loaded of
        Inl (Config_Io e) \<Rightarrow> Inl (Startup_Error (''failed to read config file: '' @ e))
      | Inl (Config_Parse e) \<Rightarrow> Inl (Startup_Error (''failed to parse config: '' @ e))
      | Inr cfg \<Rightarrow>
          (case select_backend env cfg (global_stats_new (se_now env)) of
             Inl f \<Rightarrow> Inl f
           | Inr (chosen, db_client, stats, errs) \<Rightarrow>
               (case se_parse_listen env (rc_listen (cf_router cfg)) of
                  Inl e \<Rightarrow> Inl (Startup_Error e)
                | Inr addr \<Rightarrow> Inr
                    \<lparr>rn_backend = chosen, rn_db_client = db_client, rn_stats = stats,
                     rn_server = initial_server env cfg db_client,
                     rn_display = display_new db_client,
                     rn_refresh = (if db_client then Some (refresh_interval (cf_router cfg)) else None),
                     rn_metrics = metrics_address env (cf_router cfg),
                     rn_listen = addr, rn_stderr = errs\<rparr>)))"

section \<open>The metrics endpoint\<close>

definition metrics_response :: "string \<Rightarrow> byte list" where
  "metrics_response body =
     as_bytes (''HTTP/1.1 200 OK'' @ CRLF @ ''Content-Type: text/plain; version=0.0.4'' @ CRLF
       @ ''Content-Length: '' @ dec (length body) @ CRLF @ ''Connection: close'' @ CRLF @ CRLF @ body)"

text \<open>One connection to it: a read and a write whose failures are ignored, and a flush.\<close>

definition serve_metrics_connection :: "string \<Rightarrow> unit io" where
  "serve_metrics_connection body =
     await (perform (ReadSome Client 1024)) (\<lambda>_.
     await (perform (WriteAll Client (metrics_response body))) (\<lambda>_.
     await (perform (Flush Client)) (\<lambda>_. ret ())))"

text \<open>
  The accept loop: each connection is answered with what the recorder rendered when it was
  accepted, by a task of its own; a failed \<open>accept\<close> ends the endpoint.
\<close>

fun metrics_loop :: "(string + string) list \<Rightarrow> string option \<times> unit io list" where
  "metrics_loop [] = (None, [])"
| "metrics_loop (Inl e # _) = (Some e, [])"
| "metrics_loop (Inr body # rest) =
     (let (res, tasks) = metrics_loop rest in (res, serve_metrics_connection body # tasks))"

definition serve_metrics :: "string option \<Rightarrow> (string + string) list \<Rightarrow> string option \<times> unit io list" where
  "serve_metrics bind_error accepts =
     (case bind_error of Some e \<Rightarrow> (Some e, []) | None \<Rightarrow> metrics_loop accepts)"

section \<open>Properties\<close>

definition last_loaded :: "(string + proxy_config list) list \<Rightarrow> proxy_config list option" where
  "last_loaded ls = fold (\<lambda>l acc. case l of Inr ps \<Rightarrow> Some ps | Inl _ \<Rightarrow> acc) ls None"

lemma last_loaded_fold:
  "fold (\<lambda>l acc. case l of Inr ps \<Rightarrow> Some ps | Inl _ \<Rightarrow> acc) ls acc =
     (case last_loaded ls of None \<Rightarrow> acc | Some ps \<Rightarrow> Some ps)"
proof (induction ls arbitrary: acc)
  case (Cons l ls)
  show ?case
    unfolding last_loaded_def by (cases l) (simp_all add: Cons.IH split: option.split)
qed (simp add: last_loaded_def)

lemma last_loaded_Cons:
  "last_loaded (l # ls) = (case last_loaded ls of
      None \<Rightarrow> (case l of Inr ps \<Rightarrow> Some ps | Inl _ \<Rightarrow> None) | Some ps \<Rightarrow> Some ps)"
  using last_loaded_fold [of ls "case l of Inr ps \<Rightarrow> Some ps | Inl _ \<Rightarrow> None"]
  by (simp add: last_loaded_def [of "l # ls"])

lemma refresh_task_set:
  "fst (refresh_task static_upstreams ls s) =
     (case last_loaded ls of None \<Rightarrow> s | Some dynamic \<Rightarrow> s\<lparr>sv_proxies := static_upstreams @ dynamic\<rparr>)"
proof (induction ls arbitrary: s)
  case (Cons l ls)
  show ?case
    by (cases l)
      (simp_all add: Cons.IH last_loaded_Cons refresh_step_def replace_upstreams_def Let_def
        case_prod_unfold split: option.split)
qed (simp add: last_loaded_def)

text \<open>
  The queries of a history: what each answered, the database's time and its table.  The last
  one that was answered decides.
\<close>

type_synonym upstream_query = "string option \<times> int \<times> upstream_row list"

definition answers_of :: "upstream_query list \<Rightarrow> (string + proxy_config list) list" where
  "answers_of qs = map (\<lambda>(e, now, table). load_dynamic_upstreams e now table) qs"

fun last_answered :: "upstream_query list \<Rightarrow> (int \<times> upstream_row list) option" where
  "last_answered [] = None"
| "last_answered ((e, x) # qs) =
     (case last_answered qs of None \<Rightarrow> if e = None then Some x else None | Some y \<Rightarrow> Some y)"

lemma last_loaded_answers:
  "last_loaded (answers_of qs) =
     map_option (\<lambda>(now, table). map row_to_proxy (filter (upstream_select now) table)) (last_answered qs)"
proof (induction qs rule: last_answered.induct)
  case 1
  show ?case by (simp add: answers_of_def last_loaded_def)
next
  case (2 e x qs)
  then show ?case
    by (cases x) (simp add: answers_of_def last_loaded_Cons load_dynamic_upstreams_def split: option.split)
qed

text \<open>
  C30. Through any history of refreshes the live set is the configured proxies followed by
  exactly the enabled, unexpired rows of the last query that was answered; a failed query keeps
  the set, and chains and configuration never change.  With a refresh interval of zero the task
  dies before its first query and the set stays what it was at the start.
\<close>

theorem refresh_task_upstreams:
  "fst (snd (refresh_background cfg static_upstreams (answers_of qs) s)) =
     (if rc_upstream_refresh_secs cfg = Some 0 then s
      else case last_answered qs of
             None \<Rightarrow> s
           | Some (now, table) \<Rightarrow>
               s\<lparr>sv_proxies := static_upstreams @ map row_to_proxy (filter (upstream_select now) table)\<rparr>)"
  using refresh_task_set [of static_upstreams "answers_of qs" s]
  by (auto simp: refresh_background_def refresh_interval_def last_loaded_answers case_prod_unfold Let_def
      split: option.split)

lemma select_backend_Inr:
  "select_backend env cfg stats = Inr (chosen, client, stats', errs) \<Longrightarrow>
     (case cf_database cfg of
        None \<Rightarrow> (auth_enabled (cf_router cfg) \<longrightarrow> cf_user cfg \<noteq> []) \<and> \<not> client
          \<and> (\<exists>users. static_new (se_net_ops env) (cf_user cfg) = Inr users \<and> chosen = StaticBackend users)
      | Some db \<Rightarrow> chosen = PostgresBackend \<and> client
          \<and> se_connect_error env = None \<and> se_schema_error env = None)"
proof (cases "cf_database cfg")
  case None
  assume "select_backend env cfg stats = Inr (chosen, client, stats', errs)"
  with None show ?thesis by (auto simp: select_backend_def split: sum.splits if_splits)
next
  case (Some db)
  assume sel: "select_backend env cfg stats = Inr (chosen, client, stats', errs)"
  obtain res s where load: "load_from_db (se_stats_query_error env) (se_stats_row_error env)
      (se_user_query_error env) (se_database env) stats = (res, s)"
    by (rule prod.exhaust)
  from sel Some show ?thesis
    by (simp add: select_backend_def load split: option.splits sum.splits db_fault.splits unit.splits)
qed

definition sample_env :: "(string, string) startup_env" where
  "sample_env = \<lparr>se_net_ops = \<lparr>ipnet_from_str = (\<lambda>s. Some s), ip_from_str = (\<lambda>s. None),
       ipnet_from_ip = (\<lambda>s. s), ipnet_contains = (=)\<rparr>,
     se_connect_error = None, se_schema_error = None, se_stats_query_error = None,
     se_stats_row_error = [], se_user_query_error = None,
     se_database = \<lparr>t_global = [], t_accounts = [], t_account_ips = [], t_user_stats = []\<rparr>,
     se_initial_upstreams = Inr [], se_parse_listen = Inr, se_metrics_installed = False, se_now = 0\<rparr>"

definition sample_startup :: config where
  "sample_startup = \<lparr>cf_router = sample_config, cf_proxy = [sample_proxy ''a'' None], cf_chain = None,
     cf_database = None,
     cf_user = [\<lparr>uc_username = ''bob'', uc_password = ''pw'', uc_bandwidth_limit = Some 100,
       uc_allowed_ips = [''10.0.0.0/8''], uc_default_selection = None\<rparr>]\<rparr>"

text \<open>
  C29. Startup fails closed: with authentication on and neither a database nor a user
  configured the program does not start; a start without a database serves the accounts of
  the configuration file and runs no refresh task, and a start with one has connected,
  brought the schema up to date and refreshes its upstreams.
\<close>

theorem startup_fails_closed:
  assumes "startup env (Inr cfg) = Inr rn"
  shows "case cf_database cfg of
        None \<Rightarrow> (auth_enabled (cf_router cfg) \<longrightarrow> cf_user cfg \<noteq> []) \<and> rn_refresh rn = None
          \<and> (\<exists>users. static_new (se_net_ops env) (cf_user cfg) = Inr users
               \<and> rn_backend rn = StaticBackend users)
      | Some db \<Rightarrow> rn_backend rn = PostgresBackend
          \<and> se_connect_error env = None \<and> se_schema_error env = None
          \<and> rn_refresh rn = Some (refresh_interval (cf_router cfg))"
  using assms
  by (auto simp: startup_def dest!: select_backend_Inr split: option.splits sum.splits prod.splits)

theorem startup_fails_closed_witness:
  "\<exists>rn users. startup sample_env (Inr sample_startup) = Inr rn \<and> rn_backend rn = StaticBackend users
     \<and> static_new (se_net_ops sample_env) (cf_user sample_startup) = Inr users \<and> rn_refresh rn = None"
proof -
  obtain rn where rn: "startup sample_env (Inr sample_startup) = Inr rn"
    by (simp add: startup_def select_backend_def sample_startup_def sample_env_def sample_config_def
        static_new_def static_user_of_def parse_net_def)
  moreover have "cf_database sample_startup = None" by (simp add: sample_startup_def)
  ultimately show ?thesis using startup_fails_closed [OF rn] by auto
qed

end
