(* ===== verification/Client_Replies.thy ===== *)
theory Client_Replies
  imports Admission
begin

text \<open>
  What a client is told: a reply that says its tunnel is open is written only after an
  upstream proxy granted the request; for every inbound protocol, single-hop and chained.
\<close>

section \<open>What the client is told\<close>

text \<open>The replies that tell a client its tunnel is open.\<close>

definition open_reply :: "byte list \<Rightarrow> bool" where
  "open_reply bs \<longleftrightarrow> bs = socks5_success
     \<or> (if length bs = 8 then bs ! 1 = 0x5A else tunnel_up bs)"

fun told_open :: "event \<Rightarrow> bool" where
  "told_open (Did (WriteAll Client bs) _) \<longleftrightarrow> open_reply bs"
| "told_open _ \<longleftrightarrow> False"

definition some_grant :: "event \<Rightarrow> bool" where
  "some_grant e \<longleftrightarrow> (\<exists>kind. grants kind e)"

lemma told_open_other [simp]:
  "told_open (Did opn r) \<longleftrightarrow> (\<exists>bs. opn = WriteAll Client bs \<and> open_reply bs)"
  by (cases "Did opn r" rule: told_open.cases) auto

lemma negotiation_replies [simp]:
  "\<not> open_reply [0x05, 0x00]" "\<not> open_reply [0x05, 0x02]" "\<not> open_reply [0x05, 0xFF]"
  "\<not> open_reply [0x01, 0x00]"
  by code_simp+

lemma upstream_event_not_told: "upstream_event e \<Longrightarrow> \<not> told_open e"
  by (cases e rule: upstream_event.cases) auto

lemma auth_event_not_told: "auth_event e \<Longrightarrow> \<not> told_open e"
  by (cases e rule: auth_event.cases) auto

lemma guards_seq:
  "emits (\<lambda>e. \<not> bad e) m \<Longrightarrow> (\<And>x. guards bad ok (k x)) \<Longrightarrow> guards bad ok (await m k)"
  by (rule guards_await [OF guards_emits])

lemma guards_seq_then:
  "emits (\<lambda>e. \<not> bad e) m \<Longrightarrow> guards bad ok k \<Longrightarrow> guards bad ok (andthen m k)"
  unfolding andthen_def by (rule guards_seq)

lemma guards_then: "guards bad ok m \<Longrightarrow> guards bad ok k \<Longrightarrow> guards bad ok (andthen m k)"
  unfolding andthen_def by (rule guards_await)

lemma guards_gate_then:
  "emits (\<lambda>e. \<not> bad e) m \<Longrightarrow> returns m (\<lambda>x es. \<exists>e \<in> set es. ok e) \<Longrightarrow> emits (\<lambda>_. True) k \<Longrightarrow>
    guards bad ok (andthen m k)"
  unfolding andthen_def by (rule guards_gate)

lemma guards_prod: "(\<And>x y. guards bad ok (f x y)) \<Longrightarrow> guards bad ok (case v of (x, y) \<Rightarrow> f x y)"
  by (cases v) simp

lemma guards_list:
  "guards bad ok n \<Longrightarrow> (\<And>x xs. guards bad ok (c x xs)) \<Longrightarrow>
    guards bad ok (case v of [] \<Rightarrow> n | x # xs \<Rightarrow> c x xs)"
  by (cases v) simp_all

lemma guards_protocol:
  "guards bad ok a \<Longrightarrow> guards bad ok b \<Longrightarrow> guards bad ok c \<Longrightarrow> guards bad ok d \<Longrightarrow>
    guards bad ok (case v of Http \<Rightarrow> a | Https \<Rightarrow> b | Socks4 \<Rightarrow> c | Socks5 \<Rightarrow> d)"
  by (cases v) simp_all

lemma guards_if:
  "(b \<Longrightarrow> guards bad ok m) \<Longrightarrow> (\<not> b \<Longrightarrow> guards bad ok n) \<Longrightarrow> guards bad ok (if b then m else n)"
  by simp

lemma guards_fault: "guards bad ok (fault_with f)"
  by (rule guards_emits) (rule emits_fault)

lemma guards_read:
  assumes "returns m (\<lambda>r es. P r \<and> f r \<in> set es)" and "emits (\<lambda>e. \<not> bad e) m"
    and "\<And>r. ok (f r) \<Longrightarrow> emits (\<lambda>_. True) (k r)"
    and "\<And>r. P r \<Longrightarrow> \<not> ok (f r) \<Longrightarrow> guards bad ok (k r)"
  shows "guards bad ok (await m k)"
  unfolding guards_leaves
proof (rule leaves_gate [OF assms(2,1)])
  fix r es
  assume es: "P r \<and> f r \<in> set es" "\<forall>e \<in> set es. \<not> bad e"
  show "leaves (\<lambda>fs. guarded bad ok (es @ fs)) (k r)"
  proof (cases "ok (f r)")
    case True
    with es show ?thesis by (intro leaves_emits [OF assms(3) [OF True]]) (auto intro: guarded_after)
  next
    case False
    with es assms(4) [of r] show ?thesis
      unfolding guards_leaves by (auto intro: leaves_mono guarded_append guarded_none)
  qed
qed (rule guarded_none)

lemma guards_read_8:
  assumes "\<And>r. emits (\<lambda>_. True) (k r)" and "\<And>r. length r = 8 \<Longrightarrow> r ! 1 \<noteq> 0x5A \<Longrightarrow> guards told_open some_grant (k r)"
  shows "guards told_open some_grant (await (read_exact Upstream 8) k)"
proof (rule guards_read [where P = "\<lambda>r. length r = 8" and f = "\<lambda>r. Did (ReadExact Upstream 8) (Some (R_Bytes r))"])
  show "returns (read_exact Upstream 8) (\<lambda>r es. length r = 8 \<and> Did (ReadExact Upstream 8) (Some (R_Bytes r)) \<in> set es)"
    by (rule returns_mono [OF returns_prims(7)]) simp
  show "emits (\<lambda>e. \<not> told_open e) (read_exact Upstream 8)" by (intro wp_rules) simp
  fix r :: "byte list"
  assume len: "length r = 8" and no: "\<not> some_grant (Did (ReadExact Upstream 8) (Some (R_Bytes r)))"
  have "r ! 1 \<noteq> 0x5A"
  proof
    assume "r ! 1 = 0x5A"
    then have "grants Socks4 (Did (ReadExact Upstream 8) (Some (R_Bytes r)))" by (simp add: grants_def)
    with no show False unfolding some_grant_def by blast
  qed
  with len show "guards told_open some_grant (k r)" by (rule assms(2))
qed (rule assms(1))

lemma guards_read_tunnel:
  assumes "\<And>r. emits (\<lambda>_. True) (k r)" and "\<And>r. \<not> tunnel_up r \<Longrightarrow> guards told_open some_grant (k r)"
  shows "guards told_open some_grant (await (read_some Upstream 1024) k)"
proof (rule guards_read [where P = "\<lambda>_. True" and f = "\<lambda>r. Did (ReadSome Upstream 1024) (Some (R_Bytes r))"])
  show "returns (read_some Upstream 1024) (\<lambda>r es. True \<and> Did (ReadSome Upstream 1024) (Some (R_Bytes r)) \<in> set es)"
    by (rule returns_mono [OF returns_prims(6)]) simp
  show "emits (\<lambda>e. \<not> told_open e) (read_some Upstream 1024)" by (intro wp_rules) simp
  fix r :: "byte list"
  assume no: "\<not> some_grant (Did (ReadSome Upstream 1024) (Some (R_Bytes r)))"
  have "\<not> tunnel_up r"
  proof
    assume "tunnel_up r"
    then have "grants Http (Did (ReadSome Upstream 1024) (Some (R_Bytes r)))" by (simp add: grants_def)
    with no show False unfolding some_grant_def by blast
  qed
  then show "guards told_open some_grant (k r)" by (rule assms(2))
qed (rule assms(1))

text \<open>Granted hops contain a grant.\<close>

lemma granted_some: "granted kind b p h q es \<Longrightarrow> \<exists>e \<in> set es. some_grant e"
  by (auto simp: granted_def answered_def some_grant_def)

lemma all_granted_some:
  "all_granted (\<lambda>q. granted (px_type q) b q) ts es \<Longrightarrow> ts \<noteq> [] \<Longrightarrow> \<exists>e \<in> set es. some_grant e"
  by (induction rule: all_granted.induct) (auto dest: granted_some)

lemma chain_returns_grant: "returns (connect_chain b hops h q) (\<lambda>_ es. \<exists>e \<in> set es. some_grant e)"
proof (rule returnsI)
  fix w x w'
  assume "connect_chain b hops h q w = (Inr x, w')"
  then have "connect_chain b hops h q w = (Inr (), w')" by simp
  then show "\<exists>es. w_trace w' = w_trace w @ es \<and> (\<exists>e \<in> set es. some_grant e)"
  proof (rule connect_chain_Inr)
    fix p rest ts es
    assume "hops = p # rest" "hop_targets hops h q = Inr ts"
      and tr: "w_trace w' = w_trace w @ [Did (Connect (get_upstream_addr p)) (Some R_Done), Did SetNodelay (Some R_Done)] @ es"
      and "all_granted (\<lambda>p. granted (px_type p) b p) ts es"
    then have "\<exists>e \<in> set es. some_grant e"
      using hop_targets_length [of hops h q ts] by (intro all_granted_some) auto
    with tr show ?thesis by auto
  qed
qed

lemma chain_not_told: "emits (\<lambda>e. \<not> told_open e) (connect_chain b hops h q)"
  by (rule emits_mono [OF connect_chain_events]) (auto simp: chain_event_def dest: upstream_event_not_told)

lemma guards_chain:
  "emits (\<lambda>_. True) k \<Longrightarrow> guards told_open some_grant (andthen (connect_chain b hops h q) k)"
  by (rule guards_gate_then [OF chain_not_told chain_returns_grant])

lemma relay_event_not_told: "relay_event e \<Longrightarrow> \<not> told_open e"
  by (cases e rule: relay_event.cases) auto

lemma relay_not_told: "emits (\<lambda>e. \<not> told_open e) (proxy_data peer u c)"
  unfolding proxy_data_def
  by (intro wp_rules emits_mono [OF select_loops_events relay_event_not_told]) simp_all

lemma authenticate_not_told: "emits (\<lambda>e. \<not> told_open e) (authenticate_user cx request)"
  by (rule emits_mono [OF authenticate_user_emits auth_event_not_told])

lemma chain_handlers_tell:
  "guards told_open some_grant (handle_socks4_chain cx request hops)"
  "guards told_open some_grant (handle_https_chain cx request hops)"
  "guards told_open some_grant (handle_http_chain cx request hops)"
  unfolding handle_socks4_chain_def handle_https_chain_def handle_http_chain_def Let_def
  by (intro guards_seq_then guards_seq guards_prod guards_chain authenticate_not_told wp_rules
      any_event; simp)+

text \<open>The single-hop handshakes of the three inbound handlers.\<close>

lemma socks5_handshake_grant:
  "returns (http_socks5_connect p h q) (\<lambda>_ es. \<exists>e \<in> set es. some_grant e)"
  "returns (https_socks5_connect p h q) (\<lambda>_ es. \<exists>e \<in> set es. some_grant e)"
  by (rule returns_mono, rule http_socks5.established_returns https_socks5.established_returns,
      erule granted_some)+

lemma socks5_handshake_not_told:
  "emits (\<lambda>e. \<not> told_open e) (http_socks5_connect p h q)"
  "emits (\<lambda>e. \<not> told_open e) (https_socks5_connect p h q)"
  by (rule emits_mono, rule http_socks5_upstream https_socks5_upstream, erule upstream_event_not_told)+

lemmas tell_rules = guards_seq guards_seq_then guards_prod guards_if guards_fault guards_read_8
  guards_read_tunnel guards_gate_then [OF socks5_handshake_not_told(1) socks5_handshake_grant(1)]
  guards_gate_then [OF socks5_handshake_not_told(2) socks5_handshake_grant(2)]

lemma branches_tell:
  "guards told_open some_grant (http_via_http b request p)"
  "guards told_open some_grant (http_via_socks4 request)"
  "guards told_open some_grant (http_via_socks5 request p)"
  "guards told_open some_grant (https_via_http b l p)"
  "guards told_open some_grant (https_via_socks4 l)"
  "guards told_open some_grant (https_via_socks5 l p)"
  "guards told_open some_grant (socks4_via_http b h q p)"
  "guards told_open some_grant (socks4_via_socks5 h q p)"
  unfolding http_via_http_def http_via_socks4_def http_via_socks5_def https_via_http_def
    https_via_socks4_def https_via_socks5_def socks4_via_http_def
    socks4_via_socks5_def socks4_socks5_same Let_def
  by (intro guards_emits wp_rules; simp)
    (intro tell_rules wp_rules; simp add: tunnel_up_def)+

text \<open>The SOCKS4 branch relays the upstream's own answer.\<close>

lemma socks4_relay_tells: "guards told_open some_grant (socks4_via_socks4 request)"
  unfolding socks4_via_socks4_def
proof (intro guards_seq_then guards_read_8)
  fix r :: "byte list"
  assume len: "length r = 8" and no: "r ! 1 \<noteq> 0x5A"
  have "r \<noteq> socks5_success" using len by (auto simp: socks5_success_def)
  with len no show "emits (\<lambda>e. \<not> told_open e) (write_all Client r)"
    by (intro wp_rules) (simp add: open_reply_def)
qed (intro guards_if guards_fault guards_emits wp_rules; simp)+

lemma handlers_tell:
  assumes "emits (\<lambda>e. \<not> told_open e) relay"
  shows "guards told_open some_grant (http_handle b a request p relay)"
    and "guards told_open some_grant (https_handle b a request p relay)"
    and "guards told_open some_grant (socks4_handle b a request p relay)"
  unfolding http_handle_def https_handle_def socks4_handle_def socks4_parse_def byte_at_def
  by (intro guards_list guards_fault guards_seq guards_seq_then guards_prod guards_then guards_protocol
      branches_tell socks4_relay_tells guards_emits [OF assms] wp_rules; simp)+

lemma single_hop_tells:
  assumes "\<And>b a r p relay. emits (\<lambda>e. \<not> told_open e) relay \<Longrightarrow>
      guards told_open some_grant (handler b a r p relay)"
  shows "guards told_open some_grant (single_hop cx name handler request p c)"
  unfolding single_hop_def
  by (intro guards_seq authenticate_not_told assms wp_rules relay_not_told) simp

lemma handle_socks5_tells: "guards told_open some_grant (handle_socks5 cx request)"
proof -
  have "emits (\<lambda>e. \<not> told_open e) (socks5_negotiate cx request)"
    unfolding socks5_negotiate_def socks5_methods_def socks5_user_auth_def socks5_no_auth_def
      login_def Let_def by (intro wp_rules) simp_all
  moreover have "emits (\<lambda>e. \<not> told_open e) (stored_selection cx sel)" for sel
    by (rule emits_mono [OF stored_selection_emits auth_event_not_told])
  moreover have "emits (\<lambda>e. \<not> told_open e) socks5_target"
    unfolding socks5_target_def Let_def by (intro wp_rules) simp_all
  ultimately have "guards told_open some_grant (socks5_open cx sel)" for sel
    unfolding socks5_open_def
    by (intro guards_seq guards_seq_then guards_prod guards_chain wp_rules) simp_all
  with \<open>emits (\<lambda>e. \<not> told_open e) (socks5_negotiate cx request)\<close> show ?thesis
    unfolding handle_socks5_def
    by (intro guards_seq guards_prod guards_await [OF _ guards_emits [OF relay_not_told]])
qed

lemma dispatch_tells: "guards told_open some_grant (dispatch cx proto request hops p)"
  by (cases proto)
    (simp_all add: dispatch_def handle_socks5_tells chain_handlers_tell single_hop_tells handlers_tell)

lemma connection_body_tells: "guards told_open some_grant (connection_body cx label)"
proof -
  have "emits (\<lambda>e. \<not> told_open e) (connection_prelude cx label)"
    unfolding connection_prelude_def log_path_def
    by (intro wp_rules emits_mono [OF selection_for_emits auth_event_not_told]) simp_all
  then show ?thesis unfolding connection_body_split by (intro guards_seq guards_prod dispatch_tells)
qed

end
