(* ===== verification/Connection.thy ===== *)
theory Connection
  imports Client_Replies
begin

text \<open>
  A whole connection, from its first bytes to the end of its task
  (\<open>ProxyServer::handle_connection\<close> and the task \<open>run\<close> spawns): one concrete
  session, evaluated, and the guarantees that hold of every session.
\<close>

section \<open>A concrete session\<close>

text \<open>A \<open>CONNECT\<close> without credentials from a known address, through a SOCKS5 upstream.\<close>

definition sample_connect :: "byte list" where
  "sample_connect = as_bytes (''CONNECT t:443 HTTP/1.1'' @ CRLF @ CRLF)"

definition sample_ctx :: conn_ctx where
  "sample_ctx = \<lparr>cx_base64 = nibble_codec, cx_config = sample_config, cx_server = sample_server,
     cx_rand = sample_rand, cx_server_socks5 = sample_server, cx_rand_socks5 = sample_rand,
     cx_peer = ''10.0.0.1''\<rparr>"

definition sample_account :: account where
  "sample_account = \<lparr>acc_id = 7, acc_limit = Some 100, acc_default_selection = None\<rparr>"

definition sample_session :: "resp \<Rightarrow> resp list" where
  "sample_session last_read = [R_Bytes sample_connect, R_Account None, R_Account (Some sample_account),
     R_Done, R_Done, R_Done, R_Bytes [5, 0], R_Done, R_Bytes [5, 0, 0, 1], R_Bytes [0, 0, 0, 0, 0, 0],
     R_Done, R_Relay ToUpstream last_read]"

lemma sample_lossy:
  "\<forall>c \<in> set s. ascii_char c \<Longrightarrow> from_utf8_lossy (as_bytes s) = s"
  by (rule from_utf8_lossy_as_bytes [OF valid_str_ascii])

lemma sample_connect_length: "length sample_connect \<le> 8192"
  by (simp add: sample_connect_def)

lemma sample_connect_lines: "lines (from_utf8_lossy sample_connect) = [''CONNECT t:443 HTTP/1.1'', []]"
proof -
  have "list_all ascii_char (''CONNECT t:443 HTTP/1.1'' @ CRLF @ CRLF)" by code_simp
  then have "from_utf8_lossy sample_connect = ''CONNECT t:443 HTTP/1.1'' @ CRLF @ CRLF"
    unfolding sample_connect_def by (intro sample_lossy) (simp only: list_all_iff)
  moreover have "lines (''CONNECT t:443 HTTP/1.1'' @ CRLF @ CRLF) = [''CONNECT t:443 HTTP/1.1'', []]" by code_simp
  ultimately show ?thesis by simp
qed

lemma sample_connect_protocol: "detect_protocol sample_connect = Inr Https"
proof -
  have "list_all ascii_char ''CONNECT t:443 HTTP/1''" by code_simp
  then have "from_utf8_lossy (as_bytes ''CONNECT t:443 HTTP/1'') = ''CONNECT t:443 HTTP/1''"
    by (intro sample_lossy) (simp only: list_all_iff)
  note lossy = this
  have tk: "take (min (length sample_connect) 20) sample_connect = as_bytes ''CONNECT t:443 HTTP/1''"
    by (simp add: sample_connect_def take_as_bytes)
  have first: "sample_connect = 67 # as_bytes (''ONNECT t:443 HTTP/1.1'' @ CRLF @ CRLF)"
    by (simp add: sample_connect_def as_bytes_def byte_of_char_def)
  have ls: "lines ''CONNECT t:443 HTTP/1'' = [''CONNECT t:443 HTTP/1'']" by code_simp
  show ?thesis
    unfolding detect_protocol_def tk lossy ls by (simp add: first starts_with_def)
qed

lemma sample_connect_target:
  "https_target ''CONNECT t:443 HTTP/1.1'' = Inr ''t:443''" "https_host_port ''t:443'' = (''t'', 443)"
proof -
  have "graphic ''CONNECT''" "graphic ''t:443''" by (simp_all add: graphic_def ascii_char_def)
  then have "split_whitespace ''CONNECT t:443 HTTP/1.1'' =
      ''CONNECT'' # ''t:443'' # split_whitespace ''HTTP/1.1''"
    using split_whitespace_word [of "''CONNECT''" "''t:443 HTTP/1.1''"]
      split_whitespace_word [of "''t:443''" "''HTTP/1.1''"] by simp
  then show "https_target ''CONNECT t:443 HTTP/1.1'' = Inr ''t:443''" by (simp add: https_target_def)
  have "split_char CHR '':'' ''t:443'' = [''t'', ''443'']" by (simp add: split_char_def)
  moreover have "parse_u16 ''443'' = Some 443"
    by (simp add: parse_u16_def is_digit_def digits_val_def)
  ultimately show "https_host_port ''t:443'' = (''t'', 443)" by (simp add: https_host_port_def Let_def)
qed

lemma sample_connect_no_auth:
  "\<not> lower_starts_with auth_header_prefix ''CONNECT t:443 HTTP/1.1''"
  "\<not> lower_starts_with auth_header_prefix []"
  by code_simp+

lemmas sample_connect_facts = sample_connect_length sample_connect_lines sample_connect_protocol
  sample_connect_target sample_connect_no_auth

lemma sample_resolve:
  "resolve_proxy_chain sample_rand sample_server selection_default = Inr [sample_proxy ''a'' (Some ''us'')]"
  by (simp add: resolve_proxy_chain_def resolve_chain_inner_def resolve_global_chain_def only_session_def
      selection_default_def sample_server_def server_new_def sample_config_def apply_template_def
      sample_proxy_def)

lemma sample_ctx_simps [simp]:
  "cx_base64 sample_ctx = nibble_codec" "cx_config sample_ctx = sample_config"
  "cx_server sample_ctx = sample_server" "cx_rand sample_ctx = sample_rand"
  "cx_peer sample_ctx = ''10.0.0.1''" "auth_enabled sample_config" "is_empty selection_default"
  by (simp_all add: sample_ctx_def auth_enabled_def sample_config_def is_empty_def selection_default_def)

lemma sample_selection_for:
  "selection_for sample_ctx Https sample_connect \<lparr>w_script = R_Account None # rs, w_trace = tr\<rparr> =
     (Inr selection_default, \<lparr>w_script = rs,
        w_trace = tr @ [Did (AuthenticateByIp ''10.0.0.1'') (Some (R_Account None))]\<rparr>)"
  by (simp add: selection_for_def token_selection_def request_username_def http_proxy_username_def
      sample_connect_facts stored_selection_def io_simps Let_def)

lemma sample_prelude:
  "connection_prelude sample_ctx None \<lparr>w_script = R_Bytes sample_connect # R_Account None # rs, w_trace = []\<rparr> =
     (Inr (Https, sample_connect, [sample_proxy ''a'' (Some ''us'')], sample_proxy ''a'' (Some ''us'')),
      \<lparr>w_script = rs, w_trace =
        [Did (TimedRead Client 8192) (Some (R_Bytes sample_connect)),
         Counter (''purroute_connections_total protocol='' @ protocol_as_str Https) 1,
         InfoLog (''Protocol '' @ protocol_debug Https @ '' detected from '' @ ''10.0.0.1''),
         Did (AuthenticateByIp ''10.0.0.1'') (Some (R_Account None)),
         Histogram ''purroute_chain_hops'' 1]\<rparr>)"
  unfolding connection_prelude_def
  by (simp add: sample_connect_facts io_simps andthen_def sample_selection_for sample_resolve log_path_def
     del: protocol_as_str.simps append.simps)

lemma sample_authenticate:
  "authenticate_user sample_ctx sample_connect \<lparr>w_script = R_Account (Some sample_account) # rs, w_trace = tr\<rparr> =
     (Inr (Some 7), \<lparr>w_script = rs,
        w_trace = tr @ [Did (AuthenticateByIp ''10.0.0.1'') (Some (R_Account (Some sample_account)))]\<rparr>)"
  by (simp add: authenticate_user_def sample_connect_facts authenticate_ip_def io_simps andthen_def
      require_account_def check_bandwidth_def sample_account_def)

definition sample_granted :: "event list" where
  "sample_granted =
     [Did (AuthenticateByIp ''10.0.0.1'') (Some (R_Account (Some sample_account))),
      Did (Connect (get_upstream_addr (sample_proxy ''a'' (Some ''us'')))) (Some R_Done),
      Did SetNodelay (Some R_Done),
      Did (WriteAll Upstream [5, 1, 0]) (Some R_Done), Did (ReadExact Upstream 2) (Some (R_Bytes [5, 0])),
      BytesOut 8,
      Did (WriteAll Upstream (socks5_request ''t'' 443)) (Some R_Done),
      Did (ReadExact Upstream 4) (Some (R_Bytes [5, 0, 0, 1])), BytesIn 4,
      Did (ReadExact Upstream 6) (Some (R_Bytes [0, 0, 0, 0, 0, 0])), BytesIn 6,
      Did (WriteAll Client (as_bytes established)) (Some R_Done),
      ConnResult True (''HTTPS Connection successful for '' @ ''10.0.0.1'')]"

lemma sample_dispatch:
  "dispatch sample_ctx Https sample_connect [sample_proxy ''a'' (Some ''us'')] (sample_proxy ''a'' (Some ''us''))
     \<lparr>w_script = [R_Account (Some sample_account), R_Done, R_Done, R_Done, R_Bytes [5, 0], R_Done,
        R_Bytes [5, 0, 0, 1], R_Bytes [0, 0, 0, 0, 0, 0], R_Done] @ rs, w_trace = tr\<rparr> =
   proxy_data ''10.0.0.1'' (Some 7) f64_one \<lparr>w_script = rs, w_trace = tr @ sample_granted\<rparr>"
proof -
  have req: "length (socks5_request ''t'' 443) = 8" by (simp add: socks5_request_def)
  have cost: "chain_cost [sample_proxy ''a'' (Some ''us'')] = f64_one"
    by (simp add: chain_cost_def sample_proxy_def)
  show ?thesis
    by (simp add: dispatch_def single_hop_def sample_authenticate https_handle_def sample_connect_facts
        io_simps andthen_def https_via_socks5_def https_socks5_connect_def https_socks5_skip_def
        socks5_greeting_def req cost sample_granted_def Let_def)
qed

section \<open>The outcomes of a connection's task\<close>

lemma connection_task_outcome:
  assumes "connection_task join_error cx label w = (r, w')"
  obtains (returned) "connection_body cx label w = (Inr (), w')" and "r = Inr ()"
  | (failed) f v m where "connection_body cx label w = (Inl f, v)" and "f \<noteq> Blocked" and "r = Inr ()"
      and "w_trace w' = w_trace v @ [ConnResult False m, DecActive]"
  | (blocked) "connection_body cx label w = (Inl Blocked, w')" and "r = Inl Blocked"
proof -
  obtain x v where run: "connection_body cx label w = (x, v)" by (cases "connection_body cx label w")
  show thesis
  proof (cases x)
    case (Inr u)
    with assms run show thesis
      by (intro returned) (simp_all add: connection_task_def handle_connection_def)
  next
    case (Inl f)
    show thesis
    proof (cases f)
      case Blocked
      with assms run Inl show thesis
        by (intro blocked) (simp_all add: connection_task_def handle_connection_def)
    next
      case (Fail e)
      with assms run Inl show thesis
        by (intro failed [of f v]) (auto simp: connection_task_def handle_connection_def andthen_def io_simps)
    next
      case (Panic m)
      with assms run Inl show thesis
        by (intro failed [of f v]) (auto simp: connection_task_def handle_connection_def andthen_def io_simps)
    qed
  qed
qed

lemma task_leaves:
  assumes body: "leaves T (connection_body cx label)"
    and tail: "\<And>es m. T es \<Longrightarrow> T (es @ [ConnResult False m, DecActive])"
  shows "leaves T (connection_task join_error cx label)"
  unfolding leaves_def
proof (intro allI impI)
  fix w r w'
  assume "connection_task join_error cx label w = (r, w')"
  then show "\<exists>es. w_trace w' = w_trace w @ es \<and> T es"
  proof (cases rule: connection_task_outcome)
    case (failed f v m)
    from body failed(1) obtain es where "w_trace v = w_trace w @ es" "T es"
      unfolding leaves_def by blast
    with tail failed(4) show ?thesis
      by (intro exI [of _ "es @ [ConnResult False m, DecActive]"]) simp
  qed (use body in \<open>unfold leaves_def, blast+\<close>)
qed

lemma task_guards:
  "guards bad ok (connection_body cx label) \<Longrightarrow> (\<And>m. \<not> bad (ConnResult False m)) \<Longrightarrow> \<not> bad DecActive \<Longrightarrow>
    guards bad ok (connection_task join_error cx label)"
  unfolding guards_leaves by (erule task_leaves) (simp_all add: guarded_append guarded_none)

lemma task_no_inc: "emits no_inc (connection_task join_error cx label)"
proof (rule emitsI)
  fix w r w'
  have body: "emits no_inc (connection_body cx label)"
    unfolding connection_body_split connection_prelude_def log_path_def
    by (intro wp_rules dispatch_no_inc emits_mono [OF selection_for_emits auth_event_no_inc]) simp_all
  assume "connection_task join_error cx label w = (r, w')"
  then show "\<exists>es. w_trace w' = w_trace w @ es \<and> (\<forall>e \<in> set es. no_inc e)"
  proof (cases rule: connection_task_outcome)
    case (failed f v m)
    from emitsD [OF body failed(1)] failed(4) show ?thesis by auto
  qed (auto dest: emitsD [OF body])
qed

definition sample_opened :: "event list" where
  "sample_opened =
     [Did (TimedRead Client 8192) (Some (R_Bytes sample_connect)),
      Counter (''purroute_connections_total protocol='' @ protocol_as_str Https) 1,
      InfoLog (''Protocol '' @ protocol_debug Https @ '' detected from '' @ ''10.0.0.1''),
      Did (AuthenticateByIp ''10.0.0.1'') (Some (R_Account None)),
      Histogram ''purroute_chain_hops'' 1] @ sample_granted"

lemma sample_body:
  "connection_body sample_ctx None (started (sample_session last_read)) =
     proxy_data ''10.0.0.1'' (Some 7) f64_one
       \<lparr>w_script = [R_Relay ToUpstream last_read], w_trace = sample_opened\<rparr>"
  using sample_dispatch [of "[R_Relay ToUpstream last_read]"]
  by (simp add: connection_body_split started_def sample_session_def sample_prelude await_def
      sample_opened_def)

text \<open>The client closes; or its socket fails.\<close>

lemma sample_closed:
  "\<exists>w'. connection_task join_error sample_ctx None (started (sample_session (R_Bytes []))) = (Inr (), w')
     \<and> w_trace w' = sample_opened @ [DecActive, InfoLog (''Connection closed for '' @ ''10.0.0.1'')]"
  by (simp add: connection_task_def handle_connection_def sample_body proxy_data_eof)

lemma sample_failed:
  "\<exists>w' m m'. connection_task join_error sample_ctx None (started (sample_session (R_IoErr ''reset''))) = (Inr (), w')
     \<and> w_trace w' = sample_opened @ [ConnResult False m, DecActive,
         InfoLog (''Connection closed for '' @ ''10.0.0.1''), ConnResult False m', DecActive]"
  by (simp add: connection_task_def handle_connection_def sample_body proxy_data_read_error
      andthen_def io_simps)

lemma sample_opened_decrements [simp]: "decrements sample_opened = 0"
  by (simp add: sample_opened_def sample_granted_def)

section \<open>Properties\<close>

text \<open>
  C6. A client is told that its tunnel is open (SOCKS5 success, SOCKS4 granted, HTTP
  \<open>200 Connection Established\<close>) only after an upstream proxy has granted a request, in
  every session and for every inbound protocol.
\<close>

theorem tunnel_reply_after_grant:
  assumes "connection_task join_error cx label w = (r, w')"
  shows "\<exists>es. w_trace w' = w_trace w @ es \<and> guarded told_open some_grant es"
proof -
  have "guards told_open some_grant (connection_task join_error cx label)"
    by (rule task_guards [OF connection_body_tells]) simp_all
  with assms show ?thesis unfolding guards_def by blast
qed

theorem tunnel_reply_after_grant_witness:
  "\<exists>w'. connection_task (\<lambda>m. m) sample_ctx None (started (sample_session (R_Bytes []))) = (Inr (), w')
     \<and> guarded told_open some_grant (w_trace w')
     \<and> Did (WriteAll Client (as_bytes established)) (Some R_Done) \<in> set (w_trace w')"
proof -
  from sample_closed [of "\<lambda>m. m"] obtain w'
    where run: "connection_task (\<lambda>m. m) sample_ctx None (started (sample_session (R_Bytes []))) = (Inr (), w')"
      and tr: "w_trace w' = sample_opened @ [DecActive, InfoLog (''Connection closed for '' @ ''10.0.0.1'')]"
    by blast
  from tunnel_reply_after_grant [OF run] have "guarded told_open some_grant (w_trace w')"
    by (auto simp: started_def)
  with run tr show ?thesis
    by (intro exI [of _ w']) (simp add: sample_opened_def sample_granted_def)
qed

lemma task_closes:
  assumes "connection_task join_error cx label w = (r, w')"
  shows "\<exists>es. w_trace w' = w_trace w @ es
     \<and> (r = Inl Blocked \<and> decrements es = 0
        \<or> r = Inr () \<and> (if fst (connection_body cx label w) = Inr () then decrements es = 1
                         else decrements es \<in> {1, 2}))"
  using assms
proof (cases rule: connection_task_outcome)
  case returned
  with connection_body_closes [of cx label] show ?thesis unfolding closes_def by fastforce
next
  case (failed f v m)
  with connection_body_closes [of cx label] obtain es
    where es: "w_trace v = w_trace w @ es" "decrements es \<le> 1"
    unfolding closes_def by (cases f) fastforce+
  with failed show ?thesis
    by (intro exI [of _ "es @ [ConnResult False m, DecActive]"]) auto
next
  case blocked
  with connection_body_closes [of cx label] show ?thesis unfolding closes_def by fastforce
qed





definition sample_login :: "byte list" where
  "sample_login = socks5_auth_request ''bob-country-us'' ''pw''"


end
