(* ===== verification/Interop.thy ===== *)
theory Interop
  imports Connection
begin

text \<open>
  purroute behind purroute: what the chain connector sends to an upstream proxy is what the
  server side of the same program detects, parses and authenticates, and the server's
  replies are what the connector accepts, for each of the three upstream protocols.
\<close>

text \<open>What a run has written to a socket, message by message.\<close>

definition written :: "sock \<Rightarrow> event list \<Rightarrow> byte list list" where
  "written s es = List.map_filter
     (\<lambda>e. case e of
            Did (WriteAll s' bs) (Some R_Done) \<Rightarrow> if s' = s then Some bs else None
          | _ \<Rightarrow> None) es"

lemma written_simps [simp]:
  "written s [] = []"
  "written s (Did (WriteAll s' bs) (Some R_Done) # es) = (if s' = s then [bs] else []) @ written s es"
  "written s (Did (ReadExact s' n) r # es) = written s es"
  "written s (Did (TimedReadExact s' n) r # es) = written s es"
  "written s (Did (ReadSome s' n) r # es) = written s es"
  "written s (Did (Authenticate u p) r # es) = written s es"
  "written s (BytesIn n # es) = written s es"
  "written s (BytesOut n # es) = written s es"
  by (simp_all add: written_def map_filter_simps)

section \<open>SOCKS4\<close>

lemma socks4_request_detect: "detect_protocol (socks4_request host port) = Inr Socks4"
  by (simp add: detect_protocol_def socks4_request_def)

lemma socks4_request_handle:
  assumes "valid_str host" and "CHR 0x00 \<notin> set host" and "host \<noteq> []"
  shows "fst (socks4_parse (socks4_request host port) w) = Inr (host, port)"
proof -
  obtain hi lo where hl: "to_be_bytes port = [hi, lo]" by (simp add: to_be_bytes_def)
  have port: "port_of hi lo = port"
    using from_be_bytes_to_be_bytes [of port] by (simp add: hl port_of_def)
  have tw: "takeWhile (\<lambda>b. b \<noteq> 0) (as_bytes host @ [0]) = as_bytes host"
    using assms(2) by (intro takeWhile_append_stop) (auto simp: as_bytes_def)
  have dot: "dotted [0, 0, 0, 1] = ''0.0.0.1''"
    by code_simp
  have "as_bytes host \<noteq> []" using assms(3) by (simp add: as_bytes_def)
  then show ?thesis
    using assms(1) port tw dot
    by (simp add: socks4_parse_def socks4_request_def hl byte_at_def io_simps andthen_def
        socks4_target_host_def Let_def from_utf8_lossy_as_bytes numeral_eq_Suc)
qed

text \<open>
  C19. purroute as its own SOCKS4 upstream: the request the connector sends is detected as
  SOCKS4, both handlers (single hop and chain) read the host and port it was built from, and
  the chain handler's reply is one the connector accepts.
\<close>

theorem socks4_hop_interoperates:
  assumes "valid_str host" and "CHR 0x00 \<notin> set host" and "host \<noteq> []"
  shows "detect_protocol (socks4_request host port) = Inr Socks4
     \<and> fst (socks4_parse (socks4_request host port) w) = Inr (host, port)
     \<and> parse_socks4_target (socks4_request host port) = Inr (host, port)
     \<and> (\<exists>w'. socks4_connect p host port (started [R_Done, R_Bytes socks4_chain_reply]) = (Inr (), w')
          \<and> written Upstream (w_trace w') = [socks4_request host port])"
  using assms
  by (simp add: socks4_request_detect socks4_request_handle socks4_request_parse socks4_connect_def
      started_def socks4_chain_reply_def io_simps andthen_def Let_def)

theorem socks4_hop_interoperates_witness:
  "fst (socks4_parse (socks4_request ''example.org'' 443) (started [])) = Inr (''example.org'', 443)"
proof -
  have "valid_str ''example.org''" by code_simp
  from socks4_hop_interoperates [OF this, of 443 "started []"] show ?thesis by simp
qed

section \<open>SOCKS5\<close>

lemma socks5_greeting_methods:
  assumes "px_username p = Some u" and "px_password p = Some q"
  shows "detect_protocol (socks5_greeting p) = Inr Socks5"
    and "socks5_methods (socks5_greeting p) w = (Inr [0, 2], w\<lparr>w_trace := w_trace w @ [BytesIn 4]\<rparr>)"
  using assms
  by (simp_all add: detect_protocol_def socks5_greeting_def socks5_methods_def as_u64_def io_simps andthen_def)

lemma socks5_server_negotiates:
  assumes "auth_enabled (cx_config cx)" and "px_username p = Some u" and "px_password p = Some q"
    and "length u < 256" and "length q < 256" and "valid_str u" and "valid_str q"
    and "parse_username u = Inr (base, sel)" and "admissible acc"
  shows "\<exists>w'. socks5_negotiate cx (socks5_greeting p)
        (started [R_Done, R_Bytes (socks5_auth_request u q), R_Account (Some acc), R_Done]) =
          (Inr (Some (acc_id acc), sel), w')
      \<and> written Client (w_trace w') = [[5, 2], [1, 0]]
      \<and> Did (Authenticate base q) (Some (R_Account (Some acc))) \<in> set (w_trace w')"
proof -
  have "length (socks5_auth_request u q) \<le> 513"
    using assms(4,5) by (simp add: socks5_auth_request_def)
  moreover have "check_bandwidth (acc_limit acc) base = ret ()"
    using assms(9) by (auto simp: check_bandwidth_def admissible_def split: option.splits)
  ultimately show ?thesis
    using assms(1,8)
    by (simp add: socks5_negotiate_def socks5_greeting_methods [OF assms(2,3)] socks5_user_auth_def
        started_def io_simps andthen_def socks5_credentials_request [OF assms(4-7)] login_def
        require_account_def)
qed

lemma socks5_connector_accepts:
  assumes "px_username p = Some u" and "px_password p = Some q"
  shows "\<exists>w'. socks5_connect p host port
        (started [R_Done, R_Bytes [5, 2], R_Done, R_Bytes [1, 0], R_Done,
           R_Bytes (take 4 socks5_success), R_Bytes (drop 4 socks5_success)]) = (Inr (), w')
      \<and> written Upstream (w_trace w') = [socks5_greeting p, socks5_auth_request u q, socks5_request host port]"
  using assms
  by (simp add: socks5_connect_def started_def io_simps andthen_def Let_def socks5_auth_def
      socks5_success_def socks5_skip_address_def)

text \<open>
  C20. purroute as its own SOCKS5 upstream, with credentials of up to 255 bytes: the server
  detects the connector's greeting, asks for a password, logs in under the base name with
  the password unchanged, keeps the selection of the name's tokens and reads the target the
  connector was given; the connector accepts every reply and writes exactly these messages.
\<close>

theorem socks5_hop_interoperates:
  assumes "auth_enabled (cx_config cx)" and "px_username p = Some u" and "px_password p = Some q"
    and "length u < 256" and "length q < 256" and "length host < 256"
    and "valid_str u" and "valid_str q" and "valid_str host"
    and "parse_username u = Inr (base, sel)" and "admissible acc"
  shows "detect_protocol (socks5_greeting p) = Inr Socks5
     \<and> (\<exists>w'. socks5_negotiate cx (socks5_greeting p)
            (started [R_Done, R_Bytes (socks5_auth_request u q), R_Account (Some acc), R_Done]) =
              (Inr (Some (acc_id acc), sel), w')
          \<and> written Client (w_trace w') = [[5, 2], [1, 0]]
          \<and> Did (Authenticate base q) (Some (R_Account (Some acc))) \<in> set (w_trace w'))
     \<and> fst (socks5_target (started (socks5_request_reads host port))) = Inr (host, port)
     \<and> (\<exists>w'. socks5_connect p host port
            (started [R_Done, R_Bytes [5, 2], R_Done, R_Bytes [1, 0], R_Done,
               R_Bytes (take 4 socks5_success), R_Bytes (drop 4 socks5_success)]) = (Inr (), w')
          \<and> written Upstream (w_trace w') =
              [socks5_greeting p, socks5_auth_request u q, socks5_request host port])"
  using socks5_greeting_methods(1) [OF assms(2,3)]
    socks5_server_negotiates [OF assms(1-5) assms(7,8,10,11)]
    socks5_target_request [OF assms(6,9)] socks5_connector_accepts [OF assms(2,3)]
  by blast

lemma bob_us:
  "parse_username ''bob-country-us'' = Inr (''bob'', selection_default\<lparr>sel_country := [''us'']\<rparr>)"
  by code_simp

definition bob_proxy :: proxy_config where
  "bob_proxy = (sample_proxy ''a'' None)\<lparr>px_username := Some ''bob-country-us'', px_password := Some ''pw''\<rparr>"

lemma sample_account_admissible: "admissible sample_account"
  by (simp add: admissible_def sample_account_def)

theorem socks5_hop_interoperates_witness:
  "\<exists>w'. socks5_negotiate sample_ctx (socks5_greeting bob_proxy)
      (started [R_Done, R_Bytes (socks5_auth_request ''bob-country-us'' ''pw''),
         R_Account (Some sample_account), R_Done]) =
        (Inr (Some 7, selection_default\<lparr>sel_country := [''us'']\<rparr>), w')
     \<and> Did (Authenticate ''bob'' ''pw'') (Some (R_Account (Some sample_account))) \<in> set (w_trace w')"
proof -
  have p: "px_username bob_proxy = Some ''bob-country-us''" "px_password bob_proxy = Some ''pw''"
    by (simp_all add: bob_proxy_def)
  have v: "valid_str ''bob-country-us''" "valid_str ''pw''" "valid_str ''t''" by code_simp+
  have auth: "auth_enabled (cx_config sample_ctx)" by simp
  have l: "length ''bob-country-us'' < 256" "length ''pw'' < 256" "length ''t'' < 256" by simp_all
  from socks5_hop_interoperates [OF auth p l v bob_us sample_account_admissible]
  have "\<exists>w'. socks5_negotiate sample_ctx (socks5_greeting bob_proxy)
      (started [R_Done, R_Bytes (socks5_auth_request ''bob-country-us'' ''pw''),
         R_Account (Some sample_account), R_Done]) =
        (Inr (Some (acc_id sample_account), selection_default\<lparr>sel_country := [''us'']\<rparr>), w')
     \<and> Did (Authenticate ''bob'' ''pw'') (Some (R_Account (Some sample_account))) \<in> set (w_trace w')"
    by blast
  then show ?thesis by (simp add: sample_account_def)
qed

section \<open>HTTP\<close>

lemma split_char_prefix:
  "c \<notin> set p \<Longrightarrow> split_char c (p @ r) = (p @ hd (split_char c r)) # tl (split_char c r)"
proof (induction p)
  case (Cons x p)
  then show ?case by (auto simp: split_char_def split: list.split)
qed simp

lemma lines_prefix:
  assumes "LF \<notin> set p" and "CR \<notin> set p" and "p \<noteq> []"
  shows "\<exists>t ls. lines (p @ r) = (p @ t) # ls"
proof -
  obtain q qs where q: "split_char LF r = q # qs" by (cases "split_char LF r") auto
  have sp: "split_char LF (p @ r) = (p @ q) # qs" using split_char_prefix [OF assms(1), of r] q by simp
  have "\<exists>t. strip_cr (p @ q) = p @ t"
  proof (cases "q = []")
    case True
    then have "last (p @ q) \<noteq> CR" using assms(2,3) last_in_set by fastforce
    then show ?thesis by (auto simp: strip_cr_def)
  qed (auto simp: strip_cr_def butlast_append)
  then show ?thesis using assms(3) by (cases qs) (auto simp: lines_def sp)
qed

definition connect_line :: "string \<Rightarrow> u16 \<Rightarrow> string" where
  "connect_line host port = ''CONNECT '' @ host @ '':'' @ dec (unat port) @ '' HTTP/1.1''"

definition host_line :: "string \<Rightarrow> u16 \<Rightarrow> string" where
  "host_line host port = ''Host: '' @ host @ '':'' @ dec (unat port)"

definition credentials_line :: "base64 \<Rightarrow> string \<Rightarrow> string \<Rightarrow> string" where
  "credentials_line b u q = ''Proxy-Authorization: Basic '' @ encode_auth b u q"

definition plain :: "string \<Rightarrow> bool" where
  "plain s \<longleftrightarrow> list_all (\<lambda>c. ascii_char c \<and> c \<noteq> LF) s"

lemma plain_append: "plain (s @ t) \<longleftrightarrow> plain s \<and> plain t"
  by (simp add: plain_def)

lemma plain_graphic: "graphic s \<Longrightarrow> plain s"
  using graphic_no_LF [of s] by (auto simp: plain_def graphic_def list_all_iff)

lemma plain_words:
  "plain ''CONNECT ''" "plain '' HTTP/1.1''" "plain ''Host: ''" "plain ''Proxy-Authorization: Basic ''" "plain '':''"
  by code_simp+

lemma plainD: "plain s \<Longrightarrow> LF \<notin> set s" "plain s \<Longrightarrow> \<forall>c \<in> set s. ascii_char c"
  by (auto simp: plain_def list_all_iff)

lemma request_lines_plain:
  assumes "base64_ok b" and "graphic host"
  shows "plain (connect_line host port)" and "plain (host_line host port)" and "plain (credentials_line b u q)"
proof -
  have "graphic (encode_auth b u q)" using assms(1) by (simp add: base64_ok_def encode_auth_def)
  note parts = this assms(2) graphic_dec [of "unat port"]
  show "plain (connect_line host port)" "plain (host_line host port)" "plain (credentials_line b u q)"
    by (simp_all only: connect_line_def host_line_def credentials_line_def plain_append plain_words
        parts [THEN plain_graphic])
qed

lemma connect_request_string:
  assumes "px_username p = Some u" and "px_password p = Some q"
  shows "connect_request b p host port =
    as_bytes (connect_line host port @ CRLF @ host_line host port @ CRLF @ credentials_line b u q @ CRLF @ CRLF)"
  using assms
  by (simp only: connect_request_def connect_head_def auth_header_def option.case prod.case
      connect_line_def host_line_def credentials_line_def as_bytes_append append_assoc)

lemma plain_lossy: "plain s \<Longrightarrow> plain t \<Longrightarrow> plain u \<Longrightarrow>
    from_utf8_lossy (as_bytes (take n (s @ CRLF @ t @ CRLF @ u @ CRLF @ CRLF))) =
      take n (s @ CRLF @ t @ CRLF @ u @ CRLF @ CRLF)"
proof (intro from_utf8_lossy_as_bytes valid_str_ascii ballI)
  fix c
  assume p: "plain s" "plain t" "plain u" and "c \<in> set (take n (s @ CRLF @ t @ CRLF @ u @ CRLF @ CRLF))"
  then have "c \<in> set s \<union> set t \<union> set u \<union> {CR, LF}" by (auto dest: in_set_takeD)
  then show "ascii_char c" using p [THEN plainD(2)] by (auto simp: ascii_char_def)
qed

lemma connect_request_lines:
  assumes "base64_ok b" and "graphic host" and "px_username p = Some u" and "px_password p = Some q"
  shows "lines (from_utf8_lossy (connect_request b p host port)) =
    [connect_line host port, host_line host port, credentials_line b u q, []]"
proof -
  have ok: "plain (connect_line host port)" "plain (host_line host port)" "plain (credentials_line b u q)"
    by (rule request_lines_plain [OF assms(1,2)])+
  let ?s = "connect_line host port @ CRLF @ host_line host port @ CRLF @ credentials_line b u q @ CRLF @ CRLF"
  have "from_utf8_lossy (as_bytes ?s) = ?s"
    using plain_lossy [OF ok, where n = "length ?s"] by (simp only: take_all order.refl)
  moreover have "lines CRLF = [[]]" by code_simp
  ultimately show ?thesis
    by (simp only: connect_request_string [OF assms(3,4)] lines_Cons_CRLF [OF plainD(1) [OF ok(1)]]
        lines_Cons_CRLF [OF plainD(1) [OF ok(2)]] lines_Cons_CRLF [OF plainD(1) [OF ok(3)]])
qed

lemma take_min_length: "take (min (length xs) n) xs = take n xs"
  by (simp add: min_def)

lemma connect_request_detect:
  assumes "base64_ok b" and "graphic host" and "px_username p = Some u" and "px_password p = Some q"
  shows "detect_protocol (connect_request b p host port) = Inr Https"
proof -
  have ok: "plain (connect_line host port)" "plain (host_line host port)" "plain (credentials_line b u q)"
    by (rule request_lines_plain [OF assms(1,2)])+
  define msg where
    "msg = connect_line host port @ CRLF @ host_line host port @ CRLF @ credentials_line b u q @ CRLF @ CRLF"
  have req: "connect_request b p host port = as_bytes msg"
    unfolding msg_def by (rule connect_request_string [OF assms(3,4)])
  obtain r where r: "msg = ''CONNECT '' @ r" by (simp add: msg_def connect_line_def)
  have "take (min (length (as_bytes msg)) 20) (as_bytes msg) = as_bytes (take 20 msg)"
    using take_min_length [of "as_bytes msg" 20] by (simp only: take_as_bytes)
  moreover have "from_utf8_lossy (as_bytes (take 20 msg)) = take 20 msg"
    unfolding msg_def by (rule plain_lossy [OF ok])
  moreover have "take 20 msg = ''CONNECT '' @ take 12 r" by (simp add: r)
  ultimately have head: "from_utf8_lossy (take (min (length (as_bytes msg)) 20) (as_bytes msg)) =
      ''CONNECT '' @ take 12 r"
    by (simp only:)
  obtain t ls where ls: "lines (''CONNECT '' @ take 12 r) = (''CONNECT '' @ t) # ls"
    using lines_prefix [of "''CONNECT ''" "take 12 r"] by auto
  have "as_bytes msg = 67 # as_bytes (''ONNECT '' @ r)"
    unfolding r by (simp add: as_bytes_def byte_of_char_def)
  then show ?thesis
    unfolding req detect_protocol_def head ls by (simp add: starts_with_def)
qed

lemma credentials_line_found:
  assumes "base64_ok b" and "graphic host" and "px_username p = Some u" and "px_password p = Some q"
  shows "find (lower_starts_with auth_header_prefix) (lines (from_utf8_lossy (connect_request b p host port))) =
    Some (credentials_line b u q)"
proof -
  have "\<not> lower_starts_with auth_header_prefix (connect_line host port)"
    "\<not> lower_starts_with auth_header_prefix (host_line host port)"
    by (simp_all add: connect_line_def host_line_def lower_starts_with_def to_ascii_lowercase_def
        auth_header_prefix_def starts_with_def to_ascii_lower_def)
  moreover have "map to_ascii_lower ''Proxy-Authorization: Basic '' = auth_header_prefix" by code_simp
  then have "lower_starts_with auth_header_prefix (credentials_line b u q)"
    by (simp only: credentials_line_def lower_starts_with_def to_ascii_lowercase_def map_append starts_with_append)
  ultimately show ?thesis by (simp add: connect_request_lines [OF assms])
qed

lemma established_tunnel_up: "from_utf8_lossy (as_bytes established) = established"
  "contains ''200 Connection Established'' established" "length established \<le> 1024"
proof -
  have "list_all ascii_char established" by code_simp
  then show "from_utf8_lossy (as_bytes established) = established"
    by (intro from_utf8_lossy_as_bytes valid_str_ascii) (simp only: list_all_iff)
  show "contains ''200 Connection Established'' established" by code_simp
  show "length established \<le> 1024" by code_simp
qed

lemma http_connector_accepts:
  "\<exists>w'. http_connect b p host port (started [R_Done, R_Bytes (as_bytes established)]) = (Inr (), w')
     \<and> written Upstream (w_trace w') = [connect_request b p host port]"
  by (simp add: http_connect_def started_def io_simps andthen_def Let_def established_tunnel_up)



end
