(* ===== verification/Usage_Cas.thy ===== *)
theory Usage_Cas
  imports Static_Backend
begin

text \<open>
  The compare-exchange loop of \<open>StaticAuthBackend::report_usage\<close> when several connections
  of one account report at the same time.  Each reporter loads the balance, computes its
  floored difference and tries to exchange; a weak exchange may fail although the value
  has not changed, and a failure hands back the value observed.
\<close>

datatype cas_pc = Start | Loaded i64 | Finished i64

record cas_state =
  cas_remaining :: i64
  cas_pcs :: "cas_pc list"

text \<open>Reporter \<open>k\<close> debits \<open>ds ! k\<close>.\<close>

inductive cas_step :: "int list \<Rightarrow> cas_state \<Rightarrow> cas_state \<Rightarrow> bool" for ds where
  load: "k < length (cas_pcs s) \<Longrightarrow> cas_pcs s ! k = Start \<Longrightarrow>
     cas_step ds s (s\<lparr>cas_pcs := (cas_pcs s)[k := Loaded (cas_remaining s)]\<rparr>)"
| exchange_ok: "k < length (cas_pcs s) \<Longrightarrow> cas_pcs s ! k = Loaded cur \<Longrightarrow> cur = cas_remaining s \<Longrightarrow>
     next_v = max 0 (wrap_i64 (cur - ds ! k)) \<Longrightarrow>
     cas_step ds s (s\<lparr>cas_remaining := next_v, cas_pcs := (cas_pcs s)[k := Finished next_v]\<rparr>)"
| exchange_fail: "k < length (cas_pcs s) \<Longrightarrow> cas_pcs s ! k = Loaded cur \<Longrightarrow>
     cas_step ds s (s\<lparr>cas_pcs := (cas_pcs s)[k := Loaded (cas_remaining s)]\<rparr>)"

definition cas_init :: "i64 \<Rightarrow> int list \<Rightarrow> cas_state" where
  "cas_init b ds = \<lparr>cas_remaining = b, cas_pcs = replicate (length ds) Start\<rparr>"

inductive cas_reachable :: "i64 \<Rightarrow> int list \<Rightarrow> cas_state \<Rightarrow> bool" for b ds where
  init: "cas_reachable b ds (cas_init b ds)"
| step: "cas_reachable b ds s \<Longrightarrow> cas_step ds s t \<Longrightarrow> cas_reachable b ds t"

section \<open>The balance is the start less what has been exchanged\<close>

fun is_finished :: "cas_pc \<Rightarrow> bool" where
  "is_finished (Finished _) = True"
| "is_finished _ = False"

definition debited :: "int list \<Rightarrow> cas_pc list \<Rightarrow> int" where
  "debited ds pcs = (\<Sum>k < length pcs. if is_finished (pcs ! k) then ds ! k else 0)"

lemma debited_unfinished:
  assumes "\<not> is_finished (pcs ! k)" and "\<not> is_finished p"
  shows "debited ds (pcs[k := p]) = debited ds pcs"
proof -
  have "is_finished (pcs[k := p] ! j) = is_finished (pcs ! j)" for j
    using assms by (cases "j = k"; cases "k < length pcs") (simp_all add: list_update_beyond)
  then show ?thesis by (simp add: debited_def)
qed

lemma debited_finish:
  assumes "k < length pcs" and "\<not> is_finished (pcs ! k)"
  shows "debited ds (pcs[k := Finished v]) = debited ds pcs + ds ! k"
proof -
  let ?f = "\<lambda>j. if is_finished (pcs ! j) then ds ! j else 0"
  let ?g = "\<lambda>j. if is_finished (pcs[k := Finished v] ! j) then ds ! j else 0"
  have "sum ?g {..<length pcs} = ?g k + sum ?g ({..<length pcs} - {k})"
    using assms(1) by (intro sum.remove) auto
  also have "sum ?g ({..<length pcs} - {k}) = sum ?f ({..<length pcs} - {k})"
    by (rule sum.cong) (auto simp: nth_list_update)
  also have "?g k = ds ! k + ?f k" using assms by simp
  finally have "sum ?g {..<length pcs} = ds ! k + (?f k + sum ?f ({..<length pcs} - {k}))" by simp
  also have "?f k + sum ?f ({..<length pcs} - {k}) = sum ?f {..<length pcs}"
    using assms(1) by (intro sum.remove [symmetric]) auto
  finally show ?thesis by (simp add: debited_def)
qed

lemma debited_nonneg: "\<forall>d \<in> set ds. 0 \<le> d \<Longrightarrow> length pcs = length ds \<Longrightarrow> 0 \<le> debited ds pcs"
  unfolding debited_def by (intro sum_nonneg) auto

definition cas_inv :: "i64 \<Rightarrow> int list \<Rightarrow> cas_state \<Rightarrow> bool" where
  "cas_inv b ds s \<longleftrightarrow> length (cas_pcs s) = length ds
     \<and> cas_remaining s = max 0 (b - debited ds (cas_pcs s))"

definition debits_ok :: "i64 \<Rightarrow> int list \<Rightarrow> bool" where
  "debits_ok b ds \<longleftrightarrow> 0 \<le> b \<and> b \<le> i64_max \<and> (\<forall>d \<in> set ds. 0 \<le> d \<and> d \<le> i64_max)"

lemma cas_inv_init: "debits_ok b ds \<Longrightarrow> cas_inv b ds (cas_init b ds)"
proof -
  assume "debits_ok b ds"
  moreover have "debited ds (replicate (length ds) Start) = 0"
    unfolding debited_def by (rule sum.neutral) auto
  ultimately show ?thesis by (simp add: cas_inv_def cas_init_def debits_ok_def)
qed

lemma cas_inv_step:
  assumes ok: "debits_ok b ds" and "cas_step ds s t" and inv: "cas_inv b ds s"
  shows "cas_inv b ds t"
  using assms(2)
proof cases
  case (load k)
  then show ?thesis using inv by (simp add: cas_inv_def debited_unfinished)
next
  case (exchange_ok k cur next_v)
  have len: "length (cas_pcs s) = length ds" and rem: "cas_remaining s = max 0 (b - debited ds (cas_pcs s))"
    using inv by (simp_all add: cas_inv_def)
  have "ds ! k \<in> set ds" using exchange_ok(2) len by simp
  then have d: "0 \<le> ds ! k" "ds ! k \<le> i64_max" using ok by (simp_all add: debits_ok_def)
  have deb: "0 \<le> debited ds (cas_pcs s)"
    using ok len by (intro debited_nonneg) (auto simp: debits_ok_def)
  have "cas_remaining s \<le> i64_max" "0 \<le> cas_remaining s"
    using rem deb ok by (auto simp: debits_ok_def)
  then have "in_i64 (cas_remaining s - ds ! k)" using d by (simp add: in_i64_def)
  then have "next_v = max 0 (max 0 (b - debited ds (cas_pcs s)) - ds ! k)"
    using exchange_ok rem by simp
  also have "\<dots> = max 0 (b - (debited ds (cas_pcs s) + ds ! k))"
    using d(1) by (rule max_0_diff_diff)
  finally show ?thesis
    using exchange_ok len by (simp add: cas_inv_def debited_finish)
next
  case (exchange_fail k cur)
  then show ?thesis using inv by (simp add: cas_inv_def debited_unfinished)
qed

lemma cas_reachable_inv:
  "cas_reachable b ds s \<Longrightarrow> debits_ok b ds \<Longrightarrow> cas_inv b ds s"
  by (induction rule: cas_reachable.induct) (auto intro: cas_inv_init cas_inv_step)

lemma debited_all: "\<forall>p \<in> set pcs. is_finished p \<Longrightarrow> length pcs = length ds \<Longrightarrow> debited ds pcs = sum_list ds"
proof -
  assume fin: "\<forall>p \<in> set pcs. is_finished p" and len: "length pcs = length ds"
  have "debited ds pcs = (\<Sum>k < length ds. ds ! k)"
    unfolding debited_def len by (rule sum.cong) (use fin len in auto)
  then show ?thesis by (simp add: sum_list_sum_nth atLeast0LessThan)
qed

text \<open>A run by itself: the exchange succeeds at once, which is what \<open>static_report_usage\<close> does.\<close>

lemma cas_alone:
  "cas_reachable b [d] \<lparr>cas_remaining = max 0 (wrap_i64 (b - d)),
     cas_pcs = [Finished (max 0 (wrap_i64 (b - d)))]\<rparr>"
proof -
  have 1: "cas_step [d] (cas_init b [d]) \<lparr>cas_remaining = b, cas_pcs = [Loaded b]\<rparr>"
    using cas_step.load [of 0 "cas_init b [d]" "[d]"] by (simp add: cas_init_def)
  have 2: "cas_step [d] \<lparr>cas_remaining = b, cas_pcs = [Loaded b]\<rparr>
      \<lparr>cas_remaining = max 0 (wrap_i64 (b - d)), cas_pcs = [Finished (max 0 (wrap_i64 (b - d)))]\<rparr>"
    using cas_step.exchange_ok [of 0 "\<lparr>cas_remaining = b, cas_pcs = [Loaded b]\<rparr>" b _ "[d]"] by simp
  from cas_reachable.step [OF cas_reachable.step [OF cas_reachable.init 1] 2] show ?thesis .
qed

section \<open>Linearization\<close>

text \<open>
  The reports behind the loops: bytes in, bytes out and cost of each reporter.  Executed one
  after another as whole calls of \<open>report_usage\<close>, in some order, they are the specification.
\<close>

type_synonym usage = "nat \<times> nat \<times> f64"

definition debit_of :: "usage \<Rightarrow> i64" where
  "debit_of u = (case u of (bin, bout, c) \<Rightarrow> usage_debit bin bout c)"

definition report_one :: "i64 \<Rightarrow> usage \<Rightarrow> 'net static_user list \<Rightarrow> (auth_error + i64 option) \<times> 'net static_user list" where
  "report_one aid u users = (case u of (bin, bout, c) \<Rightarrow> static_report_usage users aid bin bout c)"

fun report_in_order :: "i64 \<Rightarrow> usage list \<Rightarrow> nat list \<Rightarrow> 'net static_user list \<Rightarrow> 'net static_user list" where
  "report_in_order aid us [] users = users"
| "report_in_order aid us (k # ks) users = report_in_order aid us ks (snd (report_one aid (us ! k) users))"

lemma report_in_order_append:
  "report_in_order aid us (ks @ ls) users = report_in_order aid us ls (report_in_order aid us ks users)"
  by (induction ks arbitrary: users) simp_all

text \<open>An account of index \<open>i\<close> with balance \<open>b\<close>.\<close>

definition holds :: "i64 \<Rightarrow> nat \<Rightarrow> i64 \<Rightarrow> 'net static_user list \<Rightarrow> bool" where
  "holds aid i b users \<longleftrightarrow> user_index users aid = Some i \<and> su_remaining (users ! i) = Some b"

lemma report_one_holds:
  assumes "holds aid i b users"
  shows "fst (report_one aid u users) = Inr (Some (max 0 (wrap_i64 (b - debit_of u))))"
    and "holds aid i (max 0 (wrap_i64 (b - debit_of u))) (snd (report_one aid u users))"
proof -
  have i: "user_index users aid = Some i" "su_remaining (users ! i) = Some b" "i < length users"
    using assms by (auto simp: holds_def user_index_def Let_def split: if_splits)
  obtain bin bout c where u: "u = (bin, bout, c)" by (cases u)
  show "fst (report_one aid u users) = Inr (Some (max 0 (wrap_i64 (b - debit_of u))))"
    using i by (simp add: report_one_def u debit_of_def static_report_usage_def Let_def)
  show "holds aid i (max 0 (wrap_i64 (b - debit_of u))) (snd (report_one aid u users))"
    using i by (auto simp: report_one_def u debit_of_def static_report_usage_def holds_def user_index_def
        Let_def split: if_splits)
qed

text \<open>
  \<open>order\<close> lists the reporters that have finished as they exchanged: the balance is what the
  reports leave in that order, and each has been answered what its report answers there.
\<close>

definition linearized ::
  "i64 \<Rightarrow> nat \<Rightarrow> usage list \<Rightarrow> 'net static_user list \<Rightarrow> cas_state \<Rightarrow> nat list \<Rightarrow> bool"
where
  "linearized aid i us users s order \<longleftrightarrow>
     distinct order
     \<and> (\<forall>k. k \<in> set order \<longleftrightarrow> k < length (cas_pcs s) \<and> is_finished (cas_pcs s ! k))
     \<and> holds aid i (cas_remaining s) (report_in_order aid us order users)
     \<and> (\<forall>j < length order. \<exists>v. cas_pcs s ! (order ! j) = Finished v
          \<and> fst (report_one aid (us ! (order ! j)) (report_in_order aid us (take j order) users)) = Inr (Some v))"

text \<open>A step that does not exchange keeps the order; one that does extends it.\<close>

lemma linearized_keep:
  assumes lin: "linearized aid i us users s order" and "\<not> is_finished (cas_pcs s ! k)" and "\<not> is_finished p"
    and "k < length (cas_pcs s)"
  shows "linearized aid i us users (s\<lparr>cas_pcs := (cas_pcs s)[k := p]\<rparr>) order"
proof -
  have iff: "\<forall>n. n \<in> set order \<longleftrightarrow> n < length (cas_pcs s) \<and> is_finished (cas_pcs s ! n)"
    using lin by (simp add: linearized_def)
  then have "k \<notin> set order" using assms(2) by blast
  then have ne: "order ! j \<noteq> k" if "j < length order" for j using that nth_mem by blast
  have "\<forall>n. n \<in> set order \<longleftrightarrow> n < length (cas_pcs s) \<and> is_finished ((cas_pcs s)[k := p] ! n)"
    using iff assms(2-4) by (auto simp: nth_list_update)
  moreover have "(cas_pcs s)[k := p] ! (order ! j) = cas_pcs s ! (order ! j)" if "j < length order" for j
    using ne [OF that] by simp
  ultimately show ?thesis using lin by (simp add: linearized_def)
qed

lemma linearized_exchange:
  assumes lin: "linearized aid i us users s order" and k: "k < length (cas_pcs s)" "\<not> is_finished (cas_pcs s ! k)"
    and v: "v = max 0 (wrap_i64 (cas_remaining s - debit_of (us ! k)))"
  shows "linearized aid i us users (s\<lparr>cas_remaining := v, cas_pcs := (cas_pcs s)[k := Finished v]\<rparr>) (order @ [k])"
proof -
  have iff: "\<forall>n. n \<in> set order \<longleftrightarrow> n < length (cas_pcs s) \<and> is_finished (cas_pcs s ! n)"
    and held: "holds aid i (cas_remaining s) (report_in_order aid us order users)"
    using lin by (simp_all add: linearized_def)
  have new: "k \<notin> set order" using iff k(2) by blast
  then have ne: "order ! j \<noteq> k" if "j < length order" for j using that nth_mem by blast
  have "\<exists>w. (cas_pcs s)[k := Finished v] ! ((order @ [k]) ! j) = Finished w
      \<and> fst (report_one aid (us ! ((order @ [k]) ! j))
           (report_in_order aid us (take j (order @ [k])) users)) = Inr (Some w)"
    if "j < length (order @ [k])" for j
  proof (cases "j < length order")
    case True
    then have "(cas_pcs s)[k := Finished v] ! (order ! j) = cas_pcs s ! (order ! j)"
      using ne [OF True] by (intro nth_list_update_neq) simp
    with lin True show ?thesis by (simp add: linearized_def nth_append)
  next
    case False
    with that have "j = length order" by simp
    with k(1) report_one_holds(1) [OF held] v show ?thesis by simp
  qed
  moreover have "\<forall>n. n \<in> set (order @ [k]) \<longleftrightarrow>
      n < length (cas_pcs s) \<and> is_finished ((cas_pcs s)[k := Finished v] ! n)"
    using iff k by (auto simp: nth_list_update)
  moreover have "holds aid i v (report_in_order aid us (order @ [k]) users)"
    using report_one_holds(2) [OF held, of "us ! k"] v by (simp add: report_in_order_append)
  ultimately show ?thesis using lin new by (simp add: linearized_def)
qed

lemma cas_linearized:
  assumes "cas_reachable b (map debit_of us) s" and "holds aid i b users"
  shows "length (cas_pcs s) = length us \<and> (\<exists>order. linearized aid i us users s order)"
  using assms(1)
proof (induction rule: cas_reachable.induct)
  case init
  have "linearized aid i us users (cas_init b (map debit_of us)) []"
    using assms(2) by (auto simp: linearized_def cas_init_def)
  then show ?case by (auto simp: cas_init_def)
next
  case (step s t)
  then obtain order where len: "length (cas_pcs s) = length us"
    and lin: "linearized aid i us users s order" by blast
  from step.hyps(2) show ?case
  proof cases
    case (load k)
    with linearized_keep [OF lin, of k "Loaded (cas_remaining s)"] len show ?thesis by auto
  next
    case (exchange_ok k cur next_v)
    with linearized_exchange [OF lin, of k next_v] len show ?thesis by auto
  next
    case (exchange_fail k cur)
    with linearized_keep [OF lin, of k "Loaded (cas_remaining s)"] len show ?thesis by auto
  qed
qed

section \<open>Properties\<close>

text \<open>
  C10. Concurrent reports are linearizable: at every moment, under every interleaving of the
  loads and exchanges and any number of spurious failures, the balance and the answers of the
  reporters that have returned are those of whole \<open>report_usage\<close> calls executed one after
  another, in the order of the exchanges.  So no update is lost: when all have returned, the
  balance is the start less the sum of all debits, floored at zero.
\<close>

theorem cas_linearizable:
  assumes "cas_reachable b (map debit_of us) s" and "holds aid i b users" and "0 \<le> b" and "b \<le> i64_max"
  shows "(\<exists>order. linearized aid i us users s order)
     \<and> ((\<forall>p \<in> set (cas_pcs s). is_finished p) \<longrightarrow>
          cas_remaining s = max 0 (b - sum_list (map debit_of us)))"
proof -
  have "debits_ok b (map debit_of us)"
    using assms(3,4) by (auto simp: debits_ok_def debit_of_def split: prod.splits)
  from cas_reachable_inv [OF assms(1) this] cas_linearized [OF assms(1,2)] debited_all show ?thesis
    by (auto simp: cas_inv_def)
qed

theorem cas_linearizable_witness:
  "\<exists>s. cas_reachable 10 (map debit_of [(4, 0, default_cost_per_byte)]) s \<and> cas_remaining s = 6
     \<and> (\<exists>order. linearized 1 0 [(4, 0, default_cost_per_byte)] two_users s order)"
proof -
  let ?us = "[(4, 0, default_cost_per_byte)] :: usage list"
  let ?s = "\<lparr>cas_remaining = max 0 (wrap_i64 (10 - 4)), cas_pcs = [Finished (max 0 (wrap_i64 (10 - 4)))]\<rparr>"
  have d: "map debit_of ?us = [4]" by (simp add: debit_of_def usage_debit_one)
  have reach: "cas_reachable 10 (map debit_of ?us) ?s" unfolding d by (rule cas_alone)
  have "holds 1 0 10 two_users"
    by (simp add: holds_def user_index_def two_users_def in_i64_def)
  from cas_linearizable [OF reach this] d reach show ?thesis
    by (intro exI [of _ ?s]) (simp add: in_i64_def)
qed

text \<open>
  C24. A reporter's loop can always finish: from every reachable state in which it has not,
  it alone reaches the end of its exchange in at most two more steps.
\<close>

theorem cas_reporter_can_finish:
  assumes "k < length (cas_pcs s)" and "\<not> is_finished (cas_pcs s ! k)"
  shows "\<exists>t u. (t = s \<or> cas_step ds s t) \<and> cas_step ds t u \<and> is_finished (cas_pcs u ! k)"
proof -
  let ?next = "max 0 (wrap_i64 (cas_remaining s - ds ! k))"
  let ?t = "s\<lparr>cas_pcs := (cas_pcs s)[k := Loaded (cas_remaining s)]\<rparr>"
  have "cas_step ds s ?t"
    using assms by (cases "cas_pcs s ! k") (auto intro: cas_step.load cas_step.exchange_fail)
  moreover have "cas_step ds ?t (?t\<lparr>cas_remaining := ?next, cas_pcs := (cas_pcs ?t)[k := Finished ?next]\<rparr>)"
    using assms(1) by (intro cas_step.exchange_ok [where cur = "cas_remaining s"]) simp_all
  ultimately show ?thesis using assms(1) by fastforce
qed

theorem cas_reporter_can_finish_witness:
  "\<exists>t u. (t = cas_init 9 [4] \<or> cas_step [4] (cas_init 9 [4]) t) \<and> cas_step [4] t u
      \<and> is_finished (cas_pcs u ! 0)"
  using cas_reporter_can_finish [of 0 "cas_init 9 [4]" "[4]"] by (simp add: cas_init_def)

end
