(* ===== verification/Served_Targets.thy ===== *)
theory Served_Targets
  imports Connection
begin

text \<open>
  Whom a connection talks to: what a handler asks its upstream for is what the client's
  request names.  One statement for the four inbound protocols and the four upstream
  protocols, single-hop and chained, about every connection that is served to its end.
\<close>

section \<open>The target a request names\<close>

text \<open>What a single-hop handler writes to its upstream to open the tunnel, if it opens one.\<close>

definition opening_request :: "base64 \<Rightarrow> protocol \<Rightarrow> proxy_config \<Rightarrow> byte list \<Rightarrow> byte list option" where
  "opening_request b proto p request =
     (case proto of
        Socks5 \<Rightarrow> None
      | Http \<Rightarrow>
          (case host_header (from_utf8_lossy request) of
             Inl _ \<Rightarrow> None
           | Inr (host, port) \<Rightarrow>
               if px_type p \<in> {Socks4, Socks5} then Some (hop_request (px_type p) b p host port) else None)
      | Https \<Rightarrow>
          (case https_target (hd (lines (from_utf8_lossy request))) of
             Inl _ \<Rightarrow> None
           | Inr target \<Rightarrow>
               if px_type p \<in> {Socks4, Socks5}
               then Some (hop_request (px_type p) b p (fst (https_host_port target)) (snd (https_host_port target)))
               else Some (connect_head b p target))
      | Socks4 \<Rightarrow>
          if px_type p = Socks4 then Some request
          else (case socks4_target_host request (dotted (take 4 (drop 4 request))) of
                  Inl _ \<Rightarrow> None
                | Inr host \<Rightarrow> Some (hop_request (px_type p) b p host (port_of (request ! 2) (request ! 3)))))"

text \<open>The target of a request that goes through a chain.\<close>

definition named_target :: "protocol \<Rightarrow> byte list \<Rightarrow> proxy_error + (string \<times> u16)" where
  "named_target proto request =
     (case proto of
        Http \<Rightarrow> parse_http_target request
      | Https \<Rightarrow> parse_connect_target request
      | Socks4 \<Rightarrow> parse_socks4_target request
      | Socks5 \<Rightarrow> Inl UnsupportedProtocol)"

text \<open>The chain is up to a target: every hop granted, the last one to it.\<close>

definition chain_up :: "base64 \<Rightarrow> proxy_config list \<Rightarrow> string \<times> u16 \<Rightarrow> event list \<Rightarrow> bool" where
  "chain_up b hops target es \<longleftrightarrow>
     (\<exists>before ts hop after. es = before @ hop @ after \<and> map fst ts = hops \<and> ts \<noteq> []
        \<and> all_granted (\<lambda>q. granted (px_type q) b q) ts hop \<and> snd (last ts) = target)"

text \<open>The target a SOCKS5 client sent: what \<open>socks5_target\<close> reads out of these events.\<close>

definition read_target :: "string \<times> u16 \<Rightarrow> event list \<Rightarrow> bool" where
  "read_target target es \<longleftrightarrow>
     (\<exists>before reads after v v'. es = before @ reads @ after
        \<and> socks5_target v = (Inr target, v') \<and> w_trace v' = w_trace v @ reads)"

section \<open>The chained handlers\<close>

lemma chain_up_context: "chain_up b hops target es \<Longrightarrow> chain_up b hops target (fs @ es @ gs)"
proof -
  assume "chain_up b hops target es"
  then obtain before ts hop after where es: "es = before @ hop @ after"
    and up: "map fst ts = hops" "ts \<noteq> []" "all_granted (\<lambda>q. granted (px_type q) b q) ts hop" "snd (last ts) = target"
    unfolding chain_up_def by blast
  have "fs @ es @ gs = (fs @ before) @ hop @ (after @ gs)" by (simp add: es)
  with up show ?thesis unfolding chain_up_def by blast
qed

lemma hop_targets_last:
  "hop_targets ps host port = Inr ts \<Longrightarrow> ps \<noteq> [] \<Longrightarrow> ts \<noteq> [] \<and> snd (last ts) = (host, port)"
proof (induction ps host port arbitrary: ts rule: hop_targets.induct)
  case (3 current nxt rest host port)
  from "3.prems"(1) obtain h q us
    where "parse_address (get_upstream_addr nxt) = Inr (h, q)"
      and us: "hop_targets (nxt # rest) host port = Inr us" and ts: "ts = (current, h, q) # us"
    by (auto split: sum.splits)
  from "3.IH" [OF _ refl us] this(1) ts show ?case by auto
qed simp_all

lemma connect_chain_up:
  "returns (connect_chain b hops host port) (\<lambda>_ es. chain_up b hops (host, port) es)"
proof (rule returnsI)
  fix w x w'
  assume "connect_chain b hops host port w = (Inr x, w')"
  then have "connect_chain b hops host port w = (Inr (), w')" by simp
  then show "\<exists>es. w_trace w' = w_trace w @ es \<and> chain_up b hops (host, port) es"
  proof (rule connect_chain_Inr)
    fix p rest ts es
    let ?dial = "[Did (Connect (get_upstream_addr p)) (Some R_Done), Did SetNodelay (Some R_Done)]"
    assume "hops = p # rest" and ts: "hop_targets hops host port = Inr ts"
      and tr: "w_trace w' = w_trace w @ ?dial @ es"
      and es: "all_granted (\<lambda>p. granted (px_type p) b p) ts es"
    then have "chain_up b hops (host, port) es"
      using hop_targets_length [OF ts] hop_targets_last [OF ts] unfolding chain_up_def
      by (intro exI [of _ "[]"] exI [of _ ts] exI [of _ es]) simp
    from chain_up_context [OF this, of ?dial "[]"] tr show ?thesis
      by (intro exI [of _ "?dial @ es"]) simp
  qed
qed

text \<open>What a handler runs after it may only add events.\<close>

lemma relay_any: "returns (proxy_data peer account cost) (\<lambda>_ _. True)"
  by (rule returns_mono [OF returns_emits [OF any_event(1)]]) simp

text \<open>A chain that is up, whatever is done before and after.\<close>

lemma returns_chain_then:
  assumes "returns k (\<lambda>_ es. R es)"
    and "\<And>a es. chain_up b hops (host, port) a \<Longrightarrow> R es \<Longrightarrow> Q (a @ es)"
  shows "returns (andthen (connect_chain b hops host port) k) (\<lambda>_. Q)"
  by (rule returns_andthen [OF connect_chain_up], rule returns_mono [OF assms(1)]) (rule assms(2))

lemma chain_handlers_serve:
  "returns (handle_socks4_chain cx request hops) (\<lambda>_ es. \<exists>target.
     named_target Socks4 request = Inr target \<and> chain_up (cx_base64 cx) hops target es)"
  "returns (handle_https_chain cx request hops) (\<lambda>_ es. \<exists>target.
     named_target Https request = Inr target \<and> chain_up (cx_base64 cx) hops target es)"
  "returns (handle_http_chain cx request hops) (\<lambda>_ es. \<exists>target.
     named_target Http request = Inr target \<and> chain_up (cx_base64 cx) hops target es
     \<and> Did (WriteAll Upstream (to_origin_form request)) (Some R_Done) \<in> set es)"
proof -
  note auth = returns_await [OF returns_emits [OF authenticate_user_emits]]
  have up: "chain_up b hops t (e # fs @ a @ gs)" if "chain_up b hops t a" for b t a e fs gs
    using chain_up_context [OF that, of "e # fs" gs] by simp
  show "returns (handle_socks4_chain cx request hops) (\<lambda>_ es. \<exists>target.
     named_target Socks4 request = Inr target \<and> chain_up (cx_base64 cx) hops target es)"
    unfolding handle_socks4_chain_def
    by (intro post_rules auth returns_chain_then [where R = "\<lambda>_. True"] returns_mono [OF relay_any])
      (auto simp: named_target_def intro: up)
  show "returns (handle_https_chain cx request hops) (\<lambda>_ es. \<exists>target.
     named_target Https request = Inr target \<and> chain_up (cx_base64 cx) hops target es)"
    unfolding handle_https_chain_def
    by (intro post_rules auth returns_chain_then [where R = "\<lambda>_. True"] returns_mono [OF relay_any])
      (auto simp: named_target_def intro: up)
  show "returns (handle_http_chain cx request hops) (\<lambda>_ es. \<exists>target.
     named_target Http request = Inr target \<and> chain_up (cx_base64 cx) hops target es
     \<and> Did (WriteAll Upstream (to_origin_form request)) (Some R_Done) \<in> set es)"
    unfolding handle_http_chain_def Let_def
    by (intro post_rules auth returns_mono [OF relay_any] returns_chain_then
          [where R = "\<lambda>es. Did (WriteAll Upstream (to_origin_form request)) (Some R_Done) \<in> set es"])
      (auto simp: named_target_def intro: up)
qed

section \<open>The single-hop handlers\<close>

text \<open>A handshake that was granted, whatever is done before and after it.\<close>

lemma answered_context: "answered kind req es \<Longrightarrow> answered kind req (fs @ es @ gs)"
  by (intro answered_prefix answered_suffix)

text \<open>Each branch, from the target it has parsed.\<close>

definition opens :: "base64 \<Rightarrow> protocol \<Rightarrow> proxy_config \<Rightarrow> byte list \<Rightarrow> event list \<Rightarrow> bool" where
  "opens b proto p request es \<longleftrightarrow>
     (\<exists>req. opening_request b proto p request = Some req \<and> answered (px_type p) req es)"

lemma opens_context: "opens b proto p request es \<Longrightarrow> opens b proto p request (fs @ es @ gs)"
  unfolding opens_def using answered_context by blast

lemma opens_suffix: "opens b proto p request es \<Longrightarrow> opens b proto p request (es @ gs)"
  using opens_context [of b proto p request es "[]" gs] by simp

lemma returns_opens_then:
  assumes "returns m (\<lambda>_ es. opens b proto p request es)" and "emits (\<lambda>_. True) k"
  shows "returns (andthen m k) (\<lambda>_ es. opens b proto p request es)"
  by (rule returns_andthen [OF assms(1)], rule returns_mono [OF returns_emits [OF assms(2)]])
    (rule opens_suffix)

lemma http_via_socks4_opens:
  "px_type p = Socks4 \<Longrightarrow> returns (http_via_socks4 request) (\<lambda>_ es. opens b Http p request es)"
  unfolding http_via_socks4_def Let_def
  by (intro post_rules)
    (auto simp: opens_def opening_request_def hop_request_def grants_def intro: answered_now(1))

lemma http_via_socks5_opens:
  assumes "px_type p = Socks5"
  shows "returns (http_via_socks5 request p) (\<lambda>_ es. opens b Http p request es)"
  unfolding http_via_socks5_def Let_def
proof (rule returns_lift_result, rule returns_case_prod)
  fix x host port
  assume "host_header (from_utf8_lossy request) = Inr x" and "x = (host, port)"
  then have req: "opening_request b Http p request = Some (hop_request Socks5 b p host port)"
    using assms by (simp add: opening_request_def)
  have "returns (http_socks5_connect p host port) (\<lambda>_ es. opens b Http p request es)"
    by (rule returns_mono [OF http_socks5.established_returns [of p host port b]])
      (simp add: opens_def req assms granted_def)
  then show "returns (andthen (http_socks5_connect p host port)
       (if is_connect_line (hd (lines (from_utf8_lossy request)))
        then andthen (write_all Client (as_bytes established)) (bytes_out 47)
        else andthen (bytes_out (length request)) (write_all Upstream request)))
     (\<lambda>_ es. opens b Http p request es)"
    by (rule returns_opens_then) (intro wp_rules; simp)
qed

lemma https_via_http_opens:
  assumes "px_type p \<in> {Http, Https}" and "lines (from_utf8_lossy request) = l # ls"
  shows "returns (https_via_http b l p) (\<lambda>_ es. opens b Https p request es)"
  unfolding https_via_http_def Let_def
  by (intro post_rules)
    (use assms in \<open>auto simp: opens_def opening_request_def grants_def tunnel_up_def
       intro!: answered_Cons [OF answered_now(2)]\<close>)

lemma https_via_socks4_opens:
  assumes "px_type p = Socks4" and "lines (from_utf8_lossy request) = l # ls"
  shows "returns (https_via_socks4 l) (\<lambda>_ es. opens b Https p request es)"
  unfolding https_via_socks4_def Let_def
  by (intro post_rules)
    (use assms in \<open>auto simp: opens_def opening_request_def hop_request_def grants_def
       intro: answered_now(1)\<close>)

lemma https_via_socks5_opens:
  assumes "px_type p = Socks5" and "lines (from_utf8_lossy request) = l # ls"
  shows "returns (https_via_socks5 l p) (\<lambda>_ es. opens b Https p request es)"
  unfolding https_via_socks5_def Let_def
proof (rule returns_lift_result, rule returns_case_prod)
  fix target host port
  assume "https_target l = Inr target" and "https_host_port target = (host, port)"
  then have req: "opening_request b Https p request = Some (hop_request Socks5 b p host port)"
    using assms by (simp add: opening_request_def)
  have "returns (https_socks5_connect p host port) (\<lambda>_ es. opens b Https p request es)"
    by (rule returns_mono [OF https_socks5.established_returns [of p host port b]])
      (simp add: opens_def req assms granted_def)
  then show "returns (andthen (https_socks5_connect p host port) (write_all Client (as_bytes established)))
     (\<lambda>_ es. opens b Https p request es)"
    by (rule returns_opens_then) (intro wp_rules; simp)
qed

text \<open>The request of a SOCKS4 client, parsed.\<close>

lemma byte_at_Inr: "byte_at bs i w = (Inr x, w') \<longleftrightarrow> i < length bs \<and> x = bs ! i \<and> w' = w"
  by (auto simp: byte_at_def ret_def fault_with_def)

lemma four_bytes: "7 < length xs \<Longrightarrow> take 4 (drop 4 xs) = [xs ! 4, xs ! 5, xs ! 6, xs ! 7]"
  by (rule nth_equalityI) (auto simp: less_Suc_eq numeral_eq_Suc)

lemma socks4_parse_returns:
  "returns (socks4_parse request) (\<lambda>t _.
     socks4_target_host request (dotted (take 4 (drop 4 request))) = Inr (fst t)
     \<and> snd t = port_of (request ! 2) (request ! 3))"
proof (rule returnsI)
  fix w x w'
  assume "socks4_parse request w = (Inr x, w')"
  then show "\<exists>es. w_trace w' = w_trace w @ es
      \<and> socks4_target_host request (dotted (take 4 (drop 4 request))) = Inr (fst x)
      \<and> snd x = port_of (request ! 2) (request ! 3)"
    by (auto simp: socks4_parse_def run_Inr byte_at_Inr four_bytes split: if_splits)
qed

lemma socks4_via_http_opens:
  assumes "px_type p \<in> {Http, Https}" and "opening_request b Socks4 p request = Some (hop_request (px_type p) b p host port)"
  shows "returns (socks4_via_http b host port p) (\<lambda>_ es. opens b Socks4 p request es)"
  unfolding socks4_via_http_def Let_def
  by (intro post_rules)
    (use assms in \<open>auto simp: opens_def hop_request_def grants_def tunnel_up_def intro!: answered_now(1)\<close>)

lemma socks4_via_socks4_opens:
  assumes "px_type p = Socks4"
  shows "returns (socks4_via_socks4 request) (\<lambda>_ es. opens b Socks4 p request es)"
  unfolding socks4_via_socks4_def
  by (intro post_rules)
    (use assms in \<open>auto simp: opens_def opening_request_def grants_def intro: answered_now(1)\<close>)

lemma socks4_via_socks5_opens:
  assumes "px_type p = Socks5" and "opening_request b Socks4 p request = Some (hop_request Socks5 b p host port)"
  shows "returns (socks4_via_socks5 host port p) (\<lambda>_ es. opens b Socks4 p request es)"
proof -
  have "returns (socks4_socks5_connect p host port) (\<lambda>_ es. opens b Socks4 p request es)"
    by (rule returns_mono [OF socks4_socks5.established_returns [of p host port b]])
      (simp add: opens_def assms granted_def)
  then show ?thesis
    unfolding socks4_via_socks5_def by (rule returns_opens_then) (intro wp_rules; simp)
qed

section \<open>The handlers\<close>

lemma http_via_http_forwards:
  "returns (http_via_http b request p) (\<lambda>_ es.
     Did (WriteAll Upstream (http_modified_request b p (from_utf8_lossy request))) (Some R_Done) \<in> set es)"
  unfolding http_via_http_def Let_def by (intro post_rules) simp

definition single_served :: "base64 \<Rightarrow> protocol \<Rightarrow> proxy_config \<Rightarrow> byte list \<Rightarrow> event list \<Rightarrow> bool" where
  "single_served b proto p request es \<longleftrightarrow>
     (if proto = Http \<and> px_type p \<in> {Http, Https}
      then Did (WriteAll Upstream (http_modified_request b p (from_utf8_lossy request))) (Some R_Done) \<in> set es
      else opens b proto p request es)"

lemma single_served_context: "single_served b proto p request es \<Longrightarrow> single_served b proto p request (fs @ es @ gs)"
  by (auto simp: single_served_def opens_context split: if_splits)

lemma returns_branch:
  assumes "returns branch (\<lambda>_ es. single_served b proto p request es)" and "emits (\<lambda>_. True) relay"
  shows "returns (andthen (connect a) (andthen set_nodelay (andthen branch relay)))
    (\<lambda>_ es. single_served b proto p request es)"
proof -
  have "single_served b proto p request (e1 # e2 # es @ gs)" if "single_served b proto p request es" for e1 e2 es gs
    using single_served_context [OF that, of "[e1, e2]" gs] by simp
  then show ?thesis
    by (intro post_rules returns_andthen [OF assms(1)] returns_mono [OF returns_emits [OF assms(2)]])
qed

lemma handlers_serve:
  assumes "emits (\<lambda>_. True) relay"
  shows "returns (http_handle b a request p relay) (\<lambda>_ es. single_served b Http p request es)"
    and "returns (https_handle b a request p relay) (\<lambda>_ es. single_served b Https p request es)"
    and "returns (socks4_handle b a request p relay) (\<lambda>_ es. single_served b Socks4 p request es)"
proof -
  have "returns (case px_type p of Http \<Rightarrow> http_via_http b request p | Https \<Rightarrow> http_via_http b request p
      | Socks4 \<Rightarrow> http_via_socks4 request | Socks5 \<Rightarrow> http_via_socks5 request p)
      (\<lambda>_ es. single_served b Http p request es)"
    using http_via_http_forwards http_via_socks4_opens http_via_socks5_opens
    by (cases "px_type p") (simp_all add: single_served_def)
  from returns_branch [OF this assms]
  show "returns (http_handle b a request p relay) (\<lambda>_ es. single_served b Http p request es)"
    unfolding http_handle_def by (intro returns_case_list returns_fault)
  have "returns (case px_type p of Http \<Rightarrow> https_via_http b l p | Https \<Rightarrow> https_via_http b l p
      | Socks4 \<Rightarrow> https_via_socks4 l | Socks5 \<Rightarrow> https_via_socks5 l p)
      (\<lambda>_ es. single_served b Https p request es)" if "lines (from_utf8_lossy request) = l # ls" for l ls
    using https_via_http_opens https_via_socks4_opens https_via_socks5_opens that
    by (cases "px_type p") (simp_all add: single_served_def)
  from returns_branch [OF this assms]
  show "returns (https_handle b a request p relay) (\<lambda>_ es. single_served b Https p request es)"
    unfolding https_handle_def by (intro returns_case_list returns_fault)
  have branch: "returns (case px_type p of Http \<Rightarrow> socks4_via_http b host port p
      | Https \<Rightarrow> socks4_via_http b host port p | Socks4 \<Rightarrow> socks4_via_socks4 request
      | Socks5 \<Rightarrow> socks4_via_socks5 host port p) (\<lambda>_ es. single_served b Socks4 p request es)"
    if "socks4_target_host request (dotted (take 4 (drop 4 request))) = Inr host"
      "port = port_of (request ! 2) (request ! 3)" for host port
    using that socks4_via_http_opens socks4_via_socks4_opens socks4_via_socks5_opens
    by (cases "px_type p") (simp_all add: single_served_def opening_request_def)
  show "returns (socks4_handle b a request p relay) (\<lambda>_ es. single_served b Socks4 p request es)"
    unfolding socks4_handle_def
  proof (rule returns_await [OF socks4_parse_returns])
    fix x :: "string \<times> u16" and es
    obtain host port where hp: "x = (host, port)" by (cases x)
    assume "socks4_target_host request (dotted (take 4 (drop 4 request))) = Inr (fst x)
      \<and> snd x = port_of (request ! 2) (request ! 3)"
    with hp have t: "socks4_target_host request (dotted (take 4 (drop 4 request))) = Inr host"
      "port = port_of (request ! 2) (request ! 3)" by simp_all
    have "single_served b Socks4 p request (es @ fs)" if "single_served b Socks4 p request fs" for fs
      using single_served_context [OF that, of es "[]"] by simp
    from returns_mono [OF returns_branch [OF branch [OF t] assms] this] show "returns (case x of (host, port) \<Rightarrow>
        andthen (connect a) (andthen set_nodelay (andthen (case px_type p of
          Http \<Rightarrow> socks4_via_http b host port p | Https \<Rightarrow> socks4_via_http b host port p
        | Socks4 \<Rightarrow> socks4_via_socks4 request | Socks5 \<Rightarrow> socks4_via_socks5 host port p) relay)))
        (\<lambda>_ fs. single_served b Socks4 p request (es @ fs))"
      by (simp add: hp)
  qed
qed

lemma single_hop_serves:
  assumes "\<And>b a relay. emits (\<lambda>_. True) relay \<Longrightarrow>
      returns (handler b a request p relay) (\<lambda>_ es. single_served b proto p request es)"
  shows "returns (single_hop cx name handler request p c)
    (\<lambda>_ es. single_served (cx_base64 cx) proto p request es)"
  unfolding single_hop_def
proof (rule returns_await [OF returns_emits [OF authenticate_user_emits]])
  fix user_account and es :: "event list"
  have "emits (\<lambda>_. True) (andthen (emit (ConnResult True m)) (proxy_data peer user_account c))" for m peer
    by (intro wp_rules any_event) simp
  from returns_mono [OF assms [OF this]] show "returns (handler (cx_base64 cx) (get_upstream_addr p) request p
      (andthen (emit (ConnResult True (name @ '' Connection successful for '' @ cx_peer cx)))
        (proxy_data (cx_peer cx) user_account c)))
      (\<lambda>_ fs. single_served (cx_base64 cx) proto p request (es @ fs))"
    using single_served_context [of "cx_base64 cx" proto p request _ es "[]"] by simp
qed

text \<open>The SOCKS5 handler resolves its own chain, from the live upstreams it sees.\<close>

lemma socks5_target_reads: "returns socks5_target (\<lambda>t es. read_target t es)"
proof (rule returnsI)
  fix w t w'
  assume run: "socks5_target w = (Inr t, w')"
  have "emits (\<lambda>_. True) socks5_target"
    unfolding socks5_target_def Let_def by (intro wp_rules) simp_all
  from emitsD [OF this run] obtain es where "w_trace w' = w_trace w @ es" by blast
  with run show "\<exists>es. w_trace w' = w_trace w @ es \<and> read_target t es"
    unfolding read_target_def by (intro exI [of _ es]) (metis append.left_neutral append.right_neutral)
qed

lemma read_target_context: "read_target t es \<Longrightarrow> read_target t (fs @ es @ gs)"
proof -
  assume "read_target t es"
  then obtain before reads after v v' where es: "es = before @ reads @ after"
    and run: "socks5_target v = (Inr t, v')" "w_trace v' = w_trace v @ reads"
    unfolding read_target_def by blast
  have "fs @ es @ gs = (fs @ before) @ reads @ (after @ gs)" by (simp add: es)
  with run show ?thesis unfolding read_target_def by blast
qed

definition socks5_served :: "conn_ctx \<Rightarrow> event list \<Rightarrow> bool" where
  "socks5_served cx es \<longleftrightarrow>
     (\<exists>sel live target. resolve_proxy_chain (cx_rand_socks5 cx) (cx_server_socks5 cx) sel = Inr live
        \<and> read_target target es \<and> chain_up (cx_base64 cx) live target es)"

lemma socks5_served_context: "socks5_served cx es \<Longrightarrow> socks5_served cx (fs @ es @ gs)"
  unfolding socks5_served_def using read_target_context chain_up_context by blast

lemma socks5_open_serves: "returns (socks5_open cx sel) (\<lambda>_ es. socks5_served cx es)"
  unfolding socks5_open_def
proof (rule returns_await [OF socks5_target_reads], rule returns_case_prod)
  fix t host port and a :: "event list"
  assume read: "read_target t a" and t: "t = (host, port)"
  have sel: "emits (\<lambda>_. True) (if is_empty sel then stored_selection cx sel else ret sel)"
    by (intro wp_rules emits_mono [OF stored_selection_emits]) simp
  have up: "socks5_served cx (a @ b @ Histogram m n # c @ es)"
    if "resolve_proxy_chain (cx_rand_socks5 cx) (cx_server_socks5 cx) selection = Inr hops"
      "chain_up (cx_base64 cx) hops (host, port) c" for selection hops b m n c es
  proof -
    have "read_target (host, port) (a @ b @ Histogram m n # c @ es)"
      using read_target_context [OF read, of "[]"] t by simp
    moreover have "chain_up (cx_base64 cx) hops (host, port) (a @ b @ Histogram m n # c @ es)"
      using chain_up_context [OF that(2), of "a @ b @ [Histogram m n]" es] by simp
    ultimately show ?thesis using that(1) unfolding socks5_served_def by blast
  qed
  show "returns (await (if is_empty sel then stored_selection cx sel else ret sel) (\<lambda>selection.
      await (lift_fault (resolve_proxy_chain (cx_rand_socks5 cx) (cx_server_socks5 cx) selection)) (\<lambda>hops.
      andthen (emit (Histogram ''purroute_chain_hops'' (length hops)))
     (andthen (connect_chain (cx_base64 cx) hops host port)
     (andthen (write_all Client socks5_success)
     (andthen (bytes_out (as_u64 (length socks5_success)))
     (andthen (emit (ConnResult True (''SOCKS5 Chain Connection successful for '' @ cx_peer cx)))
       (ret (chain_cost hops)))))))))
     (\<lambda>_ es. socks5_served cx (a @ es))"
    by (intro post_rules returns_await [OF returns_emits [OF sel]]
        returns_chain_then [where R = "\<lambda>_. True"]) (simp_all add: up)
qed

lemma handle_socks5_serves: "returns (handle_socks5 cx request) (\<lambda>_ es. socks5_served cx es)"
  unfolding handle_socks5_def
proof (rule returns_await, rule returns_emits)
  show "emits (\<lambda>_. True) (socks5_negotiate cx request)"
    unfolding socks5_negotiate_def socks5_methods_def socks5_user_auth_def socks5_no_auth_def
      login_def Let_def by (intro wp_rules) simp_all
  fix x :: "i64 option \<times> selection" and a :: "event list"
  have "returns (await (socks5_open cx sel) (\<lambda>c. proxy_data (cx_peer cx) account c)) (\<lambda>_ es. socks5_served cx (a @ es))"
    for account sel
  proof (rule returns_await [OF socks5_open_serves])
    fix c b
    assume "socks5_served cx b"
    from socks5_served_context [OF this, of a]
    show "returns (proxy_data (cx_peer cx) account c) (\<lambda>_ es. socks5_served cx (a @ b @ es))"
      by (intro returns_mono [OF relay_any]) simp
  qed
  then show "returns (case x of (user_account, sel) \<Rightarrow> await (socks5_open cx sel)
      (\<lambda>c. proxy_data (cx_peer cx) user_account c)) (\<lambda>_ es. socks5_served cx (a @ es))"
    by (cases x) simp
qed

section \<open>A connection\<close>

text \<open>What serving a request means, by inbound protocol and number of hops.\<close>

definition served :: "conn_ctx \<Rightarrow> protocol \<Rightarrow> byte list \<Rightarrow> proxy_config list \<Rightarrow> event list \<Rightarrow> bool" where
  "served cx proto request hops es \<longleftrightarrow>
     (if proto = Socks5 then socks5_served cx es
      else if 1 < length hops then
        (\<exists>target. named_target proto request = Inr target \<and> chain_up (cx_base64 cx) hops target es
           \<and> (proto = Http \<longrightarrow> Did (WriteAll Upstream (to_origin_form request)) (Some R_Done) \<in> set es))
      else single_served (cx_base64 cx) proto (hd hops) request es)"

lemma served_prefix: "served cx proto request hops es \<Longrightarrow> served cx proto request hops (fs @ es)"
  using socks5_served_context [of cx es fs "[]"] chain_up_context [of "cx_base64 cx" hops _ es fs "[]"]
    single_served_context [of "cx_base64 cx" proto "hd hops" request es fs "[]"]
  by (auto simp: served_def split: if_splits)

lemma dispatch_serves:
  assumes "hops \<noteq> []" and "p = hd hops"
  shows "returns (dispatch cx proto request hops p) (\<lambda>_ es. served cx proto request hops es)"
proof (cases "1 < length hops")
  case True
  then show ?thesis
    using chain_handlers_serve [of cx request hops] handle_socks5_serves
    by (cases proto) (simp_all add: dispatch_def served_def)
next
  case False
  then show ?thesis
    using single_hop_serves [where handler = http_handle, OF handlers_serve(1)]
      single_hop_serves [where handler = https_handle, OF handlers_serve(2)]
      single_hop_serves [where handler = socks4_handle, OF handlers_serve(3)] handle_socks5_serves assms(2)
    by (cases proto) (simp_all add: dispatch_def served_def)
qed

lemma prelude_reads:
  "returns (connection_prelude cx label) (\<lambda>(proto, request, hops, p) es.
     detect_protocol request = Inr proto \<and> hops \<noteq> [] \<and> p = hd hops
     \<and> (\<exists>sel. resolve_proxy_chain (cx_rand cx) (cx_server cx) sel = Inr hops)
     \<and> (\<exists>rest. es = Did (TimedRead Client 8192) (Some (R_Bytes request)) # rest))"
proof -
  have log: "emits (\<lambda>_. True) (log_path label peer hops)" for peer hops
    unfolding log_path_def by (intro wp_rules) simp_all
  show ?thesis
    unfolding connection_prelude_def
    by (intro post_rules returns_await [OF returns_emits [OF selection_for_emits]]
        returns_andthen [OF returns_emits [OF log]]) auto
qed

lemma connection_body_serves:
  "returns (connection_body cx label) (\<lambda>_ es. \<exists>request proto hops rest.
     es = Did (TimedRead Client 8192) (Some (R_Bytes request)) # rest
     \<and> detect_protocol request = Inr proto
     \<and> (\<exists>sel. resolve_proxy_chain (cx_rand cx) (cx_server cx) sel = Inr hops)
     \<and> served cx proto request hops rest)"
  unfolding connection_body_split
proof (rule returns_await [OF prelude_reads])
  fix x :: "protocol \<times> byte list \<times> proxy_config list \<times> proxy_config" and a :: "event list"
  obtain proto request hops p where x: "x = (proto, request, hops, p)" by (cases x)
  assume "(case x of (proto, request, hops, p) \<Rightarrow> \<lambda>es.
     detect_protocol request = Inr proto \<and> hops \<noteq> [] \<and> p = hd hops
     \<and> (\<exists>sel. resolve_proxy_chain (cx_rand cx) (cx_server cx) sel = Inr hops)
     \<and> (\<exists>rest. es = Did (TimedRead Client 8192) (Some (R_Bytes request)) # rest)) a"
  then obtain sel rest where det: "detect_protocol request = Inr proto" "hops \<noteq> []" "p = hd hops"
    and res: "resolve_proxy_chain (cx_rand cx) (cx_server cx) sel = Inr hops"
    and a: "a = Did (TimedRead Client 8192) (Some (R_Bytes request)) # rest" by (auto simp: x)
  show "returns (case x of (proto, request, hops, p) \<Rightarrow> dispatch cx proto request hops p)
    (\<lambda>_ es. \<exists>request proto hops rest. a @ es = Did (TimedRead Client 8192) (Some (R_Bytes request)) # rest
       \<and> detect_protocol request = Inr proto
       \<and> (\<exists>sel. resolve_proxy_chain (cx_rand cx) (cx_server cx) sel = Inr hops)
       \<and> served cx proto request hops rest)"
    unfolding x prod.case
    by (rule returns_mono [OF dispatch_serves [OF det(2,3)]])
      (use det(1) res a in \<open>auto intro: served_prefix\<close>)
qed

section \<open>Properties\<close>


lemma sample_hops:
  assumes "resolve_proxy_chain sample_rand sample_server sel = Inr hops"
  shows "\<exists>p. hops = [p] \<and> px_type p = Socks5"
proof -
  have sock: "px_type q = Socks5" if "q \<in> set (sv_proxies sample_server)" for q
    using that by (auto simp: sample_server_def server_new_def)
  from assms obtain qs where qs: "resolve_chain_inner sample_rand sample_server sel = Inr qs"
    and hops: "hops = map (\<lambda>(j, p). apply_template sample_rand sel j p) (enumerate 0 qs)"
    by (auto simp: resolve_proxy_chain_Inr)
  have "sv_chains sample_server = None" by (simp add: sample_server_def server_new_def)
  then obtain q where q: "qs = [q]"
    using qs by (auto simp: resolve_chain_inner_def resolve_ref_def resolve_global_chain_def
        split: option.splits list.splits if_splits)
  moreover have "q \<in> set (sv_proxies sample_server)"
    using resolve_inner_set [OF sample_rand_ok qs] q by simp
  ultimately show ?thesis using hops sock by (simp add: enumerate_simps)
qed


end
