(* ===== verification/Own_Admission.thy ===== *)
theory Own_Admission
  imports Connection
begin

text \<open>
  Whose admission it is: what a session does at an upstream, it does on the acceptance of what
  its own client sent, the credentials of its request or of its SOCKS5 login, or of its own
  source address.
\<close>

section \<open>Admissions that a session's own bytes account for\<close>

definition socks5_admission :: "event list \<Rightarrow> event \<Rightarrow> bool" where
  "socks5_admission es e \<longleftrightarrow>
     (\<exists>a raw_username password username sel acc.
        Did (ReadSome Client 513) (Some (R_Bytes a)) \<in> set es
        \<and> socks5_credentials a = Inr (raw_username, password) \<and> parse_username raw_username = Inr (username, sel)
        \<and> e = Did (Authenticate username password) (Some (R_Account (Some acc))) \<and> admissible acc)"

definition client_admission :: "conn_ctx \<Rightarrow> event list \<Rightarrow> event \<Rightarrow> bool" where
  "client_admission cx es e \<longleftrightarrow>
     (\<exists>request. Did (TimedRead Client 8192) (Some (R_Bytes request)) \<in> set es
        \<and> (if detect_protocol request = Inr Socks5 then socks5_admission es e else own_admission cx request e))"

lemma socks5_admission_mono: "socks5_admission es e \<Longrightarrow> set es \<subseteq> set fs \<Longrightarrow> socks5_admission fs e"
  unfolding socks5_admission_def by blast

lemma client_admission_mono: "client_admission cx es e \<Longrightarrow> set es \<subseteq> set fs \<Longrightarrow> client_admission cx fs e"
  unfolding client_admission_def using socks5_admission_mono by (metis subsetD)

lemma guarded_mono: "guarded bad ok es \<Longrightarrow> (\<And>e. ok e \<Longrightarrow> ok' e) \<Longrightarrow> guarded bad ok' es"
  unfolding guarded_def by meson

lemma guarded_between:
  assumes "\<forall>e \<in> set es. \<not> bad e" and "guarded bad ok fs" and "\<forall>e \<in> set gs. \<not> bad e"
    and "\<And>e. ok e \<Longrightarrow> ok' e"
  shows "guarded bad ok' (es @ fs @ gs)"
  by (intro guarded_append guarded_none assms(1,3) guarded_mono [OF assms(2,4)])

section \<open>SOCKS5\<close>

lemma socks5_negotiate_own:
  assumes "auth_enabled (cx_config cx)"
  shows "returns (socks5_negotiate cx request) (\<lambda>x es. \<exists>e \<in> set es. socks5_admission es e)"
proof -
  have "emits (\<lambda>_. True) (socks5_methods request)"
    unfolding socks5_methods_def by (intro wp_rules) simp
  moreover have "returns (socks5_user_auth ms) (\<lambda>x es. \<exists>e \<in> set (fs @ es). socks5_admission (fs @ es) e)" for ms fs
    by (rule returns_mono [OF socks5_user_auth_returns])
      (unfold socks5_admission_def set_append, blast)
  ultimately show ?thesis
    unfolding socks5_negotiate_def using assms by (auto intro: returns_await [OF returns_emits])
qed

lemma handle_socks5_admission:
  assumes "auth_enabled (cx_config cx)"
  shows "leaves (\<lambda>es. guarded upstream_use (socks5_admission es) es) (handle_socks5 cx request)"
  unfolding handle_socks5_def
proof (rule leaves_gate [OF socks5_negotiate_quiet socks5_negotiate_own [OF assms]])
  fix x :: "i64 option \<times> selection" and es
  assume gate: "\<exists>e \<in> set es. socks5_admission es e" and quiet: "\<forall>e \<in> set es. \<not> upstream_use e"
  have "emits (\<lambda>_. True) (case x of (user_account, sel) \<Rightarrow>
      await (socks5_open cx sel) (\<lambda>c. proxy_data (cx_peer cx) user_account c))"
    by (intro wp_rules any_event)
  then show "leaves (\<lambda>fs. guarded upstream_use (socks5_admission (es @ fs)) (es @ fs))
      (case x of (user_account, sel) \<Rightarrow>
         await (socks5_open cx sel) (\<lambda>c. proxy_data (cx_peer cx) user_account c))"
  proof (rule leaves_emits)
    fix fs
    from gate obtain e where "e \<in> set es" "socks5_admission es e" ..
    then show "guarded upstream_use (socks5_admission (es @ fs)) (es @ fs)"
      using quiet by (intro guarded_after [of es _ e]) (auto intro: socks5_admission_mono)
  qed
qed (rule guarded_none)

section \<open>Sessions\<close>

lemma dispatch_admission:
  assumes "auth_enabled (cx_config cx)" and "detect_protocol request = Inr proto"
    and "Did (TimedRead Client 8192) (Some (R_Bytes request)) \<in> set es" and "\<forall>e \<in> set es. \<not> upstream_use e"
  shows "leaves (\<lambda>fs. guarded upstream_use (client_admission cx (es @ fs)) (es @ fs)) (dispatch cx proto request hops p)"
proof (cases "proto = Socks5")
  case True
  then have "leaves (\<lambda>fs. guarded upstream_use (socks5_admission fs) fs) (dispatch cx proto request hops p)"
    by (simp add: dispatch_def handle_socks5_admission assms(1))
  then show ?thesis
  proof (rule leaves_mono)
    fix fs
    assume "guarded upstream_use (socks5_admission fs) fs"
    moreover have "client_admission cx (es @ fs) e" if "socks5_admission fs e" for e
      using assms(2,3) True socks5_admission_mono [OF that, of "es @ fs"]
      unfolding client_admission_def by (intro exI [of _ request]) simp
    ultimately show "guarded upstream_use (client_admission cx (es @ fs)) (es @ fs)"
      using guarded_between [OF assms(4), of _ fs "[]"] by simp
  qed
next
  case False
  show ?thesis
  proof (rule leaves_mono [OF dispatch_own_admission [OF assms(1) False, unfolded guards_leaves]])
    fix fs
    assume "guarded upstream_use (own_admission cx request) fs"
    moreover have "client_admission cx (es @ fs) e" if "own_admission cx request e" for e
      using assms(2,3) False that unfolding client_admission_def by (intro exI [of _ request]) simp
    ultimately show "guarded upstream_use (client_admission cx (es @ fs)) (es @ fs)"
      using guarded_between [OF assms(4), of _ fs "[]"] by simp
  qed
qed

lemma prelude_request:
  "returns (connection_prelude cx label) (\<lambda>x es. case x of (proto, request, hops, p) \<Rightarrow>
     detect_protocol request = Inr proto \<and> Did (TimedRead Client 8192) (Some (R_Bytes request)) \<in> set es)"
proof -
  have log: "emits (\<lambda>_. True) (log_path label peer hops)" for peer hops
    unfolding log_path_def by (intro wp_rules) simp_all
  show ?thesis
    unfolding connection_prelude_def
    by (intro post_rules returns_await [OF returns_emits [OF selection_for_emits]]
        returns_andthen [OF returns_emits [OF log]]) auto
qed

lemma body_client_admission:
  assumes "auth_enabled (cx_config cx)"
  shows "leaves (\<lambda>es. guarded upstream_use (client_admission cx es) es) (connection_body cx label)"
  unfolding connection_body_split
  by (rule leaves_gate [OF prelude_quiet prelude_request])
    (auto intro: guarded_none dispatch_admission [OF assms])

lemma task_client_admission:
  assumes "auth_enabled (cx_config cx)"
  shows "leaves (\<lambda>es. guarded upstream_use (client_admission cx es) es) (connection_task join_error cx label)"
proof (rule task_leaves [OF body_client_admission [OF assms]])
  fix es m
  let ?last = "[ConnResult False m, DecActive]"
  assume "guarded upstream_use (client_admission cx es) es"
  moreover have "client_admission cx (es @ ?last) e" if "client_admission cx es e" for e
    using client_admission_mono [OF that, of "es @ ?last"] by auto
  ultimately show "guarded upstream_use (client_admission cx (es @ ?last)) (es @ ?last)"
    using guarded_between [of "[]" upstream_use _ es ?last] by simp
qed

section \<open>Property\<close>

text \<open>
  C1. The admission is the session's own: whatever a session does at an upstream, for any
  inbound protocol, it does after the backend has accepted, as an account whose allowance is
  not spent, the credentials in the header of the request it read, or its source address when
  that header has none, or the SOCKS5 login the client sent.
\<close>

theorem session_admission:
  assumes "auth_enabled (cx_config cx)" and "connection_task join_error cx label w = (r, w')"
  shows "\<exists>es. w_trace w' = w_trace w @ es \<and> guarded upstream_use (client_admission cx es) es"
  using task_client_admission [OF assms(1)] assms(2) unfolding leaves_def by blast

theorem session_admission_witness:
  "\<exists>w'. connection_task (\<lambda>m. m) sample_ctx None (started (sample_session (R_Bytes []))) = (Inr (), w')
     \<and> guarded upstream_use (client_admission sample_ctx (w_trace w')) (w_trace w')
     \<and> Did (WriteAll Upstream (socks5_request ''t'' 443)) (Some R_Done) \<in> set (w_trace w')"
proof -
  from sample_closed [of "\<lambda>m. m"] obtain w'
    where run: "connection_task (\<lambda>m. m) sample_ctx None (started (sample_session (R_Bytes []))) = (Inr (), w')"
      and tr: "w_trace w' = sample_opened @ [DecActive, InfoLog (''Connection closed for '' @ ''10.0.0.1'')]"
    by blast
  have "auth_enabled (cx_config sample_ctx)" by simp
  from session_admission [OF this run]
  have "guarded upstream_use (client_admission sample_ctx (w_trace w')) (w_trace w')"
    by (auto simp: started_def)
  with run tr show ?thesis
    by (intro exI [of _ w']) (simp add: sample_opened_def sample_granted_def)
qed

end
