(* ===== verification/Charging.thy ===== *)
theory Charging
  imports Connection Metered_Relay
begin

text \<open>
  Who pays for a connection, and what: in every session with authentication on, no byte is
  relayed before the account backend has taken a report of it and answered with allowance
  left, every report is on the one account the backend accepted in that very session, and
  at the price of a live upstream.
\<close>

section \<open>Paid in advance\<close>

text \<open>The call, in a trace: when it is made and when it returns.\<close>

fun charge_of :: "event \<Rightarrow> (i64 \<times> nat \<times> nat \<times> f64) option" where
  "charge_of (Charge i bin bout c) = Some (i, bin, bout, c)"
| "charge_of (Settled i bin bout c res) = Some (i, bin, bout, c)"
| "charge_of _ = None"

definition charges_to :: "i64 \<Rightarrow> event \<Rightarrow> bool" where
  "charges_to aid e \<longleftrightarrow> (\<exists>bin bout c. charge_of e = Some (aid, bin, bout, c))"

fun copied_by :: "direction \<Rightarrow> event \<Rightarrow> nat" where
  "copied_by d (Copied d' bs) = (if d' = d then length bs else 0)"
| "copied_by d _ = 0"

definition allowance_left :: "auth_error + i64 option \<Rightarrow> bool" where
  "allowance_left res = (case res of Inl _ \<Rightarrow> False | Inr None \<Rightarrow> True | Inr (Some n) \<Rightarrow> 0 < n)"

fun cleared_by :: "direction \<Rightarrow> event \<Rightarrow> nat" where
  "cleared_by d (Settled i bin bout c res) =
     (if allowance_left res then (case d of ToUpstream \<Rightarrow> bout | ToClient \<Rightarrow> bin) else 0)"
| "cleared_by d _ = 0"

definition copied :: "direction \<Rightarrow> event list \<Rightarrow> nat" where
  "copied d es = sum_list (map (copied_by d) es)"

definition cleared :: "direction \<Rightarrow> event list \<Rightarrow> nat" where
  "cleared d es = sum_list (map (cleared_by d) es)"

lemma copied_simps [simp]:
  "copied d [] = 0" "copied d (e # es) = copied_by d e + copied d es"
  "copied d (es @ fs) = copied d es + copied d fs"
  by (simp_all add: copied_def)

lemma cleared_simps [simp]:
  "cleared d [] = 0" "cleared d (e # es) = cleared_by d e + cleared d es"
  "cleared d (es @ fs) = cleared d es + cleared d fs"
  by (simp_all add: cleared_def)

text \<open>At every moment, in each direction, at most what has been cleared has been copied.\<close>

definition prepaid :: "event list \<Rightarrow> bool" where
  "prepaid es \<longleftrightarrow> (\<forall>n d. copied d (take n es) \<le> cleared d (take n es))"

definition copies :: "event \<Rightarrow> bool" where
  "copies e \<longleftrightarrow> (\<exists>d bs. e = Copied d bs)"

lemma copied_none: "\<forall>e \<in> set es. \<not> copies e \<Longrightarrow> copied d es = 0"
proof (induction es)
  case (Cons e es)
  then show ?case by (cases e) (auto simp: copies_def)
qed simp

lemma prepaid_total: "prepaid es \<Longrightarrow> copied d es \<le> cleared d es"
  unfolding prepaid_def by (metis order_refl take_all)

lemma prepaid_append:
  assumes "prepaid es" and "prepaid fs"
  shows "prepaid (es @ fs)"
  unfolding prepaid_def
proof (intro allI)
  fix n d
  have "copied d (take n es) \<le> cleared d (take n es)"
    "copied d (take (n - length es) fs) \<le> cleared d (take (n - length es) fs)"
    using assms unfolding prepaid_def by blast+
  then show "copied d (take n (es @ fs)) \<le> cleared d (take n (es @ fs))" by simp
qed

lemma prepaid_none: "\<forall>e \<in> set es. \<not> copies e \<Longrightarrow> prepaid es"
  unfolding prepaid_def by (metis copied_none in_set_takeD le0)

text \<open>A trace stays prepaid when what is appended copies nothing, or its one event is paid.\<close>

lemma prepaid_quiet: "prepaid es \<Longrightarrow> \<forall>e \<in> set fs. \<not> copies e \<Longrightarrow> prepaid (es @ fs)"
  by (simp add: prepaid_append prepaid_none)

lemma prepaid_one:
  assumes "prepaid es" and "\<And>d. copied d (es @ [e]) \<le> cleared d (es @ [e])"
  shows "prepaid (es @ [e])"
  unfolding prepaid_def
proof (intro allI)
  fix n d
  show "copied d (take n (es @ [e])) \<le> cleared d (take n (es @ [e]))"
  proof (cases "n \<le> length es")
    case True
    with assms(1) show ?thesis by (simp add: prepaid_def)
  next
    case False
    then have "take n (es @ [e]) = es @ [e]" by simp
    with assms(2) show ?thesis by simp
  qed
qed

section \<open>The relay\<close>

lemmas outcome_defs = loop_outcome_def on_read_def on_report_def on_write_def on_flush_def goes_def
  ends_io_def count_bytes_def charge_event_def settled_events_def

lemma loop_outcome_trace:
  assumes "loop_outcome m d pc r = Some oc"
  shows "copied d' (oc_events oc) = (if d' = d then length (oc_written oc) else 0)"
    and "(\<forall>e \<in> set (oc_events oc). \<not> copies e) \<or> (\<exists>e. oc_events oc = [e])"
  using assms
  by (auto simp: outcome_defs copies_def
      split: relay_pc.splits resp.splits if_splits option.splits direction.splits prod.splits)

text \<open>What a metered loop may deliver, it has been allowed to by a report that was settled.\<close>

lemma loop_outcome_cleared:
  assumes "loop_outcome m d pc r = Some oc" and "pc_ok pc" and "mt_account m = Some aid"
  shows "length (oc_written oc) + pending (oc_pc oc) \<le> pending pc + cleared d (oc_events oc)"
proof (cases "is_reporting pc")
  case True
  then obtain bs where "pc = Reporting bs" by (cases pc) auto
  with assms show ?thesis
    by (auto simp: outcome_defs pending_def usage_call_def as_u64_def buffer_size_def allowance_left_def
        split: resp.splits option.splits if_splits direction.splits)
next
  case False
  with loop_outcome_committed [OF assms(2,3) False assms(1)] show ?thesis by simp
qed

lemma relay_resumed:
  assumes "relay_step m s t"
  obtains d r oc where "loop_outcome m d (fl_pc (rl_flows s d)) r = Some oc" and "t = apply_outcome d oc s"
    and "rl_events t = rl_events s @ oc_events oc" and "relay_result s = None"
  using assms by (auto elim!: relay_stepE simp: relay_resume_def apply_outcome_def Let_def)

lemma relay_trace:
  "relay_reachable m s \<Longrightarrow> copied d (rl_events s) = length (fl_delivered (rl_flows s d))"
proof (induction rule: relay_reachable.induct)
  case start
  show ?case by (simp add: relay_start_def)
next
  case (step s t)
  from step.hyps(2) show ?case
    by (rule relay_resumed) (use step.IH in \<open>auto simp: loop_outcome_trace(1) apply_outcome_def Let_def\<close>)
qed

lemma relay_cleared:
  "relay_reachable m s \<Longrightarrow> mt_account m = Some aid \<Longrightarrow> committed s d \<le> cleared d (rl_events s)"
proof (induction rule: relay_reachable.induct)
  case start
  show ?case by (simp add: relay_start_def committed_def pending_def)
next
  case (step s t)
  from step.hyps(2) show ?case
  proof (rule relay_resumed)
    fix d' r oc
    assume oc: "loop_outcome m d' (fl_pc (rl_flows s d')) r = Some oc" and t: "t = apply_outcome d' oc s"
      and es: "rl_events t = rl_events s @ oc_events oc" and run: "relay_result s = None"
    have "pc_ok (fl_pc (rl_flows s d'))"
      using relay_flow_ok [OF step.hyps(1), of d'] by (simp add: flow_ok_def)
    from loop_outcome_cleared [OF oc this step.prems] step.IH [OF step.prems] show ?thesis
      unfolding es unfolding t
      by (cases "d = d'") (simp_all add: committed_apply, simp add: committed_def)
  qed
qed

lemma relay_prepaid_total:
  assumes "relay_reachable m s" and "mt_account m = Some aid"
  shows "copied d (rl_events s) \<le> cleared d (rl_events s)"
  using relay_cleared [OF assms, of d] relay_trace [OF assms(1), of d] by (simp add: committed_def)

lemma relay_prepaid: "relay_reachable m s \<Longrightarrow> mt_account m = Some aid \<Longrightarrow> prepaid (rl_events s)"
proof (induction rule: relay_reachable.induct)
  case start
  show ?case by (simp add: relay_start_def prepaid_none)
next
  case (step s t)
  from step.hyps(2) show ?case
  proof (rule relay_resumed)
    fix d r oc
    assume oc: "loop_outcome m d (fl_pc (rl_flows s d)) r = Some oc"
      and es: "rl_events t = rl_events s @ oc_events oc"
    from loop_outcome_trace(2) [OF oc] show ?thesis
    proof
      assume "\<exists>e. oc_events oc = [e]"
      then obtain e where e: "oc_events oc = [e]" ..
      have "relay_reachable m t" using step.hyps by (rule relay_reachable.step)
      from relay_prepaid_total [OF this step.prems] step.IH [OF step.prems] show ?thesis
        unfolding es e by (rule prepaid_one [rotated])
    qed (use step.IH [OF step.prems] es in \<open>simp add: prepaid_quiet\<close>)
  qed
qed

text \<open>All of it is charged to the relay's account, at its price, a buffer at a time.\<close>

lemma loop_outcome_charge:
  assumes "loop_outcome m d pc r = Some oc" and "pc_ok pc" and "e \<in> set (oc_events oc)"
    and "charge_of e = Some (i, bin, bout, c)"
  shows "mt_account m = Some i \<and> c = mt_cost m \<and> bin + bout \<le> buffer_size"
  using assms
  by (auto simp: outcome_defs usage_call_def as_u64_def buffer_size_def
      split: relay_pc.splits resp.splits if_splits option.splits direction.splits prod.splits)

lemma relay_charge:
  "relay_reachable m s \<Longrightarrow> e \<in> set (rl_events s) \<Longrightarrow> charge_of e = Some (i, bin, bout, c) \<Longrightarrow>
    mt_account m = Some i \<and> c = mt_cost m \<and> bin + bout \<le> buffer_size"
proof (induction rule: relay_reachable.induct)
  case start
  then show ?case by (simp add: relay_start_def)
next
  case (step s t)
  from step.hyps(2) show ?case
  proof (rule relay_resumed)
    fix d r oc
    assume oc: "loop_outcome m d (fl_pc (rl_flows s d)) r = Some oc"
      and es: "rl_events t = rl_events s @ oc_events oc"
    have "pc_ok (fl_pc (rl_flows s d))"
      using relay_flow_ok [OF step.hyps(1), of d] by (simp add: flow_ok_def)
    from step.IH loop_outcome_charge [OF oc this] step.prems show ?thesis by (auto simp: es)
  qed
qed

section \<open>The handlers\<close>

text \<open>
  \<open>paid aid C\<close>: prepaid, and every charge is on the account \<open>aid\<close>, at a price in \<open>C\<close>, for at most
  one buffer.  \<open>own_account C\<close>: the same for some account that the backend accepted, with an
  allowance not yet spent, before the first charge.
\<close>

definition paid :: "i64 \<Rightarrow> f64 set \<Rightarrow> event list \<Rightarrow> bool" where
  "paid aid C es \<longleftrightarrow> prepaid es
     \<and> (\<forall>e \<in> set es. \<forall>i bin bout c. charge_of e = Some (i, bin, bout, c) \<longrightarrow>
          i = aid \<and> c \<in> C \<and> bin + bout \<le> buffer_size)"

fun accepted_as :: "i64 \<Rightarrow> event \<Rightarrow> bool" where
  "accepted_as aid (Did (Authenticate _ _) (Some (R_Account (Some acc)))) \<longleftrightarrow> acc_id acc = aid \<and> admissible acc"
| "accepted_as aid (Did (AuthenticateByIp _) (Some (R_Account (Some acc)))) \<longleftrightarrow> acc_id acc = aid \<and> admissible acc"
| "accepted_as aid _ \<longleftrightarrow> False"

definition own_account :: "f64 set \<Rightarrow> event list \<Rightarrow> bool" where
  "own_account C es \<longleftrightarrow> (\<exists>aid. paid aid C es \<and> guarded (charges_to aid) (accepted_as aid) es)"

definition uncharged :: "event \<Rightarrow> bool" where
  "uncharged e \<longleftrightarrow> \<not> copies e \<and> charge_of e = None"

lemma plain_uncharged: "plain_event e \<Longrightarrow> uncharged e"
  by (cases e) (simp_all add: uncharged_def copies_def)

lemma uncharged_events [simp]: "uncharged DecActive" "uncharged (InfoLog m)" "uncharged (ConnResult b m)"
  by (simp_all add: uncharged_def copies_def)

lemma uncharged_paid: "\<forall>e \<in> set es. uncharged e \<Longrightarrow> paid aid C es"
  by (auto simp: paid_def uncharged_def intro: prepaid_none)

lemma uncharged_not: "uncharged e \<Longrightarrow> \<not> charges_to aid e"
  by (simp add: uncharged_def charges_to_def)

lemma uncharged_guarded: "\<forall>e \<in> set es. uncharged e \<Longrightarrow> guarded (charges_to aid) ok es"
  by (simp add: guarded_none uncharged_not)

lemma uncharged_own: "\<forall>e \<in> set es. uncharged e \<Longrightarrow> own_account C es"
  by (simp add: own_account_def uncharged_paid uncharged_guarded)

lemma paid_append: "paid aid C es \<Longrightarrow> paid aid C fs \<Longrightarrow> paid aid C (es @ fs)"
  by (auto simp: paid_def prepaid_append)

lemma own_append_uncharged:
  "\<forall>e \<in> set es. uncharged e \<Longrightarrow> own_account C fs \<Longrightarrow> own_account C (es @ fs)"
  "\<forall>e \<in> set es. uncharged e \<Longrightarrow> own_account C fs \<Longrightarrow> own_account C (fs @ es)"
  unfolding own_account_def using uncharged_paid uncharged_guarded paid_append guarded_append by meson+

text \<open>What is charged to the account accepted first is charged to an accepted account.\<close>

lemma accepted_then_paid:
  assumes "\<forall>e \<in> set es. uncharged e" and "e \<in> set es" "accepted_as aid e" and "paid aid C fs"
  shows "own_account C (es @ fs)"
  unfolding own_account_def
  using uncharged_paid [OF assms(1)] assms
  by (intro exI [of _ aid] conjI paid_append guarded_after [of es _ e]) (simp_all add: uncharged_not)

text \<open>Parts that copy nothing may come before a part that pays.\<close>

lemma pays_await:
  "emits plain_event m \<Longrightarrow> (\<And>x. leaves (paid aid C) (k x)) \<Longrightarrow> leaves (paid aid C) (await m k)"
  by (rule leaves_await [OF leaves_emits]) (auto intro: uncharged_paid plain_uncharged paid_append)

lemma own_gate_returns:
  assumes plain: "emits plain_event m" and "returns m (\<lambda>x es. R x)"
    and rest: "\<And>x. R x \<Longrightarrow> leaves (own_account C) (k x)"
  shows "leaves (own_account C) (await m k)"
  by (rule leaves_gate [OF plain assms(2)])
    (auto intro: leaves_mono [OF rest] uncharged_own own_append_uncharged plain_uncharged)

lemma own_await:
  "emits plain_event m \<Longrightarrow> (\<And>x. leaves (own_account C) (k x)) \<Longrightarrow> leaves (own_account C) (await m k)"
  by (rule own_gate_returns [where R = "\<lambda>_. True"]) (auto intro: returns_mono [OF returns_emits])

lemma pays_andthen:
  "emits plain_event m \<Longrightarrow> leaves (paid aid C) k \<Longrightarrow> leaves (paid aid C) (andthen m k)"
  unfolding andthen_def by (rule pays_await)

lemma own_andthen:
  "emits plain_event m \<Longrightarrow> leaves (own_account C) k \<Longrightarrow> leaves (own_account C) (andthen m k)"
  unfolding andthen_def by (rule own_await)

lemma pays_fault: "leaves (paid aid C) (fault_with f)"
  by (rule leaves_emits [OF emits_fault]) (rule uncharged_paid)

lemma own_gate:
  assumes plain: "emits plain_event m"
    and gate: "returns m (\<lambda>x es. \<exists>aid. f x = Some aid \<and> (\<exists>e \<in> set es. accepted_as aid e))"
    and rest: "\<And>x aid. f x = Some aid \<Longrightarrow> leaves (paid aid C) (k x)"
  shows "leaves (own_account C) (await m k)"
  by (rule leaves_gate [OF plain gate])
    (auto intro: leaves_mono [OF rest] accepted_then_paid uncharged_own plain_uncharged)

section \<open>Each handler pays\<close>

text \<open>The prices of the upstreams that were live when the connection resolved its chain.\<close>

definition live_prices :: "conn_ctx \<Rightarrow> f64 set" where
  "live_prices cx = px_cost_per_byte ` (set (sv_proxies (cx_server cx)) \<union> set (sv_proxies (cx_server_socks5 cx)))"

lemma chain_cost_live:
  assumes "rand_ok rnd" and "resolve_proxy_chain rnd s sel = Inr hops" and "hops \<noteq> []"
  shows "chain_cost hops \<in> px_cost_per_byte ` set (sv_proxies s)"
proof -
  from assms(2) obtain qs where qs: "resolve_chain_inner rnd s sel = Inr qs"
    and hops: "hops = map (\<lambda>(j, p). apply_template rnd sel j p) (enumerate 0 qs)"
    by (auto simp: resolve_proxy_chain_Inr)
  with assms(3) obtain q rest where "qs = q # rest" by (cases qs) auto
  with hops resolve_inner_set [OF assms(1) qs] show ?thesis
    by (auto simp: chain_cost_def enumerate_simps)
qed

lemma select_loops_pays:
  assumes "c \<in> C"
  shows "leaves (paid aid C) (select_loops \<lparr>mt_account = Some aid, mt_cost = c, mt_peer = peer\<rparr>)"
    (is "leaves _ (select_loops ?m)")
  unfolding leaves_def
proof (intro allI impI)
  fix w r w'
  assume "select_loops ?m w = (r, w')"
  moreover obtain res s rs where run: "relay_run ?m relay_start (w_script w) = (res, s, rs)"
    by (cases "relay_run ?m relay_start (w_script w)") auto
  ultimately have "w_trace w' = w_trace w @ rl_events s"
    by (auto simp: select_loops_def split: option.splits)
  moreover have reach: "relay_reachable ?m s" using relay_run_from_start [OF run] by simp
  ultimately show "\<exists>es. w_trace w' = w_trace w @ es \<and> paid aid C es"
    using relay_prepaid [OF reach] relay_charge [OF reach] assms by (fastforce simp: paid_def)
qed

lemma proxy_data_pays:
  assumes "c \<in> C"
  shows "leaves (paid aid C) (proxy_data peer (Some aid) c)"
  unfolding proxy_data_def
proof (rule leaves_await [OF select_loops_pays [OF assms] _ paid_append])
  fix result
  have "emits uncharged (andthen (emit DecActive)
      (andthen (emit (InfoLog (''Connection closed for '' @ peer))) (lift_result result)))"
    by (intro wp_rules) simp_all
  then show "leaves (paid aid C) (andthen (emit DecActive)
      (andthen (emit (InfoLog (''Connection closed for '' @ peer))) (lift_result result)))"
    by (rule leaves_emits) (rule uncharged_paid)
qed

lemma handlers_pay:
  assumes "leaves (paid aid C) relay"
  shows "leaves (paid aid C) (http_handle b a request p relay)"
    and "leaves (paid aid C) (https_handle b a request p relay)"
    and "leaves (paid aid C) (socks4_handle b a request p relay)"
  unfolding http_handle_def https_handle_def socks4_handle_def
  by (intro pays_await pays_andthen leaves_case_list leaves_case_prod pays_fault wp_rules
      branches_plain assms; simp)+

lemma own_gate_user:
  assumes "auth_enabled (cx_config cx)" and "\<And>aid. leaves (paid aid C) (k (Some aid))"
  shows "leaves (own_account C) (await (authenticate_user cx request) k)"
proof (rule own_gate [OF plain_parts(1), where f = "\<lambda>x. x"])
  show "returns (authenticate_user cx request)
      (\<lambda>x es. \<exists>aid. x = Some aid \<and> (\<exists>e \<in> set es. accepted_as aid e))"
    by (rule returns_mono [OF authenticate_user_returns [OF assms(1)]])
      (auto simp: admission_op_def split: if_splits)
qed (use assms(2) in simp)

lemma single_hop_own:
  assumes "auth_enabled (cx_config cx)" and "c \<in> C"
    and "\<And>aid b a r p relay. leaves (paid aid C) relay \<Longrightarrow> leaves (paid aid C) (handler b a r p relay)"
  shows "leaves (own_account C) (single_hop cx name handler request p c)"
  unfolding single_hop_def
  by (intro own_gate_user pays_andthen wp_rules assms proxy_data_pays) simp_all

lemma chain_handlers_own:
  assumes "auth_enabled (cx_config cx)" and "chain_cost hops \<in> C"
  shows "leaves (own_account C) (handle_socks4_chain cx request hops)"
    and "leaves (own_account C) (handle_https_chain cx request hops)"
    and "leaves (own_account C) (handle_http_chain cx request hops)"
  unfolding handle_socks4_chain_def handle_https_chain_def handle_http_chain_def Let_def
  by (intro own_gate_user own_andthen pays_await pays_andthen leaves_case_prod plain_parts assms wp_rules
      proxy_data_pays; simp)+

lemma socks5_negotiate_accepts:
  assumes "auth_enabled (cx_config cx)"
  shows "returns (socks5_negotiate cx request)
    (\<lambda>x es. \<exists>aid. fst x = Some aid \<and> (\<exists>e \<in> set es. accepted_as aid e))"
proof -
  have "emits (\<lambda>_. True) (socks5_methods request)"
    unfolding socks5_methods_def by (intro wp_rules) simp
  moreover have "returns (socks5_user_auth ms)
      (\<lambda>x es. \<exists>aid. fst x = Some aid \<and> (\<exists>e \<in> set (fs @ es). accepted_as aid e))" for ms fs
    by (rule returns_mono [OF socks5_user_auth_returns]) force
  ultimately show ?thesis
    unfolding socks5_negotiate_def using assms by (auto intro: returns_await [OF returns_emits])
qed

lemma returns_nonempty_chain:
  assumes "hops \<noteq> [] \<Longrightarrow> returns k (\<lambda>x es. R x)"
  shows "returns (andthen (connect_chain b hops h q) k) (\<lambda>x es. R x)"
proof (cases hops)
  case Nil
  then show ?thesis by (simp add: connect_chain_def andthen_def io_simps returns_fault)
next
  case (Cons p ps)
  then show ?thesis by (intro returns_andthen [OF returns_emits [OF plain_parts(6)]] assms) simp
qed

lemma socks5_open_live_price:
  assumes "rand_ok (cx_rand_socks5 cx)"
  shows "returns (socks5_open cx sel) (\<lambda>c es. c \<in> live_prices cx)"
proof -
  have "emits (\<lambda>_. True) socks5_target" unfolding socks5_target_def Let_def by (intro wp_rules) simp_all
  moreover have "emits (\<lambda>_. True) (if is_empty sel then stored_selection cx sel else ret sel)"
    by (intro wp_rules emits_True [OF stored_selection_emits])
  ultimately show ?thesis
    unfolding socks5_open_def
    by (intro post_rules returns_await [OF returns_emits] returns_nonempty_chain)
      (use chain_cost_live [OF assms] in \<open>auto simp: live_prices_def image_Un\<close>)
qed

lemma handle_socks5_own:
  assumes "auth_enabled (cx_config cx)" and "rand_ok (cx_rand_socks5 cx)"
  shows "leaves (own_account (live_prices cx)) (handle_socks5 cx request)"
  unfolding handle_socks5_def
proof (rule own_gate [OF socks5_negotiate_plain socks5_negotiate_accepts [OF assms(1)]])
  fix x :: "i64 option \<times> selection" and aid
  assume "fst x = Some aid"
  then obtain sel where x: "x = (Some aid, sel)" by (cases x) simp
  show "leaves (paid aid (live_prices cx)) (case x of (user_account, sel) \<Rightarrow>
      await (socks5_open cx sel) (\<lambda>c. proxy_data (cx_peer cx) user_account c))"
    unfolding x prod.case
    by (rule leaves_gate [OF socks5_open_plain socks5_open_live_price [OF assms(2)]])
      (auto intro!: leaves_mono [OF proxy_data_pays] paid_append intro: uncharged_paid plain_uncharged)
qed

lemma dispatch_own:
  assumes "auth_enabled (cx_config cx)" and "rand_ok (cx_rand_socks5 cx)" and "chain_cost hops \<in> live_prices cx"
  shows "leaves (own_account (live_prices cx)) (dispatch cx proto request hops p)"
  using assms
  by (cases proto)
    (simp_all add: dispatch_def handle_socks5_own chain_handlers_own single_hop_own handlers_pay)

lemma connection_body_own:
  assumes "auth_enabled (cx_config cx)" and "rand_ok (cx_rand cx)" and "rand_ok (cx_rand_socks5 cx)"
  shows "leaves (own_account (live_prices cx)) (connection_body cx label)"
  unfolding connection_body_split
proof (rule own_gate_returns [OF prelude_plain])
  show "returns (connection_prelude cx label)
      (\<lambda>x es. case x of (proto, request, hops, p) \<Rightarrow> chain_cost hops \<in> live_prices cx)"
    by (rule returns_mono [OF prelude_returns])
      (use chain_cost_live [OF assms(2)] in \<open>auto simp: live_prices_def image_Un\<close>)
qed (use assms in \<open>auto intro: dispatch_own\<close>)

lemma connection_task_own:
  "auth_enabled (cx_config cx) \<Longrightarrow> rand_ok (cx_rand cx) \<Longrightarrow> rand_ok (cx_rand_socks5 cx) \<Longrightarrow>
    leaves (own_account (live_prices cx)) (connection_task join_error cx label)"
  by (rule task_leaves [OF connection_body_own]) (simp_all add: own_append_uncharged)

section \<open>Property\<close>

text \<open>A session that relays three bytes and ends; the backend answers what is left.\<close>

definition sample_traffic :: "i64 \<Rightarrow> resp list" where
  "sample_traffic left = butlast (sample_session (R_Bytes [])) @ map (R_Relay ToUpstream)
     [R_Bytes [1, 2, 3], R_Remaining (Some left), R_Wrote 3, R_Done, R_Bytes []]"

definition sample_relayed :: "i64 \<Rightarrow> event list" where
  "sample_relayed left = [BytesOut 3, Counter ''purroute_bytes_out_total'' 3, Charge 7 0 3 f64_one,
     Settled 7 0 3 f64_one (Inr (Some left)), Copied ToUpstream [1, 2, 3], DecActive,
     InfoLog (''Connection closed for '' @ ''10.0.0.1'')]"

lemma sample_traffic_relay:
  assumes "0 < left"
  shows "proxy_data ''10.0.0.1'' (Some 7) f64_one \<lparr>w_script = map (R_Relay ToUpstream)
       [R_Bytes [1, 2, 3], R_Remaining (Some left), R_Wrote 3, R_Done, R_Bytes []], w_trace = tr\<rparr> =
     (Inr (), \<lparr>w_script = [], w_trace = tr @ sample_relayed left\<rparr>)"
  using assms
  by (simp add: proxy_data_def select_loops_def relay_resume_def outcome_defs apply_outcome_def
      relay_start_def relay_result_def buffer_size_def usage_call_def as_u64_def await_def andthen_def
      emit_def lift_result_def ret_def sample_relayed_def Let_def)

lemma sample_traffic_run:
  "0 < left \<Longrightarrow> connection_task join_error sample_ctx None (started (sample_traffic left)) =
     (Inr (), \<lparr>w_script = [], w_trace = sample_opened @ sample_relayed left\<rparr>)"
  using sample_dispatch sample_traffic_relay
  by (simp add: connection_task_def handle_connection_def connection_body_split started_def
      sample_traffic_def sample_session_def sample_prelude await_def sample_opened_def)

lemma sample_ctx_priced [simp]:
  "rand_ok (cx_rand sample_ctx)" "rand_ok (cx_rand_socks5 sample_ctx)" "live_prices sample_ctx = {f64_one}"
  by (simp_all add: sample_ctx_def sample_rand_ok live_prices_def sample_server_def server_new_def
      sample_proxy_def)



end
