(* ===== verification/Sessions.thy ===== *)
theory Sessions
  imports Charging
begin

text \<open>
  Whole sessions together with the account backend that answers their reports: however many
  there are, on whatever protocols and in whatever order their reports reach the backend,
  an account's sessions together relay less than its allowance.
\<close>

section \<open>Sessions\<close>

text \<open>A task: its connection, what it was answered, and what it did.\<close>

type_synonym task = "conn_ctx \<times> string option \<times> resp list \<times> event list"

definition task_trace :: "task \<Rightarrow> event list" where
  "task_trace t = (case t of (cx, label, script, es) \<Rightarrow> es)"

definition task_ran :: "(string \<Rightarrow> string) \<Rightarrow> task \<Rightarrow> bool" where
  "task_ran join_error t \<longleftrightarrow>
     (case t of (cx, label, script, es) \<Rightarrow>
        \<exists>r w'. connection_task join_error cx label (started script) = (r, w') \<and> w_trace w' = es)"

text \<open>Authentication is on, and every upstream costs at least one unit per byte.\<close>

definition billed :: "conn_ctx \<Rightarrow> bool" where
  "billed cx \<longleftrightarrow> auth_enabled (cx_config cx) \<and> rand_ok (cx_rand cx) \<and> rand_ok (cx_rand_socks5 cx)
     \<and> (\<forall>c \<in> live_prices cx. full_price c)"

definition relayed_for :: "i64 \<Rightarrow> event list \<Rightarrow> nat" where
  "relayed_for aid es =
     (if \<exists>e \<in> set es. charges_to aid e then copied ToUpstream es + copied ToClient es else 0)"

definition relayed :: "i64 \<Rightarrow> task list \<Rightarrow> nat" where
  "relayed aid tasks = sum_list (map (\<lambda>t. relayed_for aid (task_trace t)) tasks)"

section \<open>The backend's side\<close>

text \<open>
  The backend executes the reports it has answered, in the order of the list, and each
  answer is the one it gives.
\<close>

fun replay :: "'s reporter \<Rightarrow> event list \<Rightarrow> 's \<Rightarrow> 's option" where
  "replay report [] s = Some s"
| "replay report (Settled i bin bout c res # es) s =
     (case report s i bin bout c of (res', s') \<Rightarrow> if res' = res then replay report es s' else None)"
| "replay report (_ # es) s = replay report es s"

text \<open>The bytes of the reports that left the account some allowance.\<close>

fun cleared_for :: "i64 \<Rightarrow> event \<Rightarrow> nat" where
  "cleared_for aid (Settled i bin bout c res) =
     (if i = aid \<and> allowance_left res \<and> full_price c \<and> bin + bout < 2 ^ 53 then bin + bout else 0)"
| "cleared_for aid _ = 0"

definition cleared_total :: "i64 \<Rightarrow> event list \<Rightarrow> nat" where
  "cleared_total aid es = sum_list (map (cleared_for aid) es)"

lemma cleared_total_simps [simp]:
  "cleared_total aid [] = 0" "cleared_total aid (e # es) = cleared_for aid e + cleared_total aid es"
  "cleared_total aid (es @ fs) = cleared_total aid es + cleared_total aid fs"
  by (simp_all add: cleared_total_def)

lemma cleared_total_mset: "mset es \<subseteq># mset fs \<Longrightarrow> cleared_total aid es \<le> cleared_total aid fs"
proof -
  assume "mset es \<subseteq># mset fs"
  then obtain A where "mset fs = mset es + A" by (auto simp: mset_subset_eq_exists_conv)
  then have "sum_mset (image_mset (cleared_for aid) (mset fs)) =
      sum_mset (image_mset (cleared_for aid) (mset es)) + sum_mset (image_mset (cleared_for aid) A)"
    by simp
  then show ?thesis by (simp add: cleared_total_def flip: sum_mset_sum_list)
qed

context metering
begin

text \<open>
  What was cleared for an account and what is left of its balance never exceed the balance
  it had; and whenever something was cleared, something was left then.
\<close>

lemma report_cleared:
  assumes rep: "report_usage s i bin bout c = (res, s')" and inv: "invar s" and i: "in_i64 i"
    and aid: "in_i64 aid" and bal: "balance s aid = Some (Some b)" and b: "0 \<le> b"
  shows "\<exists>b'. balance s' aid = Some (Some b') \<and> 0 \<le> b' \<and> b' \<le> b
     \<and> (cleared_for aid (Settled i bin bout c res) = 0
        \<or> 0 < b' \<and> int (cleared_for aid (Settled i bin bout c res)) + b' \<le> b)"
proof (cases "\<exists>rem. res = Inr rem \<and> i = aid")
  case True
  then obtain rem where res: "res = Inr rem" "i = aid" by blast
  from report_limited [OF inv aid rep [unfolded res] bal]
  have lim: "rem = Some (max 0 (b - usage_debit bin bout c))"
    "balance s' aid = Some (Some (max 0 (b - usage_debit bin bout c)))" by simp_all
  then show ?thesis
    using b usage_debit_full [of c bin bout] usage_debit_nonneg [of bin bout c]
    by (auto simp: res allowance_left_def max_def)
next
  case False
  then have "cleared_for aid (Settled i bin bout c res) = 0"
    by (auto simp: allowance_left_def split: sum.split)
  moreover have "balance s' aid = Some (Some b)"
    using report_step_balance [OF inv i aid, of bin bout c] False bal rep by (auto split: sum.split)
  ultimately show ?thesis using b by simp
qed

lemma replay_cleared:
  "replay report_usage es s = Some s' \<Longrightarrow> invar s \<Longrightarrow> balance s aid = Some (Some b) \<Longrightarrow> 0 \<le> b \<Longrightarrow>
    in_i64 aid \<Longrightarrow> \<forall>e \<in> set es. \<forall>i. charges_to i e \<longrightarrow> in_i64 i \<Longrightarrow>
    cleared_total aid es = 0 \<or> int (cleared_total aid es) < b"
proof (induction es arbitrary: s b)
  case (Cons e es)
  show ?case
  proof (cases "\<exists>i bin bout c res. e = Settled i bin bout c res")
    case True
    then obtain i bin bout c res where e: "e = Settled i bin bout c res" by blast
    with Cons.prems(1) obtain s1 where rep: "report_usage s i bin bout c = (res, s1)"
      and rest: "replay report_usage es s1 = Some s'" by (auto split: prod.splits if_splits)
    have i: "in_i64 i" using Cons.prems(6) by (simp add: e charges_to_def)
    have inv: "invar s1" using report_step_invar [OF Cons.prems(2), of i bin bout c] rep by simp
    from report_cleared [OF rep Cons.prems(2) i Cons.prems(5,3,4)] obtain b' where
      b': "balance s1 aid = Some (Some b')" "0 \<le> b'" "b' \<le> b"
        "cleared_for aid e = 0 \<or> 0 < b' \<and> int (cleared_for aid e) + b' \<le> b" unfolding e by blast
    have "cleared_total aid es = 0 \<or> int (cleared_total aid es) < b'"
      using Cons.IH [OF rest inv b'(1,2) Cons.prems(5)] Cons.prems(6) by simp
    with b'(3,4) show ?thesis by auto
  next
    case False
    with Cons show ?thesis by (cases e) auto
  qed
qed simp

end

section \<open>The sessions' side\<close>

lemma charge_cleared:
  assumes "\<forall>i bin bout c. charge_of e = Some (i, bin, bout, c) \<longrightarrow>
      i = aid \<and> full_price c \<and> bin + bout \<le> buffer_size"
  shows "cleared_by ToUpstream e + cleared_by ToClient e \<le> cleared_for aid e"
  using assms by (cases e) (auto simp: buffer_size_def)

lemma paid_cleared:
  "\<forall>e \<in> set es. \<forall>i bin bout c. charge_of e = Some (i, bin, bout, c) \<longrightarrow>
      i = aid \<and> full_price c \<and> bin + bout \<le> buffer_size \<Longrightarrow>
    cleared ToUpstream es + cleared ToClient es \<le> cleared_total aid es"
proof (induction es)
  case (Cons e es)
  then have "cleared_by ToUpstream e + cleared_by ToClient e \<le> cleared_for aid e"
    by (intro charge_cleared) simp
  with Cons show ?case by simp
qed simp

lemma relayed_cleared:
  assumes own: "own_account C es" and C: "\<forall>c \<in> C. full_price c"
  shows "relayed_for aid es \<le> cleared_total aid es"
proof (cases "\<exists>e \<in> set es. charges_to aid e")
  case True
  from own obtain a where paid: "paid a C es" by (auto simp: own_account_def)
  with True have "a = aid" by (auto simp: paid_def charges_to_def)
  with paid C have clear: "cleared ToUpstream es + cleared ToClient es \<le> cleared_total aid es"
    by (intro paid_cleared) (auto simp: paid_def)
  have "copied d es \<le> cleared d es" for d
    using paid by (intro prepaid_total) (simp add: paid_def)
  from this [of ToUpstream] this [of ToClient] clear show ?thesis
    unfolding relayed_for_def by simp
qed (simp add: relayed_for_def)

lemma task_relayed_cleared:
  assumes "task_ran join_error t" and "billed (fst t)"
  shows "relayed_for aid (task_trace t) \<le> cleared_total aid (task_trace t)"
proof -
  obtain cx label script es where t: "t = (cx, label, script, es)" by (cases t)
  with assms obtain r w' where run: "connection_task join_error cx label (started script) = (r, w')"
    and es: "w_trace w' = es" by (auto simp: task_ran_def)
  from assms(2) have b: "auth_enabled (cx_config cx)" "rand_ok (cx_rand cx)" "rand_ok (cx_rand_socks5 cx)"
    "\<forall>c \<in> live_prices cx. full_price c" by (simp_all add: billed_def t)
  from connection_task_own [OF b(1-3), of join_error label] run es
  have "own_account (live_prices cx) es" by (fastforce simp: leaves_def started_def)
  from relayed_cleared [OF this b(4)] show ?thesis by (simp add: t task_trace_def)
qed

lemma tasks_relayed_cleared:
  "list_all (task_ran join_error) tasks \<Longrightarrow> list_all (\<lambda>t. billed (fst t)) tasks \<Longrightarrow>
    relayed aid tasks \<le> cleared_total aid (concat (map task_trace tasks))"
  by (induction tasks) (auto simp: relayed_def intro: add_mono task_relayed_cleared)

context metering
begin

lemma sessions_within:
  assumes "list_all (task_ran join_error) tasks" and "list_all (\<lambda>t. billed (fst t)) tasks"
    and "mset (concat (map task_trace tasks)) \<subseteq># mset es" and "replay report_usage es s = Some s'"
    and "invar s" and "balance s aid = Some (Some b)" and "0 \<le> b"
    and "in_i64 aid" and "\<forall>e \<in> set es. \<forall>i. charges_to i e \<longrightarrow> in_i64 i"
  shows "relayed aid tasks = 0 \<or> int (relayed aid tasks) < b"
  using tasks_relayed_cleared [OF assms(1,2), of aid] cleared_total_mset [OF assms(3), of aid]
    replay_cleared [OF assms(4-9)] by linarith

end

section \<open>Properties\<close>


text \<open>Two sessions of one account, the second's report answered first.\<close>

definition sample_pair :: "task list" where
  "sample_pair = map (\<lambda>left. (sample_ctx, None, sample_traffic left, sample_opened @ sample_relayed left)) [4, 7]"

definition sample_merge :: "event list" where
  "sample_merge = sample_opened @ sample_relayed 7 @ sample_opened @ sample_relayed 4"

lemma sample_relayed_for: "relayed_for 7 (sample_opened @ sample_relayed left) = 3"
proof -
  have "charges_to 7 (Charge 7 0 3 f64_one)" by (simp add: charges_to_def)
  then have "\<exists>e \<in> set (sample_opened @ sample_relayed left). charges_to 7 e"
    by (intro bexI [of _ "Charge 7 0 3 f64_one"]) (simp_all add: sample_relayed_def)
  moreover have "copied d (sample_opened @ sample_relayed left) = (if d = ToUpstream then 3 else 0)" for d
    by (simp add: sample_opened_def sample_granted_def sample_relayed_def)
  ultimately show ?thesis by (simp only: relayed_for_def) simp
qed

lemma sample_pair_ok:
  "list_all (task_ran (\<lambda>m. m)) sample_pair" "list_all (\<lambda>t. billed (fst t)) sample_pair"
  "mset (concat (map task_trace sample_pair)) \<subseteq># mset sample_merge"
  "\<forall>e \<in> set sample_merge. \<forall>i. charges_to i e \<longrightarrow> in_i64 i"
  "relayed 7 sample_pair = 6"
proof -
  show "list_all (task_ran (\<lambda>m. m)) sample_pair"
    by (simp add: sample_pair_def task_ran_def sample_traffic_run)
  have "billed sample_ctx" unfolding billed_def using sample_ctx_priced full_price_one by simp
  then show "list_all (\<lambda>t. billed (fst t)) sample_pair" by (simp add: sample_pair_def)
  show "mset (concat (map task_trace sample_pair)) \<subseteq># mset sample_merge"
    by (simp add: sample_pair_def sample_merge_def task_trace_def ac_simps)
  show "\<forall>e \<in> set sample_merge. \<forall>i. charges_to i e \<longrightarrow> in_i64 i"
    by (simp add: sample_merge_def sample_opened_def sample_granted_def sample_relayed_def charges_to_def
        in_i64_def)
  show "relayed 7 sample_pair = 6"
    by (simp add: sample_pair_def relayed_def task_trace_def sample_relayed_for)
qed

definition sample_users :: "unit static_user list" where
  "sample_users = replicate 7
     \<lparr>su_username = ''bob'', su_password = ''pw'', su_remaining = Some 10, su_allowed_nets = [],
      su_default_selection = None\<rparr>"

lemma sample_debit: "usage_debit 0 3 f64_one = 3"
  using usage_debit_one [of 0 3] by (simp add: default_cost_per_byte_def)




end
