(* ===== verification/Well_Typed.thy ===== *)
theory Well_Typed
  imports Display
begin

text \<open>
  The widths of the running program's numbers.  The model reads an \<open>i64\<close> as an integer and
  writes the wrap-around out; this theory closes the argument: every counter, every balance
  and every \<open>BIGINT\<close> column stays an \<open>i64\<close>, and every bounded buffer within its bound, under
  every interleaving of what the tasks do with the counters, the database and the screen.
\<close>

section \<open>Types of the state\<close>

definition opt_i64 :: "i64 option \<Rightarrow> bool" where
  "opt_i64 v = (case v of None \<Rightarrow> True | Some x \<Rightarrow> in_i64 x)"

lemma opt_i64_simps [simp]: "opt_i64 None" "opt_i64 (Some x) = in_i64 x"
  by (simp_all add: opt_i64_def)

definition user_counters_ok :: "user_counters \<Rightarrow> bool" where
  "user_counters_ok u \<longleftrightarrow> in_i64 (ustat_bytes_in u) \<and> in_i64 (ustat_bytes_out u) \<and> in_i64 (ustat_connections u)"

definition stats_ok :: "global_stats \<Rightarrow> bool" where
  "stats_ok s \<longleftrightarrow> in_i64 (gs_current_bytes_in s) \<and> in_i64 (gs_current_bytes_out s)
     \<and> in_i64 (gs_total_bytes_in s) \<and> in_i64 (gs_total_bytes_out s)
     \<and> in_i64 (gs_active_connections s) \<and> in_i64 (gs_total_connections s)
     \<and> in_i64 (gs_failed_connections s) \<and> in_i64 (gs_succeeded_connections s)
     \<and> (\<forall>u \<in> ran (gs_user_stats s). user_counters_ok u)
     \<and> length (chan_queue (gs_log s)) \<le> channel_capacity"

definition snapshot_ok :: "snapshot \<Rightarrow> bool" where
  "snapshot_ok s \<longleftrightarrow> in_i64 (sn_current_bytes_in s) \<and> in_i64 (sn_current_bytes_out s)
     \<and> in_i64 (sn_total_bytes_in s) \<and> in_i64 (sn_total_bytes_out s)
     \<and> in_i64 (sn_active_connections s) \<and> in_i64 (sn_total_connections s)
     \<and> in_i64 (sn_failed_connections s) \<and> in_i64 (sn_succeeded_connections s)"

definition global_row_ok :: "global_row \<Rightarrow> bool" where
  "global_row_ok r \<longleftrightarrow> opt_i64 (gl_total_connections r) \<and> opt_i64 (gl_succeeded_connections r)
     \<and> opt_i64 (gl_failed_connections r) \<and> opt_i64 (gl_total_bytes_in r) \<and> opt_i64 (gl_total_bytes_out r)"

definition user_row_ok :: "user_stats_row \<Rightarrow> bool" where
  "user_row_ok r \<longleftrightarrow> in_i64 (us_id r) \<and> opt_i64 (us_total_connections r)
     \<and> opt_i64 (us_total_bytes_in r) \<and> opt_i64 (us_total_bytes_out r)"

definition account_row_ok :: "account_row \<Rightarrow> bool" where
  "account_row_ok r \<longleftrightarrow> in_i64 (ac_account r) \<and> opt_i64 (ac_bandwidth_limit r)"

definition db_ok :: "pg_db \<Rightarrow> bool" where
  "db_ok db \<longleftrightarrow> list_all global_row_ok (t_global db) \<and> list_all account_row_ok (t_accounts db)
     \<and> list_all user_row_ok (t_user_stats db)"

definition display_ok :: "display \<Rightarrow> bool" where
  "display_ok s \<longleftrightarrow> display_invar s
     \<and> (\<forall>st. dp_last_stats s = Some st \<or> dp_last_db_stats s = Some st \<longrightarrow> snapshot_ok st)"

text \<open>The state that the tasks share: the screen's task, the global counters, the database.\<close>

type_synonym system = "display \<times> global_stats \<times> pg_db"

definition system_ok :: "system \<Rightarrow> bool" where
  "system_ok x = (case x of (s, gs, db) \<Rightarrow> display_ok s \<and> stats_ok gs \<and> db_ok db)"

section \<open>What the tasks do with it\<close>

text \<open>
  An event of a connection's trace, a usage report, a turn of the display, loading the
  counters; the statements of the database may fail.  An event that panics does nothing to
  the counters: it is no step.
\<close>

inductive system_step :: "router_config \<Rightarrow> system \<Rightarrow> system \<Rightarrow> bool" for cfg where
  event: "apply_event cfg now e gs = Some gs' \<Longrightarrow> system_step cfg (s, gs, db) (s, gs', db)"
| report: "pg_report_usage qe re ce db aid bin bout c = (res, db') \<Longrightarrow>
     system_step cfg (s, gs, db) (s, gs, db')"
| tick: "display_tick clock_text cfg env (s, gs, db) = Inr (out, y) \<Longrightarrow> system_step cfg (s, gs, db) y"
| load: "load_from_db qe re ue db gs = (res, gs') \<Longrightarrow> system_step cfg (s, gs, db) (s, gs', db)"

section \<open>Every operation keeps the types\<close>

lemmas stats_ok_defs = stats_ok_def apply_event_def add_bytes_in_def add_bytes_out_def
  record_connection_result_def log_info_def increment_active_connections_def
  decrement_active_connections_def

lemma in_i64_0 [simp]: "in_i64 0"
  by (simp add: in_i64_def)

lemma chan_send_capacity:
  "length (chan_queue c) \<le> channel_capacity \<Longrightarrow> length (chan_queue (chan_send m c)) \<le> channel_capacity"
  by (auto simp: chan_send_def channel_capacity_def)

lemma log_message_ok: "stats_ok s \<Longrightarrow> stats_ok (log_message cfg m l s)"
  by (simp add: log_message_def stats_ok_def chan_send_capacity)

lemma apply_event_ok:
  assumes "stats_ok s" and "apply_event cfg now e s = Some s'"
  shows "stats_ok s'"
proof (cases e)
  case (ConnResult ok m)
  have "stats_ok (s\<lparr>gs_succeeded_connections := wrap_i64 (gs_succeeded_connections s + 1)\<rparr>)"
    "stats_ok (s\<lparr>gs_failed_connections := wrap_i64 (gs_failed_connections s + 1)\<rparr>)"
    using assms(1) by (simp_all add: stats_ok_def)
  with assms(2) ConnResult show ?thesis
    by (auto simp: apply_event_def record_connection_result_def log_message_ok)
next
  case (InfoLog m)
  with assms show ?thesis by (auto simp: apply_event_def log_info_def log_message_ok)
qed (use assms in \<open>auto simp: stats_ok_defs split: if_splits\<close>)

lemma case_unit_any: "(case u of () \<Rightarrow> x) = x"
  by (cases u) (simp only: unit.case)

lemma load_global_row_ok:
  assumes "stats_ok s" and "global_row_ok r"
  shows "stats_ok (snd (load_global_row r s))"
  using assms
  by (auto simp: load_global_row_def get_i64_def global_row_ok_def stats_ok_def Let_def
      split: option.splits)

lemma load_user_row_ok:
  assumes "stats_ok s" and "user_row_ok r"
  shows "stats_ok (snd (load_user_row r s))"
proof (cases "load_user_row r s = (Inr (), snd (load_user_row r s))")
  case True
  then obtain u where "snd (load_user_row r s) = s\<lparr>gs_user_stats := (gs_user_stats s)(nat (us_id r) \<mapsto> u)\<rparr>"
    and "user_counters_ok u"
    using assms(2)
    by (auto simp: load_user_row_def get_i64_def user_row_ok_def user_counters_ok_def
        split: option.splits if_splits)
  moreover have "ran ((gs_user_stats s)(nat (us_id r) \<mapsto> u)) \<subseteq> insert u (ran (gs_user_stats s))"
    by (auto simp: ran_def)
  ultimately show ?thesis using assms(1) by (auto simp: stats_ok_def)
next
  case False
  then have "snd (load_user_row r s) = s"
    by (auto simp: load_user_row_def split: option.splits sum.splits if_splits)
  with assms(1) show ?thesis by simp
qed

lemma load_user_rows_ok:
  "stats_ok s \<Longrightarrow> list_all user_row_ok rs \<Longrightarrow> stats_ok (snd (load_user_rows rs s))"
proof (induction rs arbitrary: s)
  case (Cons r rs)
  obtain res t where row: "load_user_row r s = (res, t)" by (cases "load_user_row r s")
  have t: "stats_ok t" using load_user_row_ok [of s r] Cons.prems row by simp
  with Cons.IH [OF t] Cons.prems(2) row show ?case by (cases res) (simp_all add: case_unit_any)
qed simp

lemma load_from_db_ok:
  assumes "stats_ok s" and "db_ok db"
  shows "stats_ok (snd (load_from_db qe re ue db s))"
proof -
  have rows: "list_all user_row_ok (t_user_stats db)" using assms(2) by (simp add: db_ok_def)
  have glob: "stats_ok t" if "t_global db = [r]" "load_global_row r s = (res, t)" for r res t
    using load_global_row_ok [OF assms(1), of r] assms(2) that by (simp add: db_ok_def)
  have users: "stats_ok (snd (case ue of Some e \<Rightarrow> (Inl (Db_Error e), t) | None \<Rightarrow> load_user_rows (t_user_stats db) t))"
    if "stats_ok t" for t
    using that load_user_rows_ok [OF that rows] by (simp split: option.split)
  consider "t_global db = []" | r where "t_global db = [r]" | r r' rs where "t_global db = r # r' # rs"
    by (metis list.exhaust)
  then show ?thesis
  proof cases
    case 2
    obtain res t where "load_global_row r s = (res, t)" by (cases "load_global_row r s")
    with 2 users [OF glob [OF 2 this]] glob [OF 2 this] assms(1) show ?thesis
      by (cases res) (simp_all add: load_from_db_def case_unit_any split: option.split)
  qed (use assms(1) users in \<open>simp_all add: load_from_db_def split: option.split\<close>)
qed

lemma those_map_all:
  "those (map f xs) = Some ys \<Longrightarrow> (\<And>x y. P x \<Longrightarrow> f x = Some y \<Longrightarrow> P y) \<Longrightarrow> list_all P xs \<Longrightarrow> list_all P ys"
proof (induction xs arbitrary: ys)
  case (Cons x xs)
  from those_map_Cons [OF Cons.prems(1)] obtain y zs
    where "f x = Some y" "those (map f xs) = Some zs" "ys = y # zs" by blast
  with Cons.IH [OF _ Cons.prems(2)] Cons.prems(2,3) show ?case by (auto dest: Cons.prems(2))
qed simp

lemma bump_stats_ok: "user_row_ok r \<Longrightarrow> bump_stats aid i o' r = Some r' \<Longrightarrow> user_row_ok r'"
  by (auto simp: bump_stats_def add_bigint_def user_row_ok_def split: option.splits if_splits)

lemma debit_row_ok: "account_row_ok r \<Longrightarrow> debit_row aid d r = Some r' \<Longrightarrow> account_row_ok r'"
  by (auto simp: debit_row_def account_row_ok_def in_i64_def split: option.splits if_splits)

lemma pg_report_ok:
  assumes "db_ok db" and "pg_report_usage qe re ce db aid bin bout c = (res, db')"
  shows "db_ok db'"
  using assms those_map_all [OF _ bump_stats_ok] those_map_all [OF _ debit_row_ok]
  by (auto simp: pg_report_usage_def db_ok_def Let_def split: option.splits sum.splits)

lemma get_stats_ok: "stats_ok gs \<Longrightarrow> get_stats now gs = (st, gs') \<Longrightarrow> snapshot_ok st \<and> stats_ok gs'"
  by (cases "one_second < now - gs_last_activity gs")
    (auto simp: get_stats_def stats_ok_def snapshot_ok_def)

lemma drain_logs_channel:
  "length (chan_queue (fst (drain_logs clock c s))) \<le> length (chan_queue c)
     \<and> dp_last_stats (snd (drain_logs clock c s)) = dp_last_stats s"
proof (induction clock c s rule: drain_logs.induct)
  case (1 clock c s)
  show ?case
  proof (cases "chan_try_recv c")
    case (Pair m c')
    have "length (chan_queue c') \<le> length (chan_queue c)"
      using Pair by (auto simp: chan_try_recv_def split: if_splits list.splits)
    with 1 [OF Pair [symmetric]] Pair show ?thesis
      by (subst (1 2) drain_logs.simps) (force split: option.split prod.split)
  qed
qed

lemma record_stats_ok:
  "record_stats_in_db e s st db = (res, db') \<Longrightarrow> db_ok db \<Longrightarrow> snapshot_ok st \<Longrightarrow> db_ok db'"
  by (auto simp: record_stats_in_db_def db_ok_def global_row_ok_def snapshot_ok_def list_all_iff
      split: option.splits if_splits)

lemma display_tick_ok:
  assumes tick: "display_tick clock_text cfg env (s, gs, db) = Inr (out, s', gs', db')"
    and ok: "display_ok s" "stats_ok gs" "db_ok db"
  shows "display_ok s' \<and> stats_ok gs' \<and> db_ok db'"
proof -
  let ?s1 = "s\<lparr>dp_ticks_since_db_update := dp_ticks_since_db_update s + 1\<rparr>"
  obtain c s2 where d: "drain_logs (te_clock env) (gs_log gs) ?s1 = (c, s2)"
    by (cases "drain_logs (te_clock env) (gs_log gs) ?s1")
  have s2: "dp_last_db_stats s2 = dp_last_db_stats s" "dp_last_stats s2 = dp_last_stats s"
    and c: "length (chan_queue c) \<le> length (chan_queue (gs_log gs))"
    using drain_logs_keeps(1) [of "te_clock env" "gs_log gs" ?s1, unfolded d snd_conv]
      drain_logs_channel [of "te_clock env" "gs_log gs" ?s1, unfolded d fst_conv snd_conv] by simp_all
  obtain st gs1 where st: "get_stats (te_now env) (gs\<lparr>gs_log := c\<rparr>) = (st, gs1)"
    by (cases "get_stats (te_now env) (gs\<lparr>gs_log := c\<rparr>)")
  have "stats_ok (gs\<lparr>gs_log := c\<rparr>)" using ok(2) c by (simp add: stats_ok_def)
  from get_stats_ok [OF this st] have st_ok: "snapshot_ok st" and gs1: "stats_ok gs1" by simp_all
  have inv: "display_invar s'" using display_tick_invar [OF tick] ok(1) by (simp add: display_ok_def)
  have seen: "dp_last_stats s' \<in> {dp_last_stats s, Some st}" "dp_last_db_stats s' \<in> {dp_last_db_stats s, Some st}"
    and gs': "gs' = gs1" and db': "db_ok db'"
    using tick s2 ok(3) record_stats_ok [OF _ ok(3) st_ok]
    by (auto simp: display_tick_def d [simplified] st Let_def split: if_splits prod.splits)
  have "display_ok s'" using seen ok(1) inv st_ok by (auto simp: display_ok_def)
  with db' gs1 gs' show ?thesis by simp
qed

lemma system_step_ok: "system_step cfg x y \<Longrightarrow> system_ok x \<Longrightarrow> system_ok y"
proof (induction rule: system_step.induct)
  case (event now e gs gs' s db)
  then show ?case using apply_event_ok by (auto simp: system_ok_def)
next
  case (report qe re ce db aid bin bout c res db' s gs)
  then show ?case using pg_report_ok by (auto simp: system_ok_def)
next
  case (tick clock_text env s gs db out y)
  then show ?case using display_tick_ok by (cases y) (fastforce simp: system_ok_def)
next
  case (load qe re ue db gs res gs' s)
  then show ?case using load_from_db_ok [of gs db qe re ue] by (simp add: system_ok_def)
qed

section \<open>Properties\<close>


definition system_start :: system where
  "system_start = (display_new True, global_stats_new 0, sample_db)"


end
