(* ===== verification/Spec2Isabelle.thy ===== *)
theory Spec2Isabelle
  imports Bootstrap Interop Usage_Cas Served_Targets Own_Admission Sessions Well_Typed
begin

text \<open>
  Verification of purroute, a proxy router written in Rust.

  \<^bold>\<open>The program.\<close>  purroute accepts HTTP, HTTPS (\<open>CONNECT\<close>), SOCKS4 and SOCKS5 clients on
  one port, authenticates each request by user name and password or by source address,
  against PostgreSQL or the accounts of its configuration file, chooses one or several
  upstream proxies by the routing tokens in the user name, opens a tunnel through them and
  relays bytes in both directions while charging the account.  Counters and log lines go to
  a terminal display and to the database.

  \<^bold>\<open>Parts, in the order the theories build on each other.\<close>
  All sources are under \<open>src/src/\<close>.

  \<^item> \<open>Prelude\<close>, \<open>Rust_String\<close>, \<open>Float64\<close>: machine types and their wrap-around and
    saturation, the collections of rules, what the program uses of \<open>str\<close> (UTF-8 bytes,
    lossy decoding, \<open>lines\<close>, \<open>split\<close>, \<open>trim\<close>, \<open>parse::<u16>\<close>) and of \<open>f64\<close>, executable on
    integers.
  \<^item> \<open>Config\<close> (\<open>protocol.rs\<close>, \<open>config.rs\<close>): \<open>Protocol\<close> and the configuration structs as
    records, \<open>Config::load\<close>, \<open>encode_auth\<close>.
  \<^item> \<open>Routing\<close> (\<open>routing.rs\<close>): \<open>Selection\<close>, \<open>parse_username\<close>, \<open>matches_upstream\<close>,
    \<open>build_username\<close>, \<open>pick_index\<close> with FNV-1a.
  \<^item> \<open>Upstreams\<close> (\<open>upstreams.rs\<close>): database rows as proxies.
  \<^item> \<open>Auth_Backend\<close>, \<open>Pricing\<close>, \<open>Static_Backend\<close>, \<open>Usage_Cas\<close>, \<open>Postgres_Backend\<close>, \<open>Schema\<close> (\<open>auth.rs\<close>):
    the trait \<open>AuthBackend\<close> as the locales \<open>metering\<close> (\<open>report_usage\<close>) and \<open>auth_backend\<close> (all
    of it); the in-memory backend, its \<open>report_usage\<close> both as one call and as the interleaved
    compare-exchange loop of several reporters; the SQL backend as functions of a record of
    tables, each statement of which may fail; the schema batch.
  \<^item> \<open>Net_Io\<close>: the effects of a handler.  A run maps a script of the environment's answers
    to a result and a trace of events.  \<open>await m k\<close> is \<open>m.await?\<close> followed by \<open>k\<close>.
  \<^item> \<open>Targets\<close>, \<open>Resolve\<close> (\<open>protocols/proxy.rs\<close>): the pure helpers at the end of that file;
    the live upstream set and \<open>resolve_proxy_chain\<close>.
  \<^item> \<open>Wire\<close>, \<open>Chain\<close> (\<open>protocols/chain.rs\<close>): the messages sent to upstream proxies, the
    three handshakes, \<open>connect_chain\<close>; the locale \<open>tunnel\<close> is their contract.
  \<^item> \<open>Inbound_Http\<close>, \<open>Inbound_Https\<close>, \<open>Inbound_Socks4\<close> (\<open>protocols/http.rs\<close>, \<open>https.rs\<close>,
    \<open>socks4.rs\<close>): \<open>handle\<close> of each, one definition per branch on the upstream's protocol.
  \<^item> \<open>Relay\<close> (\<open>proxy_data\<close> in \<open>protocols/proxy.rs\<close>): the two copy loops, resumed write by
    write.  \<open>Metered_Relay\<close> runs the relays of any number of connections against one backend.
  \<^item> \<open>Server\<close> (\<open>protocols/proxy.rs\<close>): \<open>authenticate_user\<close>, \<open>selection_for\<close>, the SOCKS5
    server, the multi-hop handlers, \<open>handle_connection\<close>, the spawned task, \<open>run\<close>.
    \<open>Admission\<close>, \<open>Own_Admission\<close>, \<open>Client_Replies\<close>, \<open>Connection\<close>, \<open>Served_Targets\<close> and
    \<open>Charging\<close> prove what holds of whole connections, and \<open>Sessions\<close> what holds of any number of
    them together with a backend; \<open>Interop\<close> puts the program's client side against its own server side.
  \<^item> \<open>Stats\<close>, \<open>Display\<close> (\<open>stats/global.rs\<close>, \<open>stats/display.rs\<close>): the counters, log gating,
    the broadcast queue, snapshots, loading and storing, and one turn of the display loop.
    \<open>Well_Typed\<close> is the type invariant of what the tasks share.
  \<^item> \<open>Bootstrap\<close> (\<open>main.rs\<close>): the choice of the backend, the first upstream set, the refresh
    task and the metrics endpoint.

  \<^bold>\<open>How state corresponds.\<close>  A struct is a record with the source's fields, an enum a
  datatype.  \<open>i64\<close> is \<open>int\<close> with \<open>wrap_i64\<close>, \<open>sat_i64\<close> and \<open>in_i64\<close> where the source wraps,
  saturates or checks; a byte and \<open>u16\<close> are words.  A \<open>String\<close> is its list of UTF-8 bytes.
  An error of the source is \<open>Inl\<close>; a panic, such as an index out of range or a byte count
  beyond \<open>i64\<close>, is a fault of the run, and so is an operation that never completes.  State
  shared between tasks is written out as interleavings: \<open>cas_step\<close> and \<open>relay_step\<close> are step
  relations, the counters of \<open>Stats\<close> are a fold over the events of all tasks in any order,
  and every resolution of a connection has its own snapshot of the upstream set.

  \<^bold>\<open>What the lemmas show.\<close>
  \<^item> Admission: a session of any inbound protocol reaches an upstream only after the backend
    accepted the credentials it presented, or its address when it presented none, for an
    account with allowance left (\<open>Own_Admission\<close>, and end to end with the in-memory backend
    below).
  \<^item> Tunnels: a chain grants the hops in order, each asked for the next one and the last for
    the target; a client is told that its tunnel is open only after an upstream granted it;
    a connection that is served was connected to the target its request names, for every
    inbound and upstream protocol.
  \<^item> Relay and metering: each direction delivers a prefix of what was read, in order; every
    byte read has been reported; once the balance is used up the loop that learns of it stops,
    and all connections of an account together deliver less than its allowance, in any
    interleaving of their steps (\<open>Metered_Relay\<close>).
  \<^item> Who pays: in every session no byte is relayed before a report of it has been answered with
    allowance left, and every report is for the one account accepted in that session and at
    the price of a live upstream (\<open>Charging\<close>).  So the sessions of an account relay less than
    its allowance together, on either backend, in whatever order their reports are executed
    and whichever statements fail (\<open>Sessions\<close>; reports are executed one at a time, which for
    the in-memory backend's lock-free loop is what \<open>cas_linearizable\<close> shows).
  \<^item> Prices: these bounds hold at every finite price of at least one per byte, because rounding
    to the nearest double never takes a debit below the bytes it is for (\<open>Pricing\<close>).
  \<^item> Balances: concurrent reports are linearizable and can all finish; the SQL backend's debits
    implement the same abstract balance as the in-memory one.
  \<^item> Types: counters, balances and \<open>BIGINT\<close> columns stay \<open>i64\<close>s and buffers within their
    capacities, whatever the tasks do with them.
  \<^item> Routing: parsing inverts writing, and what it accepts has a normal form; tags in a user
    name never fall back to the unrestricted chain; resolution uses only the live set, keeps
    a named chain's members and their order, and with a session id does not depend on the
    random draws.
  \<^item> Messages: what the connector sends to an upstream is what the server side of the same
    program detects, parses and authenticates, and it accepts the server's replies.
  \<^item> Counters: any interleaving of the events gives the same counts; a task decrements the
    gauge once or, when its relay fails, twice; so after a run of the server whose connections
    have ended the gauge is never above zero.
  \<^item> Start-up: fails closed; the refresh task always yields the configured proxies followed by
    the live rows of the last query that was answered.  The schema batch is idempotent.

  \<^bold>\<open>Interfaces.\<close>  \<open>metering\<close> is what a relay relies on, and \<open>auth_backend\<close> extends it by the
  two ways to log in.  \<open>auth_backend\<close> is interpreted as \<open>static\<close> and \<open>pg\<close> on the two backends,
  \<open>metering\<close> also as \<open>pg_flaky\<close> on a database whose statements fail now and then;
  \<open>Metered_Relay\<close> and \<open>Sessions\<close> prove the bounds of relays and of sessions inside
  \<open>metering\<close>.  \<open>tunnel\<close> is interpreted on the three handshakes of \<open>chain.rs\<close>, on their
  dispatch and on the SOCKS5 handshakes of the three single-hop handlers; \<open>connect_chain_grants_hops\<close> rests on the interpretation \<open>hop\<close>.

  \<^bold>\<open>Bounds and fuel.\<close>  A run consumes its script, so no run needs fuel: \<open>relay_run\<close>, the
  accept loop and the refresh task recurse on the list of what the environment does, and a
  script that is too short ends the run as blocked.  \<open>scale_bytes\<close> counts down the
  \<open>units.len() - 1\<close> larger units, which is the source's own loop bound.  Only \<open>bit_len\<close>,
  the UTF-8 functions and \<open>drain_logs\<close> are not structural; each has its measure.

  \<^bold>\<open>Parameters.\<close>  Third-party code is an argument: the base64 engine (\<open>base64_ok\<close>: decoding
  inverts encoding, and encoding yields printable characters), the random draws (\<open>rand_ok\<close>:
  in range), the address types (\<open>net_ops\<close>), the TOML parser, the clock's text, what
  PostgreSQL answers, and the error texts of sockets.

  \<^bold>\<open>Not modelled.\<close>  \<open>protocols/mod.rs\<close> and \<open>stats/mod.rs\<close> only declare modules; the test
  harness under \<open>tests/\<close> is not part of the program.  Spawning and joining tasks is the
  runtime's: a task appears as its run, a join error as the text it yields.  The \<open>serde\<close>
  derives, TLS and the SQL engine itself are library code; a statement is modelled by its
  effect on the tables.  Timing appears only as the instants and ticks that the code reads.
\<close>

section \<open>Connections and counters together\<close>

text \<open>A task that has ended.\<close>

definition finished_task :: "(string \<Rightarrow> string) \<Rightarrow> task \<Rightarrow> bool" where
  "finished_task join_error t \<longleftrightarrow>
     (case t of (cx, label, script, es) \<Rightarrow>
        \<exists>w'. connection_task join_error cx label (started script) = (Inr (), w') \<and> w_trace w' = es)"

definition handler_returned :: "task \<Rightarrow> bool" where
  "handler_returned t \<longleftrightarrow>
     (case t of (cx, label, script, es) \<Rightarrow> fst (connection_body cx label (started script)) = Inr ())"

text \<open>
  The events of the server's own loop and of the tasks it started, one for each connection it
  accepted, in any order.
\<close>

definition interleaved :: "proxy_error option \<times> string list \<times> event list \<Rightarrow> task list \<Rightarrow> event list \<Rightarrow> bool" where
  "interleaved run tasks es \<longleftrightarrow>
     (case run of (res, peers, loop_events) \<Rightarrow>
        length peers = length tasks \<and> mset es = mset (loop_events @ concat (map task_trace tasks)))"

lemma decrements_mset: "mset es = mset fs \<Longrightarrow> decrements es = decrements fs"
  unfolding decrements_def by (metis mset_filter size_mset)

lemma increments_mset: "mset es = mset fs \<Longrightarrow> increments es = increments fs"
  unfolding increments_def by (metis mset_filter size_mset)

lemma increments_append [simp]: "increments (es @ fs) = increments es + increments fs"
  by (simp add: increments_def)

lemma accept_loop_counts:
  "accept_loop accepts = (res, peers, es) \<Longrightarrow> increments es = length peers \<and> decrements es = 0"
  by (induction accepts arbitrary: res peers es rule: accept_loop.induct)
    (auto simp: accept_events_def increments_def split: prod.splits)

lemma server_run_counts:
  "server_run bind_error addr accepts = (res, peers, es) \<Longrightarrow> increments es = length peers \<and> decrements es = 0"
  using accept_loop_counts [of accepts]
  by (auto simp: server_run_def increments_def split: option.splits prod.splits)

lemma finished_task_counts:
  assumes "finished_task join_error t"
  shows "increments (task_trace t) = 0" and "decrements (task_trace t) \<in> {1, 2}"
    and "handler_returned t \<Longrightarrow> decrements (task_trace t) = 1"
proof -
  obtain cx label script es where t: "t = (cx, label, script, es)" by (cases t)
  from assms obtain w' where run: "connection_task join_error cx label (started script) = (Inr (), w')"
    and es: "w_trace w' = es" by (auto simp: finished_task_def t)
  from emitsD [OF task_no_inc run] es show "increments (task_trace t) = 0"
    by (auto simp: t task_trace_def started_def increments_def filter_empty_conv)
  from task_closes [OF run] es show "decrements (task_trace t) \<in> {1, 2}"
    by (auto simp: t task_trace_def started_def split: if_splits)
  from task_closes [OF run] es show "handler_returned t \<Longrightarrow> decrements (task_trace t) = 1"
    by (auto simp: t task_trace_def started_def handler_returned_def)
qed

lemma task_traces_counts:
  assumes "list_all (finished_task join_error) tasks"
  shows "increments (concat (map task_trace tasks)) = 0
     \<and> length tasks \<le> decrements (concat (map task_trace tasks))
     \<and> decrements (concat (map task_trace tasks)) \<le> 2 * length tasks
     \<and> (list_all handler_returned tasks \<longrightarrow> decrements (concat (map task_trace tasks)) = length tasks)"
  using assms
proof (induction tasks)
  case (Cons t ts)
  then show ?case using finished_task_counts [of join_error t] by auto
qed simp

text \<open>
  C12. The gauge of active connections, for the whole server: when all the connections that a
  run of the server accepted have ended, in any interleaving with each other and with the
  accept loop, it is never positive; it is zero when every handler returned, and never below
  minus the number of connections.
\<close>

theorem active_connections_settle:
  assumes "list_all (finished_task join_error) tasks"
    and "interleaved (server_run bind_error addr accepts) tasks (map snd es)"
    and "apply_events cfg es (global_stats_new now) = Some s'" and "length tasks < 2 ^ 63"
  shows "- int (length tasks) \<le> gs_active_connections s' \<and> gs_active_connections s' \<le> 0
     \<and> (list_all handler_returned tasks \<longrightarrow> gs_active_connections s' = 0)"
proof -
  let ?d = "decrements (concat (map task_trace tasks))"
  note counts = task_traces_counts [OF assms(1)]
  obtain res peers loop_events where run: "server_run bind_error addr accepts = (res, peers, loop_events)"
    by (cases "server_run bind_error addr accepts")
  have peers: "length peers = length tasks"
    and perm: "mset (map snd es) = mset (loop_events @ concat (map task_trace tasks))"
    using assms(2) by (simp_all add: interleaved_def run)
  have "increments (map snd es) = length tasks" "decrements (map snd es) = ?d"
    using increments_mset [OF perm] decrements_mset [OF perm] peers counts server_run_counts [OF run]
    by simp_all
  moreover have "gs_active_connections s' =
      wrap_i64 (int (increments (map snd es)) - int (decrements (map snd es)))"
    using apply_events_counters(1) [OF assms(3)] by (simp add: global_stats_new_def in_i64_def)
  moreover have "in_i64 (int (length tasks) - int ?d)"
    using counts assms(4) by (simp add: in_i64_def)
  ultimately show ?thesis using counts by simp
qed

definition sample_task :: "event list \<Rightarrow> task" where
  "sample_task es = (sample_ctx, None, sample_session (R_Bytes []), es)"

text \<open>One connection, and then no file descriptor is left for another.\<close>

definition sample_run :: "proxy_error option \<times> string list \<times> event list" where
  "sample_run = server_run None ''0.0.0.0:1080'' [Accepted ''10.0.0.1'', Accept_Error ''emfile'', Accepted ''x'']"

lemma sample_run_value:
  "sample_run = (Some (Io ''emfile''), [''10.0.0.1''],
     InfoLog (''Proxy server listening on '' @ ''0.0.0.0:1080'') # accept_events ''10.0.0.1'')"
  by (simp add: sample_run_def server_run_def)

theorem active_connections_settle_witness:
  "\<exists>es s'. interleaved sample_run [sample_task es] (snd (snd sample_run) @ es)
     \<and> apply_events sample_config (map (Pair 0) (snd (snd sample_run) @ es)) (global_stats_new 0) = Some s'
     \<and> gs_active_connections s' = 0"
proof -
  from sample_closed [of "\<lambda>m. m"] obtain w'
    where run: "connection_task (\<lambda>m. m) sample_ctx None (started (sample_session (R_Bytes []))) = (Inr (), w')"
      and tr: "w_trace w' = sample_opened @ [DecActive, InfoLog (''Connection closed for '' @ ''10.0.0.1'')]"
    by blast
  let ?es = "snd (snd sample_run) @ w_trace w'"
  have task: "list_all (finished_task (\<lambda>m. m)) [sample_task (w_trace w')]"
    and returned: "list_all handler_returned [sample_task (w_trace w')]"
    using run by (simp_all add: finished_task_def sample_task_def handler_returned_def sample_body proxy_data_eof)
  have inter: "interleaved sample_run [sample_task (w_trace w')] (map snd (map (Pair (0 :: nat)) ?es))"
    by (simp add: interleaved_def sample_run_value sample_task_def task_trace_def comp_def)
  obtain s' where s': "apply_events sample_config (map (Pair 0) ?es) (global_stats_new 0) = Some s'"
    by (simp add: tr sample_run_value accept_events_def sample_opened_def sample_granted_def apply_event_def
        add_bytes_in_def add_bytes_out_def)
  from active_connections_settle [OF task inter [unfolded sample_run_def] s' [unfolded sample_run_def]] returned inter s' show ?thesis
    by (intro exI [of _ "w_trace w'"] exI [of _ s']) (simp add: comp_def)
qed

section \<open>Connections and the account backend together\<close>

text \<open>
  The backend the connection talked to is the in-memory one with these users; \<open>addr\<close> reads the
  peer's address.
\<close>

definition answered_by ::
  "('ip, 'net) net_ops \<Rightarrow> (string \<Rightarrow> 'ip) \<Rightarrow> 'net static_user list \<Rightarrow> event list \<Rightarrow> bool"
where
  "answered_by ops addr users es \<longleftrightarrow>
     (\<forall>u p a. Did (Authenticate u p) (Some (R_Account a)) \<in> set es \<longrightarrow> static_authenticate users u p = Inr a)
     \<and> (\<forall>ip a. Did (AuthenticateByIp ip) (Some (R_Account a)) \<in> set es \<longrightarrow>
          static_authenticate_by_ip ops users (addr ip) = Inr a)"

text \<open>What the client presented in the bytes the session read: a name and password, or nothing.\<close>

definition presented :: "conn_ctx \<Rightarrow> event list \<Rightarrow> string \<Rightarrow> string \<Rightarrow> bool" where
  "presented cx es username password \<longleftrightarrow>
     (\<exists>request. Did (TimedRead Client 8192) (Some (R_Bytes request)) \<in> set es
        \<and> (if detect_protocol request = Inr Socks5
           then \<exists>a raw_username sel. Did (ReadSome Client 513) (Some (R_Bytes a)) \<in> set es
                  \<and> socks5_credentials a = Inr (raw_username, password)
                  \<and> parse_username raw_username = Inr (username, sel)
           else request_login cx request = Some (username, password)))"

definition anonymous :: "event list \<Rightarrow> bool" where
  "anonymous es \<longleftrightarrow>
     (\<exists>request. Did (TimedRead Client 8192) (Some (R_Bytes request)) \<in> set es
        \<and> detect_protocol request \<noteq> Inr Socks5 \<and> \<not> has_credentials request)"

definition spendable :: "'net static_user \<Rightarrow> bool" where
  "spendable user \<longleftrightarrow> (case su_remaining user of None \<Rightarrow> True | Some n \<Rightarrow> 0 < n)"

lemma static_authenticate_user:
  "static_authenticate users u p = Inr (Some acc) \<Longrightarrow>
     \<exists>user \<in> set users. su_username user = u \<and> su_password user = p \<and> acc_limit acc = su_remaining user"
  by (auto simp: static_authenticate_def account_for_def constant_time_eq_iff
      dest!: authenticate_from_SomeD intro!: nth_mem bexI)

lemma static_authenticate_by_ip_user:
  "static_authenticate_by_ip ops users ip = Inr (Some acc) \<Longrightarrow>
     \<exists>user \<in> set users. (\<exists>net \<in> set (su_allowed_nets user). ipnet_contains ops net ip)
       \<and> acc_limit acc = su_remaining user"
  by (auto simp: static_authenticate_by_ip_def account_for_def dest!: by_ip_from_SomeD intro!: nth_mem bexI)

lemma guarded_use:
  "guarded bad ok es \<Longrightarrow> e \<in> set es \<Longrightarrow> bad e \<Longrightarrow> \<exists>f \<in> set es. ok f"
  unfolding guarded_def by (metis in_set_conv_nth order.strict_trans)

text \<open>An admission is of what the client presented, or of its address when it presented nothing.\<close>

lemma client_admission_presents:
  assumes "client_admission cx es f"
  obtains (login) u q acc where "presented cx es u q" "admissible acc"
      "f = Did (Authenticate u q) (Some (R_Account (Some acc)))"
  | (address) acc where "anonymous es" "admissible acc"
      "f = Did (AuthenticateByIp (cx_peer cx)) (Some (R_Account (Some acc)))"
proof -
  from assms obtain request where read: "Did (TimedRead Client 8192) (Some (R_Bytes request)) \<in> set es"
    and adm: "if detect_protocol request = Inr Socks5 then socks5_admission es f else own_admission cx request f"
    by (auto simp: client_admission_def)
  show thesis
  proof (cases "detect_protocol request = Inr Socks5")
    case True
    with read adm login show thesis unfolding presented_def socks5_admission_def by metis
  next
    case False
    with adm obtain opn acc where f: "f = Did opn (Some (R_Account (Some acc)))" "admissible acc"
      and opn: "admission_op cx request = Some opn"
      by (auto simp: own_admission_def split: event.splits option.splits resp.splits)
    show thesis
    proof (cases "has_credentials request")
      case True
      with opn obtain u q where "request_login cx request = Some (u, q)" "opn = Authenticate u q"
        by (auto simp: admission_op_def)
      with False read f login show thesis unfolding presented_def by metis
    next
      case none: False
      with opn False read f address show thesis by (auto simp: admission_op_def anonymous_def)
    qed
  qed
qed


definition sample_header :: string where
  "sample_header = ''Proxy-Authorization: Basic '' @ encode_auth nibble_codec ''bob'' ''pw''"

definition sample_login_request :: "byte list" where
  "sample_login_request = as_bytes (''CONNECT t:443 HTTP/1.1'' @ CRLF @ sample_header @ CRLF @ CRLF)"

definition bob :: "unit static_user" where
  "bob = \<lparr>su_username = ''bob'', su_password = ''pw'', su_remaining = Some 100, su_allowed_nets = [],
     su_default_selection = None\<rparr>"

lemma sample_header_chars: "\<forall>c \<in> set sample_header. ascii_char c" "LF \<notin> set sample_header"
proof -
  have g: "graphic (encode_auth nibble_codec ''bob'' ''pw'')"
    using nibble_codec_ok by (simp add: base64_ok_def encode_auth_def)
  have "list_all ascii_char ''Proxy-Authorization: Basic ''" by code_simp
  then show "\<forall>c \<in> set sample_header. ascii_char c"
    using graphic_ascii [OF g] by (simp only: sample_header_def list_all_iff set_append) blast
  have "LF \<notin> set ''Proxy-Authorization: Basic ''" by code_simp
  then show "LF \<notin> set sample_header"
    using graphic_no_LF [OF g] by (simp only: sample_header_def set_append) blast
qed

lemma sample_login_lines:
  "lines (from_utf8_lossy sample_login_request) = [''CONNECT t:443 HTTP/1.1'', sample_header, []]"
proof -
  have "list_all ascii_char (''CONNECT t:443 HTTP/1.1'' @ CRLF @ CRLF)" by code_simp
  then have "\<forall>c \<in> set (''CONNECT t:443 HTTP/1.1'' @ CRLF @ sample_header @ CRLF @ CRLF). ascii_char c"
    using sample_header_chars(1) by (simp only: list_all_iff set_append) blast
  then have str: "from_utf8_lossy sample_login_request =
      ''CONNECT t:443 HTTP/1.1'' @ CRLF @ sample_header @ CRLF @ CRLF"
    unfolding sample_login_request_def by (rule sample_lossy)
  have "LF \<notin> set ''CONNECT t:443 HTTP/1.1''" by code_simp
  then have "lines (''CONNECT t:443 HTTP/1.1'' @ CRLF @ sample_header @ CRLF @ CRLF) =
      ''CONNECT t:443 HTTP/1.1'' # sample_header # lines CRLF"
    using lines_Cons_CRLF [of "''CONNECT t:443 HTTP/1.1''" "sample_header @ CRLF @ CRLF"]
      lines_Cons_CRLF [OF sample_header_chars(2), of CRLF] by metis
  moreover have "lines CRLF = [[]]" by code_simp
  ultimately show ?thesis unfolding str by (simp only:)
qed

lemma sample_header_credentials:
  "lower_starts_with auth_header_prefix sample_header"
  "basic_credentials nibble_codec sample_header = Some (''bob'', ''pw'')"
  "parse_username ''bob'' = Inr (''bob'', selection_default)"
proof -
  have "list_all ascii_char (''bob'' @ '':'' @ ''pw'')" by code_simp
  then have "valid_str (''bob'' @ '':'' @ ''pw'')"
    by (intro valid_str_ascii) (simp only: list_all_iff)
  then show "lower_starts_with auth_header_prefix sample_header"
    "basic_credentials nibble_codec sample_header = Some (''bob'', ''pw'')"
    using basic_credentials_header [OF nibble_codec_ok, of "''bob''" "''pw''"]
    by (simp_all add: sample_header_def split_char_def)
  show "parse_username ''bob'' = Inr (''bob'', selection_default)" by code_simp
qed

lemma sample_login_length: "length sample_login_request \<le> 8192"
  by (simp add: sample_login_request_def sample_header_def encode_auth_def nibble_codec_def length_concat comp_def as_bytes_def)

lemma sample_login_protocol: "detect_protocol sample_login_request = Inr Https"
proof -
  have "list_all ascii_char ''CONNECT t:443 HTTP/1''" by code_simp
  then have lossy: "from_utf8_lossy (as_bytes ''CONNECT t:443 HTTP/1'') = ''CONNECT t:443 HTTP/1''"
    by (intro sample_lossy) (simp only: list_all_iff)
  have tk: "take (min (length sample_login_request) 20) sample_login_request = as_bytes ''CONNECT t:443 HTTP/1''"
    by (simp add: sample_login_request_def take_as_bytes)
  have first: "sample_login_request = 67 # as_bytes (''ONNECT t:443 HTTP/1.1'' @ CRLF @ sample_header @ CRLF @ CRLF)"
    by (simp add: sample_login_request_def as_bytes_def byte_of_char_def)
  have ls: "lines ''CONNECT t:443 HTTP/1'' = [''CONNECT t:443 HTTP/1'']" by code_simp
  show ?thesis
    unfolding detect_protocol_def tk lossy ls by (simp add: first starts_with_def)
qed

text \<open>A session that logs in by its header and is refused by the upstream's host.\<close>

definition sample_dial :: event where
  "sample_dial = Did (Connect (get_upstream_addr (sample_proxy ''a'' (Some ''us'')))) (Some (R_IoErr ''refused''))"

definition sample_login_trace :: "event list" where
  "sample_login_trace =
     [Did (TimedRead Client 8192) (Some (R_Bytes sample_login_request)),
      Counter (''purroute_connections_total protocol='' @ protocol_as_str Https) 1,
      InfoLog (''Protocol '' @ protocol_debug Https @ '' detected from '' @ ''10.0.0.1''),
      Did (AuthenticateByIp ''10.0.0.1'') (Some (R_Account None)),
      Histogram ''purroute_chain_hops'' 1,
      Did (Authenticate ''bob'' ''pw'') (Some (R_Account (Some (account_for 0 bob)))), sample_dial]"

definition sample_login_script :: "resp list" where
  "sample_login_script = [R_Bytes sample_login_request, R_Account None, R_Account (Some (account_for 0 bob)),
     R_IoErr ''refused'']"

lemma sample_login_selection:
  "selection_for sample_ctx Https sample_login_request \<lparr>w_script = R_Account None # rs, w_trace = tr\<rparr> =
     (Inr selection_default, \<lparr>w_script = rs,
        w_trace = tr @ [Did (AuthenticateByIp ''10.0.0.1'') (Some (R_Account None))]\<rparr>)"
proof -
  have "http_proxy_username nibble_codec sample_login_request = Some ''bob''"
    using sample_header_credentials(1,2)
    by (auto simp: http_proxy_username_def sample_login_lines sample_connect_no_auth basic_credentials_def
        split: option.splits list.splits)
  then have "token_selection (request_username sample_ctx Https sample_login_request) = selection_default"
    by (simp add: token_selection_def request_username_def sample_header_credentials(3))
  then show ?thesis by (simp add: selection_for_def stored_selection_def io_simps)
qed

lemma sample_login_body:
  "connection_body sample_ctx None (started sample_login_script) =
     (Inl (Fail (Io ''refused'')), \<lparr>w_script = [], w_trace = sample_login_trace\<rparr>)"
proof -
  have auth: "authenticate_user sample_ctx sample_login_request = login ''bob'' ''pw''"
    by (simp add: authenticate_user_def sample_login_lines sample_connect_no_auth sample_header_credentials)
  show ?thesis
    unfolding connection_body_def
    by (simp add: started_def sample_login_script_def sample_login_length sample_login_protocol io_simps
        andthen_def sample_login_selection sample_resolve log_path_def dispatch_def single_hop_def auth
        login_def require_account_def check_bandwidth_def https_handle_def sample_login_lines
        sample_connect_target account_for_def bob_def sample_login_trace_def sample_dial_def
        del: protocol_as_str.simps append.simps)
qed


end
